theory Spec2Isabelle
  imports Main
begin

section \<open>Data model\<close>

text \<open>
  The exceptions that the modelled functions can raise.  Each raise of the Python
  source is a branch returning one of these values.
\<close>

datatype error =
    AssertionError
  | IndexError
  | ValueError
  | KeyError
  | TypeError
  | AttributeError
  | UnboundLocalError
  | WebDriverError

text \<open>
  A cell of a pandas DataFrame: a string, a number, a calendar date (year, month, day:
  the archives are compared at day granularity, after \<open>.dt.date\<close>), or a missing
  value (\<open>None\<close> / \<open>NaN\<close> / \<open>NaT\<close>).  Numbers are held as integers: nothing here
  depends on their fractions.
\<close>

datatype cell = Str string | Num int | Day nat nat nat | NA

text \<open>
  A DataFrame: its column labels in order, and its rows in index order.  A DataFrame is
  rectangular: every row has one cell per column.
\<close>

record frame =
  columns :: "string list"
  rows :: "cell list list"

definition wf_frame :: "frame \<Rightarrow> bool" where
  "wf_frame df = list_all (\<lambda>r. length r = length (columns df)) (rows df)"

text \<open>\<open>pd.DataFrame()\<close>: no columns and no rows.\<close>

definition empty_frame :: frame where
  "empty_frame = \<lparr>columns = [], rows = []\<rparr>"

text \<open>\<open>df.empty\<close>: one of the two axes has length zero.\<close>

definition is_empty :: "frame \<Rightarrow> bool" where
  "is_empty df = (rows df = [] \<or> columns df = [])"

section \<open>Plausibility validator\<close>

text \<open>\<open>isna\<close> on one cell.\<close>

definition isna :: "cell \<Rightarrow> bool" where
  "isna c = (c = NA)"

text \<open>\<open>df.isna().all(axis=0)\<close>: for each column, whether all of its cells are missing.\<close>

definition column_all_na :: "frame \<Rightarrow> nat \<Rightarrow> bool" where
  "column_all_na df j = list_all (\<lambda>r. isna (r ! j)) (rows df)"

definition isna_all :: "frame \<Rightarrow> bool list" where
  "isna_all df = map (column_all_na df) [0..<length (columns df)]"

text \<open>
  \<open>plausibility_checks\<close> of power_data_utils.py: first \<open>df.isna().all().all()\<close>, then
  the loop collecting the labels of the columns that are missing throughout.
\<close>

definition plausibility_checks :: "frame \<Rightarrow> bool" where
  "plausibility_checks df =
     (let all_nan = list_all (\<lambda>b. b) (isna_all df) in
      if all_nan then False
      else
        let all_nan_columns = map fst (filter (\<lambda>(col_name, v). v = True) (zip (columns df) (isna_all df)));
            number_all_nans = length all_nan_columns
        in if number_all_nans > 0 then False else True)"

section \<open>Archive store: existence check\<close>

text \<open>
  Element-wise \<open>==\<close> of pandas: a missing value is equal to nothing, not even to
  another missing value; any two other cells are equal when they are the same value.
\<close>

fun cell_eq :: "cell \<Rightarrow> cell \<Rightarrow> bool" where
  "cell_eq NA _ = False"
| "cell_eq _ NA = False"
| "cell_eq a b = (a = b)"

text \<open>
  \<open>df.drop(columns=columns_to_drop)\<close>: every column whose label is in the list goes,
  the others keep their order.
\<close>

definition drop_row :: "string list \<Rightarrow> string list \<Rightarrow> cell list \<Rightarrow> cell list" where
  "drop_row cols columns_to_drop r =
     map snd (filter (\<lambda>(c, v). c \<notin> set columns_to_drop) (zip cols r))"

definition drop_columns :: "frame \<Rightarrow> string list \<Rightarrow> frame" where
  "drop_columns df columns_to_drop =
     \<lparr>columns = filter (\<lambda>c. c \<notin> set columns_to_drop) (columns df),
      rows = map (drop_row (columns df) columns_to_drop) (rows df)\<rparr>"

text \<open>
  \<open>df.drop_duplicates()\<close>: of equal rows the first one stays (\<open>keep='first'\<close>; missing
  values count as equal here); an empty frame is returned as it is.
\<close>

definition keep_first :: "'a list \<Rightarrow> 'a list" where
  "keep_first xs = rev (remdups (rev xs))"

definition drop_duplicates :: "frame \<Rightarrow> frame" where
  "drop_duplicates df = (if is_empty df then df else df\<lparr>rows := keep_first (rows df)\<rparr>)"

text \<open>
  \<open>((df == combination).all(axis=1)).any()\<close>: the list is aligned with the columns by
  position, and pandas raises ValueError ("Unable to coerce to Series") when it has not
  one entry per column.
\<close>

definition eq_list :: "frame \<Rightarrow> cell list \<Rightarrow> error + bool list list" where
  "eq_list df combination =
     (if length (columns df) \<noteq> length combination then Inl ValueError
      else Inr (map (\<lambda>r. map (\<lambda>(a, b). cell_eq a b) (zip r combination)) (rows df)))"

definition all_axis1_any :: "bool list list \<Rightarrow> bool" where
  "all_axis1_any m = list_ex (\<lambda>b. b) (map (list_all (\<lambda>b. b)) m)"

text \<open>\<open>check_archive\<close> of power_data_utils.py.\<close>

definition check_archive :: "frame \<Rightarrow> cell list \<Rightarrow> string list \<Rightarrow> error + bool" where
  "check_archive archive_df combination columns_to_check =
     (let columns_to_drop = filter (\<lambda>column_name. column_name \<notin> set columns_to_check) (columns archive_df);
          archive_df = drop_columns archive_df columns_to_drop;
          archive_unique_df = drop_duplicates archive_df
      in case eq_list archive_unique_df combination of
           Inl e \<Rightarrow> Inl e
         | Inr m \<Rightarrow> Inr (all_axis1_any m))"

text \<open>\<open>check_existing_combinations\<close> of power_data_downloader_utils.py.\<close>

definition check_existing_combinations :: "frame \<Rightarrow> cell list \<Rightarrow> error + bool" where
  "check_existing_combinations archive_df combination =
     (case eq_list archive_df combination of
        Inl e \<Rightarrow> Inl e
      | Inr m \<Rightarrow> Inr (all_axis1_any m))"

section \<open>Tracking ledger\<close>

text \<open>
  \<open>df[name]\<close> reads a column and raises KeyError when there is none with that label;
  \<open>df[name] = values\<close> on a column that exists replaces its cells row by row.
\<close>

definition column_index :: "frame \<Rightarrow> string \<Rightarrow> error + nat" where
  "column_index df name =
     (case find (\<lambda>(c, j). c = name) (zip (columns df) [0..<length (columns df)]) of
        None \<Rightarrow> Inl KeyError
      | Some (c, j) \<Rightarrow> Inr j)"

text \<open>
  \<open>pd.to_datetime(column).dt.date\<close> is pandas' date parser, taken as a parameter
  \<open>to_date\<close> on one cell; \<open>None\<close> is a cell that the parser refuses by raising.
  pandas reads the column as a whole (it may take the format of the first cell for the
  others); here each cell is read on its own, and one refused cell refuses the column.
\<close>

fun convert_all :: "(cell \<Rightarrow> cell option) \<Rightarrow> nat \<Rightarrow> cell list list \<Rightarrow> error + cell list list" where
  "convert_all to_date j [] = Inr []"
| "convert_all to_date j (r # rs) =
     (case to_date (r ! j) of
        None \<Rightarrow> Inl ValueError
      | Some d \<Rightarrow>
         (case convert_all to_date j rs of
            Inl e \<Rightarrow> Inl e
          | Inr rs' \<Rightarrow> Inr (r[j := d] # rs')))"

definition to_datetime_date :: "(cell \<Rightarrow> cell option) \<Rightarrow> frame \<Rightarrow> string \<Rightarrow> error + frame" where
  "to_datetime_date to_date df name =
     (case column_index df name of
        Inl e \<Rightarrow> Inl e
      | Inr j \<Rightarrow>
         (case convert_all to_date j (rows df) of
            Inl e \<Rightarrow> Inl e
          | Inr rs \<Rightarrow> Inr (df\<lparr>rows := rs\<rparr>)))"

text \<open>
  \<open>import_exsting_combinations_file\<close>.  Its first argument is what \<open>import_csv\<close>
  returned for the tracking file: \<open>None\<close> when the file is missing or unreadable (the
  subscript on \<open>None\<close> is then a TypeError), the parsed table otherwise.  The comparison
  \<open>!= "Error"\<close> is true of a missing value.
\<close>

definition import_exsting_combinations_file ::
  "(cell \<Rightarrow> cell option) \<Rightarrow> frame option \<Rightarrow> string list \<Rightarrow> error + frame" where
  "import_exsting_combinations_file to_date imported columns_to_check =
     (case imported of
        None \<Rightarrow> Inl TypeError
      | Some archive_df \<Rightarrow>
         (case to_datetime_date to_date archive_df ''DeliveryDate'' of
            Inl e \<Rightarrow> Inl e
          | Inr archive_df \<Rightarrow>
             (case column_index archive_df ''SuccessIndicator'' of
                Inl e \<Rightarrow> Inl e
              | Inr si \<Rightarrow>
                 (let archive_df = archive_df\<lparr>rows := filter (\<lambda>r. r ! si \<noteq> Str ''Error'') (rows archive_df)\<rparr>;
                      columns_to_drop = filter (\<lambda>column_name. column_name \<notin> set columns_to_check) (columns archive_df);
                      archive_df = drop_columns archive_df columns_to_drop;
                      archive_unique_df = drop_duplicates archive_df
                  in Inr archive_unique_df))))"

section \<open>Tracking ledger: recording an attempt\<close>

text \<open>
  Files and what is done to them.  A CSV file is held as \<open>csv.reader\<close> returns it and
  \<open>csv.writer\<close> takes it: its rows in order, each a list of fields (the writer turns
  every field into text with \<open>str\<close>, which the callers of this model have done).
  An archive written and read back by pandas is held as the table.  The log records each
  page request, each pause and each time the ledger's record operation opens the
  tracking file for reading or for writing, in the order in which they happen.
  Directories are taken to exist.
\<close>

datatype event = Request string | Sleep | ReadFile string | WriteFile string

record world =
  csv_files :: "string \<rightharpoonup> string list list"
  tables :: "string \<rightharpoonup> frame"
  log :: "event list"

definition emit :: "event \<Rightarrow> world \<Rightarrow> world" where
  "emit ev w = w\<lparr>log := log w @ [ev]\<rparr>"

definition write_csv :: "string \<Rightarrow> string list list \<Rightarrow> world \<Rightarrow> world" where
  "write_csv path content w = emit (WriteFile path) (w\<lparr>csv_files := (csv_files w)(path \<mapsto> content)\<rparr>)"

text \<open>
  \<open>update_tracking_file\<close> of power_data_downloader_utils.py.  The result is the
  exception that ended the call, if any, and the world it leaves.
\<close>

definition update_tracking_file ::
  "world \<Rightarrow> string \<Rightarrow> string list \<Rightarrow> string list \<Rightarrow> error option \<times> world" where
  "update_tracking_file w tracking_file_filepath tracking_data header_row =
     (if length tracking_data \<noteq> length header_row then (Some AssertionError, w)
      else
        (case csv_files w tracking_file_filepath of
           Some rws \<Rightarrow>
             (let w = emit (ReadFile tracking_file_filepath) w in
              case rws of
                [] \<Rightarrow> (Some IndexError, w)
              | header # data_rows \<Rightarrow>
                  (let data_rows = tracking_data # data_rows
                   in (None, write_csv tracking_file_filepath (header # data_rows) w)))
         | None \<Rightarrow>
             (None, write_csv tracking_file_filepath [header_row, tracking_data] w)))"

text \<open>
  The same bookkeeping as \<open>download_data\<close> of power_data_architecture.py writes it in
  line (no assertion, its own fixed header).
\<close>

definition tracking_header_download_data :: "string list" where
  "tracking_header_download_data =
     [''MarketArea'', ''TradingDate'', ''DeliveryDate'', ''Modality'', ''SubModality'',
      ''AuctionName'', ''WebsiteAccessTimeUTC'', ''NumberHourlyEntries'', ''BasePeakSuccess'']"

definition write_tracking_inline :: "world \<Rightarrow> string \<Rightarrow> string list \<Rightarrow> error option \<times> world" where
  "write_tracking_inline w tracking_file_filepath tracking_data =
     (case csv_files w tracking_file_filepath of
        Some rws \<Rightarrow>
          (let w = emit (ReadFile tracking_file_filepath) w in
           case rws of
             [] \<Rightarrow> (Some IndexError, w)
           | header # data_rows \<Rightarrow>
               (let data_rows = tracking_data # data_rows
                in (None, write_csv tracking_file_filepath (header # data_rows) w)))
      | None \<Rightarrow>
          (None, write_csv tracking_file_filepath [tracking_header_download_data, tracking_data] w))"

section \<open>Row assembler\<close>

text \<open>
  The loop \<open>for index, row in enumerate(data): ... hours[index] ...\<close> of both drivers:
  each numeric row is prefixed with the metadata and the hour label at its own index.
  \<open>hours[index]\<close> raises IndexError when there is no label at that index.
\<close>

fun assemble_rows :: "cell list \<Rightarrow> string list \<Rightarrow> nat \<Rightarrow> cell list list \<Rightarrow> error + cell list list" where
  "assemble_rows meta hours index [] = Inr []"
| "assemble_rows meta hours index (row # rest) =
     (if index < length hours then
        (let row_clean = meta @ [Str (hours ! index)] @ row in
         case assemble_rows meta hours (Suc index) rest of
           Inl e \<Rightarrow> Inl e
         | Inr data_list \<Rightarrow> Inr (row_clean # data_list))
      else Inl IndexError)"

section \<open>Document extractor\<close>

text \<open>
  A parsed page: an element with its name, its list of classes and its children, or a
  piece of text.  The page itself is the root element.
\<close>

datatype node = Tag string "string list" "node list" | NavigableString string

fun children :: "node \<Rightarrow> node list" where
  "children (Tag n cls ks) = ks"
| "children (NavigableString s) = []"

text \<open>
  The elements and texts below a list of siblings in document order, each with the
  siblings that follow it (what \<open>find_next_sibling\<close> walks through).
\<close>

fun below :: "node list \<Rightarrow> (node \<times> node list) list" where
  "below [] = []"
| "below (Tag n cls ks # rest) = (Tag n cls ks, rest) # below ks @ below rest"
| "below (NavigableString s # rest) = (NavigableString s, rest) # below rest"

text \<open>
  How \<open>class_\<close> is matched: against each class of the element, and against the whole
  attribute, its classes joined by single spaces.
\<close>

fun join_classes :: "string list \<Rightarrow> string" where
  "join_classes [] = []"
| "join_classes [c] = c"
| "join_classes (c # cs) = c @ '' '' @ join_classes cs"

definition matches_class :: "string list \<Rightarrow> string \<Rightarrow> bool" where
  "matches_class cls wanted = (wanted \<in> set cls \<or> (cls \<noteq> [] \<and> join_classes cls = wanted))"

fun matches :: "string \<Rightarrow> string option \<Rightarrow> node \<Rightarrow> bool" where
  "matches name None (Tag n cls ks) = (n = name)"
| "matches name (Some wanted) (Tag n cls ks) = (n = name \<and> matches_class cls wanted)"
| "matches name c (NavigableString s) = False"

text \<open>\<open>find_all\<close> and \<open>find\<close> search below the element they are called on.\<close>

definition find_all_ctx :: "node \<Rightarrow> string \<Rightarrow> string option \<Rightarrow> (node \<times> node list) list" where
  "find_all_ctx nd name c = filter (\<lambda>(k, following). matches name c k) (below (children nd))"

definition find_all :: "node \<Rightarrow> string \<Rightarrow> string option \<Rightarrow> node list" where
  "find_all nd name c = map fst (find_all_ctx nd name c)"

definition find_tag :: "node \<Rightarrow> string \<Rightarrow> string option \<Rightarrow> node option" where
  "find_tag nd name c = (case find_all nd name c of [] \<Rightarrow> None | k # _ \<Rightarrow> Some k)"

text \<open>\<open>.text\<close>: all the text below the element, in order.\<close>

fun text_of :: "node \<Rightarrow> string" where
  "text_of (NavigableString s) = s"
| "text_of (Tag n cls ks) = concat (map text_of ks)"

text \<open>
  Text is held as its UTF-8 bytes.  The white space of Python strings, each character
  as its bytes: U+0009 to U+000D, U+001C to U+0020, U+0085, U+00A0, U+1680, U+2000 to
  U+200A, U+2028, U+2029, U+202F, U+205F and U+3000.
\<close>

definition white_space :: "string list" where
  "white_space =
     [[CHR 0x09], [CHR 0x0A], [CHR 0x0B], [CHR 0x0C], [CHR 0x0D],
      [CHR 0x1C], [CHR 0x1D], [CHR 0x1E], [CHR 0x1F], [CHR 0x20],
      [CHR 0xC2, CHR 0x85], [CHR 0xC2, CHR 0xA0], [CHR 0xE1, CHR 0x9A, CHR 0x80],
      [CHR 0xE2, CHR 0x80, CHR 0x80], [CHR 0xE2, CHR 0x80, CHR 0x81], [CHR 0xE2, CHR 0x80, CHR 0x82],
      [CHR 0xE2, CHR 0x80, CHR 0x83], [CHR 0xE2, CHR 0x80, CHR 0x84], [CHR 0xE2, CHR 0x80, CHR 0x85],
      [CHR 0xE2, CHR 0x80, CHR 0x86], [CHR 0xE2, CHR 0x80, CHR 0x87], [CHR 0xE2, CHR 0x80, CHR 0x88],
      [CHR 0xE2, CHR 0x80, CHR 0x89], [CHR 0xE2, CHR 0x80, CHR 0x8A], [CHR 0xE2, CHR 0x80, CHR 0xA8],
      [CHR 0xE2, CHR 0x80, CHR 0xA9], [CHR 0xE2, CHR 0x80, CHR 0xAF], [CHR 0xE2, CHR 0x81, CHR 0x9F],
      [CHR 0xE3, CHR 0x80, CHR 0x80]]"

text \<open>Whether the first list of bytes is the beginning of the second.\<close>

fun begins_with :: "string \<Rightarrow> string \<Rightarrow> bool" where
  "begins_with [] s = True"
| "begins_with (c # cs) [] = False"
| "begins_with (c # cs) (d # ds) = (c = d \<and> begins_with cs ds)"

text \<open>
  The characters of a list are taken off the front of a text for as long as one of them
  is there.
\<close>

function strip_left :: "string list \<Rightarrow> string \<Rightarrow> string" where
  "strip_left chars s =
     (case find (\<lambda>w. w \<noteq> [] \<and> begins_with w s) chars of
        None \<Rightarrow> s
      | Some w \<Rightarrow> strip_left chars (drop (length w) s))"
  by pat_completeness auto
termination
proof (relation "measure (\<lambda>(chars, s). length s)")
  show "wf (measure (\<lambda>(chars, s). length s))"
    by simp
next
  fix chars :: "string list" and s w :: string
  assume "find (\<lambda>w. w \<noteq> [] \<and> begins_with w s) chars = Some w"
  then have "w \<noteq> []" and "begins_with w s"
    by (auto simp: find_Some_iff)
  then have "s \<noteq> []"
    by (cases w; cases s) auto
  with \<open>w \<noteq> []\<close> show "((chars, drop (length w) s), (chars, s)) \<in> measure (\<lambda>(chars, s). length s)"
    by simp
qed

text \<open>
  \<open>str.strip()\<close>: white space goes from both ends; at the end the bytes of each
  character are met in reverse.
\<close>

definition strip :: "string \<Rightarrow> string" where
  "strip s = rev (strip_left (map rev white_space) (rev (strip_left white_space s)))"

text \<open>\<open>len\<close> of a text counts its characters: the bytes that do not continue one.\<close>

definition py_len :: "string \<Rightarrow> nat" where
  "py_len s = length (filter (\<lambda>ch. \<not> ((0x80 :: nat) \<le> of_char ch \<and> of_char ch \<le> (0xBF :: nat))) s)"

text \<open>\<open>item.find("a").text.strip()\<close>: AttributeError on \<open>None\<close> when there is no link.\<close>

definition a_text :: "node \<Rightarrow> error + string" where
  "a_text item =
     (case find_tag item ''a'' None of
        None \<Rightarrow> Inl AttributeError
      | Some a \<Rightarrow> Inr (strip (text_of a)))"

fun hours_loop :: "node list \<Rightarrow> error + string list" where
  "hours_loop [] = Inr []"
| "hours_loop (hour_item # rest) =
     (case a_text hour_item of
        Inl e \<Rightarrow> Inl e
      | Inr hour \<Rightarrow>
         (case hours_loop rest of
            Inl e \<Rightarrow> Inl e
          | Inr hours_clean \<Rightarrow> Inr (hour # hours_clean)))"

text \<open>\<open>extract_hours\<close> (the same in both utility modules).\<close>

definition extract_hours :: "node \<Rightarrow> error + string list" where
  "extract_hours soup =
     (case find_tag soup ''div'' (Some ''fixed-column js-table-times'') of
        None \<Rightarrow> Inl AttributeError
      | Some hours_div \<Rightarrow>
         (case find_tag hours_div ''ul'' None of
            None \<Rightarrow> Inl AttributeError
          | Some ul \<Rightarrow> hours_loop (find_all ul ''li'' None)))"

text \<open>
  The inner \<open>while\<close> of \<open>extract_hours_continous\<close>: \<open>find_next_sibling()\<close> steps to the
  next element among the following siblings, passing over text; the walk ends at the
  first element with the class \<open>child\<close> or when the siblings are used up.
\<close>

fun sub_intervals :: "node list \<Rightarrow> error + string list" where
  "sub_intervals [] = Inr []"
| "sub_intervals (NavigableString s # following) = sub_intervals following"
| "sub_intervals (Tag n cls ks # following) =
     (if ''child'' \<in> set cls then Inr []
      else if ''lvl-1'' \<in> set cls then
        (case a_text (Tag n cls ks) of
           Inl e \<Rightarrow> Inl e
         | Inr half_hour_interval \<Rightarrow>
            (case sub_intervals following of
               Inl e \<Rightarrow> Inl e
             | Inr intervals \<Rightarrow> Inr (half_hour_interval # intervals)))
      else if ''lvl-2'' \<in> set cls then
        (case a_text (Tag n cls ks) of
           Inl e \<Rightarrow> Inl e
         | Inr smaller_interval \<Rightarrow>
            (case sub_intervals following of
               Inl e \<Rightarrow> Inl e
             | Inr intervals \<Rightarrow> Inr (smaller_interval # intervals)))
      else sub_intervals following)"

fun hour_blocks :: "(node \<times> node list) list \<Rightarrow> error + string list" where
  "hour_blocks [] = Inr []"
| "hour_blocks ((hour_block, following) # blocks) =
     (case a_text hour_block of
        Inl e \<Rightarrow> Inl e
      | Inr hour_range \<Rightarrow>
         (case sub_intervals following of
            Inl e \<Rightarrow> Inl e
          | Inr subs \<Rightarrow>
             (case hour_blocks blocks of
                Inl e \<Rightarrow> Inl e
              | Inr intervals \<Rightarrow> Inr (hour_range # subs @ intervals))))"

text \<open>\<open>extract_hours_continous\<close> of power_data_downloader_utils.py.\<close>

definition extract_hours_continous :: "node \<Rightarrow> error + string list" where
  "extract_hours_continous soup =
     (case find_tag soup ''div'' (Some ''fixed-column js-table-times'') of
        None \<Rightarrow> Inr []
      | Some hours_div \<Rightarrow> hour_blocks (find_all_ctx hours_div ''li'' (Some ''child'')))"

section \<open>Archive store: the existence check as the specification words it\<close>

text \<open>
  The cells of a row in the match columns, and the check as specified: project the
  archive onto the match columns, remove duplicate rows, and look for a row that is
  equal to the key, cell by cell.
\<close>

definition project :: "string list \<Rightarrow> string list \<Rightarrow> cell list \<Rightarrow> cell list" where
  "project cols match_columns r = map snd (filter (\<lambda>(c, v). c \<in> set match_columns) (zip cols r))"

definition exists_spec :: "frame \<Rightarrow> cell list \<Rightarrow> string list \<Rightarrow> bool" where
  "exists_spec archive key match_columns =
     list_ex (\<lambda>r. list_all2 cell_eq r key)
       (remdups (map (project (columns archive) match_columns) (rows archive)))"

text \<open>The archive of the specification's example: three rows, two of them equal.\<close>

definition archive_example :: frame where
  "archive_example =
     \<lparr>columns = [''A'', ''B'', ''C''],
      rows = [[Str ''DE'', Day 2024 5 1, Num 5],
              [Str ''DE'', Day 2024 5 1, Num 5],
              [Str ''FR'', Day 2024 5 1, Num 5]]\<rparr>"

section \<open>Example inputs\<close>

text \<open>A world whose only file is a tracking file with a header and one entry.\<close>

definition tracking_example :: world where
  "tracking_example =
     \<lparr>csv_files = [''tracking.csv'' \<mapsto> [[''MarketArea'', ''SuccessIndicator''], [''FR'', ''Success'']]],
      tables = Map.empty,
      log = []\<rparr>"

section \<open>Shapes of documents\<close>

text \<open>Everything below an element, in document order.\<close>

definition descendants :: "node \<Rightarrow> node list" where
  "descendants nd = map fst (below (children nd))"

text \<open>
  The shape of an hour list.  \<open>NavigableString\<close> is the text between the elements (the
  white space of the page source is such text); \<open>get_class\<close> is
  \<open>.get("class", [])\<close>, the classes of an element, none for text.
\<close>

fun is_text :: "node \<Rightarrow> bool" where
  "is_text (NavigableString s) = True"
| "is_text (Tag n cls ks) = False"

fun get_class :: "node \<Rightarrow> string list" where
  "get_class (Tag n cls ks) = cls"
| "get_class (NavigableString s) = []"

text \<open>
  A node that is no hour block and has none below it; an hour block: a list item of
  class \<open>child\<close> that holds a link and no further hour block; an item that belongs to
  the hour block before it: an element without the class \<open>child\<close> and without an hour
  block below it, which holds a link when it is a half-hour (\<open>lvl-1\<close>) or smaller
  (\<open>lvl-2\<close>) interval.
\<close>

definition no_hour_block :: "node \<Rightarrow> bool" where
  "no_hour_block k = (\<not> matches ''li'' (Some ''child'') k \<and> find_all_ctx k ''li'' (Some ''child'') = [])"

definition hour_item :: "node \<Rightarrow> bool" where
  "hour_item k = (matches ''li'' (Some ''child'') k \<and> find_all_ctx k ''li'' (Some ''child'') = []
                    \<and> find_tag k ''a'' None \<noteq> None)"

definition is_interval :: "node \<Rightarrow> bool" where
  "is_interval k = (''lvl-1'' \<in> set (get_class k) \<or> ''lvl-2'' \<in> set (get_class k))"

definition following_item :: "node \<Rightarrow> bool" where
  "following_item k = (\<not> is_text k \<and> ''child'' \<notin> set (get_class k)
                         \<and> find_all_ctx k ''li'' (Some ''child'') = []
                         \<and> (is_interval k \<longrightarrow> find_tag k ''a'' None \<noteq> None))"

text \<open>
  The labels as the specification orders them.  The label of an item is the text of
  its first link without the white space around it.  For hour blocks, each given as its
  item and the elements that follow it up to the next hour block: the label of the hour
  block, then the labels of the half-hour and smaller intervals among the elements that
  follow it, in their order, block after block.
\<close>

definition label_of :: "node \<Rightarrow> string" where
  "label_of k = (case find_tag k ''a'' None of None \<Rightarrow> [] | Some a \<Rightarrow> strip (text_of a))"

definition interleaved_labels :: "(node \<times> node list) list \<Rightarrow> string list" where
  "interleaved_labels blocks =
     concat (map (\<lambda>(h, subs). label_of h # map label_of (filter is_interval subs)) blocks)"

text \<open>The hour blocks among a list of siblings and below them, as \<open>find_all\<close> meets them.\<close>

abbreviation hour_filter :: "node list \<Rightarrow> (node \<times> node list) list" where
  "hour_filter ks \<equiv> filter (\<lambda>(k, following). matches ''li'' (Some ''child'') k) (below ks)"

text \<open>
  The page of the docstring of \<open>extract_hours_continous\<close> as \<open>html.parser\<close> reads it:
  the line breaks and the indentation of the source are text nodes before, between and
  after the elements.
\<close>

definition line_break :: "nat \<Rightarrow> node" where
  "line_break n = NavigableString (CHR 0x0A # replicate n (CHR '' ''))"

definition li_a :: "string list \<Rightarrow> string \<Rightarrow> node" where
  "li_a cls label = Tag ''li'' cls [Tag ''a'' [] [NavigableString label]]"

definition docstring_items :: "node list" where
  "docstring_items =
     [line_break 12, li_a [''child''] ''00 - 01'',
      line_break 12, li_a [''sub-child'', ''lvl-2''] ''00:00 - 00:15'',
      line_break 12, li_a [''sub-child'', ''lvl-2''] ''00:15 - 00:30'',
      line_break 12, li_a [''sub-child'', ''lvl-2''] ''00:30 - 00:45'',
      line_break 12, li_a [''sub-child'', ''lvl-2''] ''00:45 - 01:00'',
      line_break 12, li_a [''child''] ''01 - 02'',
      line_break 12, li_a [''sub-child'', ''lvl-2''] ''01:00 - 01:15'',
      line_break 12, li_a [''sub-child'', ''lvl-2''] ''01:15 - 01:30'',
      line_break 12, li_a [''sub-child'', ''lvl-2''] ''01:30 - 01:45'',
      line_break 12, li_a [''sub-child'', ''lvl-2''] ''01:45 - 02:00'',
      line_break 8]"

definition docstring_page :: node where
  "docstring_page =
     Tag ''[document]'' []
       [line_break 4,
        Tag ''div'' [''fixed-column'', ''js-table-times'']
          [line_break 8, Tag ''ul'' [] docstring_items, line_break 4],
        line_break 4]"

definition docstring_blocks :: "(node \<times> node list) list" where
  "docstring_blocks =
     [(li_a [''child''] ''00 - 01'',
       [li_a [''sub-child'', ''lvl-2''] ''00:00 - 00:15'', li_a [''sub-child'', ''lvl-2''] ''00:15 - 00:30'',
        li_a [''sub-child'', ''lvl-2''] ''00:30 - 00:45'', li_a [''sub-child'', ''lvl-2''] ''00:45 - 01:00'']),
      (li_a [''child''] ''01 - 02'',
       [li_a [''sub-child'', ''lvl-2''] ''01:00 - 01:15'', li_a [''sub-child'', ''lvl-2''] ''01:15 - 01:30'',
        li_a [''sub-child'', ''lvl-2''] ''01:30 - 01:45'', li_a [''sub-child'', ''lvl-2''] ''01:45 - 02:00''])]"

text \<open>
  A page written without white space between its elements, with half hours: the list
  begins with a title item, the first hour block ends with an item that is no interval,
  and a paragraph follows the list inside the container.
\<close>

definition half_hours_items :: "node list" where
  "half_hours_items =
     [Tag ''li'' [''title''] [NavigableString ''Hours''],
      li_a [''child''] ''00 - 01'',
      li_a [''sub-child'', ''lvl-1''] ''00:00 - 00:30'',
      li_a [''sub-child'', ''lvl-2''] ''00:00 - 00:15'',
      li_a [''sub-child'', ''lvl-2''] ''00:15 - 00:30'',
      li_a [''sub-child'', ''lvl-1''] ''00:30 - 01:00'',
      li_a [''sub-child'', ''lvl-2''] ''00:30 - 00:45'',
      li_a [''sub-child'', ''lvl-2''] ''00:45 - 01:00'',
      Tag ''li'' [''sub-child''] [NavigableString ''Total''],
      li_a [''child''] ''01 - 02'',
      li_a [''sub-child'', ''lvl-1''] ''01:00 - 01:30'',
      li_a [''sub-child'', ''lvl-1''] ''01:30 - 02:00'']"

definition half_hours_page :: node where
  "half_hours_page =
     Tag ''[document]'' []
       [Tag ''div'' [''fixed-column'', ''js-table-times'']
          [Tag ''ul'' [] half_hours_items, Tag ''p'' [] [NavigableString ''CET'']]]"

definition half_hours_blocks :: "(node \<times> node list) list" where
  "half_hours_blocks =
     [(li_a [''child''] ''00 - 01'',
       [li_a [''sub-child'', ''lvl-1''] ''00:00 - 00:30'',
        li_a [''sub-child'', ''lvl-2''] ''00:00 - 00:15'', li_a [''sub-child'', ''lvl-2''] ''00:15 - 00:30'',
        li_a [''sub-child'', ''lvl-1''] ''00:30 - 01:00'',
        li_a [''sub-child'', ''lvl-2''] ''00:30 - 00:45'', li_a [''sub-child'', ''lvl-2''] ''00:45 - 01:00'',
        Tag ''li'' [''sub-child''] [NavigableString ''Total'']]),
      (li_a [''child''] ''01 - 02'',
       [li_a [''sub-child'', ''lvl-1''] ''01:00 - 01:30'', li_a [''sub-child'', ''lvl-1''] ''01:30 - 02:00''])]"

text \<open>A page whose container holds the items itself, without a list element.\<close>

definition bare_items :: "node list" where
  "bare_items =
     [li_a [''child''] ''23 - 24'',
      li_a [''sub-child'', ''lvl-1''] ''23:00 - 23:30'',
      li_a [''sub-child'', ''lvl-1''] ''23:30 - 24:00'']"

definition bare_page :: node where
  "bare_page = Tag ''[document]'' [] [Tag ''div'' [''fixed-column'', ''js-table-times''] bare_items]"

definition bare_blocks :: "(node \<times> node list) list" where
  "bare_blocks =
     [(li_a [''child''] ''23 - 24'',
       [li_a [''sub-child'', ''lvl-1''] ''23:00 - 23:30'', li_a [''sub-child'', ''lvl-1''] ''23:30 - 24:00''])]"

text \<open>A day-ahead page with the hours of two rows.\<close>

definition two_hours_page :: node where
  "two_hours_page =
     Tag ''[document]'' []
       [Tag ''div'' [''fixed-column'', ''js-table-times'']
          [Tag ''ul'' [] [li_a [''child''] ''00 - 01'', li_a [''child''] ''01 - 02'']]]"

text \<open>A page without the hour list, and one whose hour list container is empty.\<close>

definition page_without_container :: node where
  "page_without_container = Tag ''[document]'' [] [Tag ''p'' [] [NavigableString ''No results'']]"

definition page_with_empty_container :: node where
  "page_with_empty_container =
     Tag ''[document]'' [] [Tag ''div'' [''fixed-column'', ''js-table-times''] []]"

section \<open>Helpers of the combination drivers\<close>

text \<open>\<open>sub in s\<close> on strings.\<close>

fun starts_with :: "string \<Rightarrow> string \<Rightarrow> bool" where
  "starts_with [] s = True"
| "starts_with (c # cs) [] = False"
| "starts_with (c # cs) (d # ds) = (c = d \<and> starts_with cs ds)"

fun contains :: "string \<Rightarrow> string \<Rightarrow> bool" where
  "contains sub [] = (sub = [])"
| "contains sub (c # cs) = (starts_with sub (c # cs) \<or> contains sub cs)"

text \<open>Decimal digits of a number, \<open>str\<close> of an integer that is not negative.\<close>

definition digit_char :: "nat \<Rightarrow> char" where
  "digit_char d = char_of (48 + d)"

function digits :: "nat \<Rightarrow> string" where
  "digits n = (if n < 10 then [digit_char n] else digits (n div 10) @ [digit_char (n mod 10)])"
  by pat_completeness auto
termination
  by (relation "measure (\<lambda>n. n)") auto

text \<open>
  \<open>strftime("%Y-%m-%d")\<close>: month and day with two digits, the year with four.  (For a
  year below 1000 the C library decides whether \<open>%Y\<close> is padded; the dates of a run are
  not that old.)
\<close>

definition zero_pad :: "nat \<Rightarrow> nat \<Rightarrow> string" where
  "zero_pad width n = replicate (width - length (digits n)) CHR ''0'' @ digits n"

definition date_str :: "nat \<times> nat \<times> nat \<Rightarrow> string" where
  "date_str = (\<lambda>(y, m, d). zero_pad 4 y @ ''-'' @ zero_pad 2 m @ ''-'' @ zero_pad 2 d)"

definition date_cell :: "nat \<times> nat \<times> nat \<Rightarrow> cell" where
  "date_cell = (\<lambda>(y, m, d). Day y m d)"

text \<open>
  The two status variables of a combination: \<open>None\<close>, the string "Error", a number of
  records, or the string "Success"; and \<open>str\<close> of each.
\<close>

datatype outcome = Unset | Failed | Records nat | Succeeded

fun str_outcome :: "outcome \<Rightarrow> string" where
  "str_outcome Unset = ''None''"
| "str_outcome Failed = ''Error''"
| "str_outcome (Records n) = digits n"
| "str_outcome Succeeded = ''Success''"

text \<open>
  \<open>pd.DataFrame(data_list, columns=names)\<close> on a list of rows: the longest row must
  have one cell per column, a shorter row is filled up with missing values.
\<close>

definition data_frame :: "cell list list \<Rightarrow> string list \<Rightarrow> error + frame" where
  "data_frame data_list names =
     (if data_list \<noteq> [] \<and> Max (set (map length data_list)) \<noteq> length names then Inl ValueError
      else Inr \<lparr>columns = names,
                rows = map (\<lambda>r. r @ replicate (length names - length r) NA) data_list\<rparr>)"

text \<open>
  \<open>pd.concat([a, b], ignore_index=True)\<close>: the columns of the first table, then the new
  ones of the second; a row has a missing value in a column that its table did not have.
\<close>

definition realign :: "string list \<Rightarrow> string list \<Rightarrow> cell list \<Rightarrow> cell list" where
  "realign from_cols cols r =
     map (\<lambda>c. case map_of (zip from_cols r) c of None \<Rightarrow> NA | Some v \<Rightarrow> v) cols"

definition concat_frames :: "frame \<Rightarrow> frame \<Rightarrow> frame" where
  "concat_frames a b =
     (let cols = columns a @ filter (\<lambda>c. c \<notin> set (columns a)) (columns b)
      in \<lparr>columns = cols,
          rows = map (realign (columns a) cols) (rows a) @ map (realign (columns b) cols) (rows b)\<rparr>)"

text \<open>
  What the drivers take from outside: the page fetcher, the extractors that parse
  numbers and dates, the table cleaning (whose effect depends on the column types that
  pandas infers), pandas' date parser, and the clock.
\<close>

record lib =
  extract_soup :: "string \<Rightarrow> error + node"
  extract_last_update :: "node \<Rightarrow> error + string"
  extract_volume_and_price_data :: "node \<Rightarrow> error + cell list list"
  extract_baseload_peakload :: "node \<Rightarrow> error + cell \<times> cell"
  clean_df :: "frame \<Rightarrow> error + frame"
  to_date :: "cell \<Rightarrow> cell option"
  utc_now :: "string"

text \<open>A step of a driver ends with an exception that nothing caught, or goes on.\<close>

definition and_then :: "error option \<times> 's \<Rightarrow> ('s \<Rightarrow> error option \<times> 's) \<Rightarrow> error option \<times> 's" where
  "and_then r f = (case r of (Some e, s) \<Rightarrow> (Some e, s) | (None, s) \<Rightarrow> f s)"

section \<open>Combination driver of power_data_architecture.py\<close>

text \<open>
  The parameters of \<open>download_data\<close> apart from the days and the market areas.
\<close>

record settings =
  kind :: string
  modality :: string
  sub_modality :: string
  tracking_file_filepath :: string
  archive_hourly_data_filepath :: string
  archive_base_peak_data_filepath :: string

text \<open>The check of the parameters before the loops.\<close>

definition check_names :: "settings \<Rightarrow> error option" where
  "check_names cfg =
     (let strings_to_check = [kind cfg, tracking_file_filepath cfg,
                              archive_hourly_data_filepath cfg, archive_base_peak_data_filepath cfg];
          total_check = length strings_to_check;
          check_dayahead = length (filter (contains ''head'') strings_to_check);
          check_intraday = length (filter (contains ''traday'') strings_to_check)
      in if check_dayahead > check_intraday \<and> check_dayahead \<noteq> total_check then Some ValueError
         else if check_intraday > check_dayahead \<and> check_intraday \<noteq> total_check then Some ValueError
         else if check_intraday = check_dayahead then Some ValueError
         else if \<not> (total_check = check_dayahead \<or> total_check = check_intraday) then Some AssertionError
         else None)"

text \<open>
  The variables of \<open>download_data\<close> that one combination may leave to the next, or never
  have bound: \<open>None\<close> is a name without a value, whose use raises UnboundLocalError.
\<close>

record locals =
  v_soup :: "node option"
  v_last_update :: "string option"
  v_hours :: "string list option"
  v_hourly_data :: "cell list list option"
  v_hourly_data_df :: "frame option"
  v_base_peak :: "(cell \<times> cell) option"
  v_base_peak_data_df :: "frame option"

definition no_locals :: locals where
  "no_locals = \<lparr>v_soup = None, v_last_update = None, v_hours = None, v_hourly_data = None,
                 v_hourly_data_df = None, v_base_peak = None, v_base_peak_data_df = None\<rparr>"

text \<open>One combination: its two dates, its market area and its auction.\<close>

record combination =
  trading_date :: "nat \<times> nat \<times> nat"
  delivery_date :: "nat \<times> nat \<times> nat"
  market_area :: string
  auction_name :: string

text \<open>The state while one combination is worked on.\<close>

record progress =
  num_hours_records :: outcome
  base_peak_sucess :: outcome
  vars :: locals
  archive_hourly_data_df :: frame
  archive_basepeak_data_df :: frame
  wld :: world

text \<open>
  Reading an archive at the head of the loop body: the empty table when the file is not
  there, else the file (taken to be readable) with its two date columns turned into
  dates.
\<close>

definition load_archive :: "lib \<Rightarrow> world \<Rightarrow> string \<Rightarrow> error + frame" where
  "load_archive l w path =
     (case tables w path of
        None \<Rightarrow> Inr empty_frame
      | Some df \<Rightarrow>
         (case to_datetime_date (to_date l) df ''TradingDate'' of
            Inl e \<Rightarrow> Inl e
          | Inr df \<Rightarrow> to_datetime_date (to_date l) df ''DeliveryDate''))"

text \<open>The cleaning of market area and auction name for the query.\<close>

definition clean_market_area :: "string \<Rightarrow> string \<Rightarrow> string" where
  "clean_market_area type_name area =
     (if contains ''head'' type_name \<and> contains ''GB'' area then ''GB'' else area)"

definition clean_auction_name :: "string \<Rightarrow> string \<Rightarrow> error + string" where
  "clean_auction_name type_name auction =
     (if contains ''head'' type_name then
        (if auction = ''SDAC'' then Inr ''MRC''
         else if auction = ''GB DAA 1 (60')'' then Inr ''GB''
         else if auction = ''GB DAA 2 (30')'' then Inr ''30-call-GB''
         else Inr auction)
      else if contains ''traday'' type_name then
        (if auction = ''SIDC IDA1'' then Inr ''IDA1''
         else if auction = ''SIDC IDA2'' then Inr ''IDA2''
         else if auction = ''SIDC IDA3'' then Inr ''IDA3''
         else if contains ''CH'' auction then Inr auction
         else if contains ''GB'' auction then Inr auction
         else Inr '' '')
      else Inl UnboundLocalError)"

definition match_columns :: "string list" where
  "match_columns = [''MarketArea'', ''TradingDate'', ''DeliveryDate'', ''TradingModality'',
                    ''MarketSegment'', ''AuctionName'']"

definition combination_to_check :: "settings \<Rightarrow> combination \<Rightarrow> cell list" where
  "combination_to_check cfg c =
     [Str (clean_market_area (kind cfg) (market_area c)), date_cell (trading_date c),
      date_cell (delivery_date c), Str (modality cfg), Str (sub_modality cfg), Str (auction_name c)]"

definition url_table :: "settings \<Rightarrow> combination \<Rightarrow> string \<Rightarrow> string" where
  "url_table cfg c auction_name_clean =
     ''https://www.epexspot.com/en/market-results?market_area='' @ clean_market_area (kind cfg) (market_area c)
     @ ''&auction='' @ auction_name_clean
     @ ''&trading_date='' @ date_str (trading_date c)
     @ ''&delivery_date='' @ date_str (delivery_date c)
     @ ''&underlying_year=&modality=Auction&sub_modality='' @ sub_modality cfg
     @ ''&technology=&data_mode=table&period=&production_period=''"

text \<open>
  Lines 103 to 157: both archives are read, then the two existence checks; an archive
  file that is not there does not contain the combination.
\<close>

definition archive_checks ::
  "lib \<Rightarrow> settings \<Rightarrow> combination \<Rightarrow> world \<Rightarrow> error + (frame \<times> frame \<times> bool \<times> bool)" where
  "archive_checks l cfg c w =
     (case load_archive l w (archive_hourly_data_filepath cfg) of
        Inl e \<Rightarrow> Inl e
      | Inr hourly_df \<Rightarrow>
     (case load_archive l w (archive_base_peak_data_filepath cfg) of
        Inl e \<Rightarrow> Inl e
      | Inr basepeak_df \<Rightarrow>
     (case (if tables w (archive_hourly_data_filepath cfg) \<noteq> None
            then check_archive hourly_df (combination_to_check cfg c) match_columns
            else Inr False) of
        Inl e \<Rightarrow> Inl e
      | Inr archive_check_hours \<Rightarrow>
     (case (if tables w (archive_base_peak_data_filepath cfg) \<noteq> None
            then check_archive basepeak_df (combination_to_check cfg c) match_columns
            else Inr False) of
        Inl e \<Rightarrow> Inl e
      | Inr archive_check_base_peak \<Rightarrow>
          Inr (hourly_df, basepeak_df, archive_check_hours, archive_check_base_peak)))))"

definition mark_both :: "progress \<Rightarrow> progress" where
  "mark_both s = s\<lparr>num_hours_records := Failed, base_peak_sucess := Failed\<rparr>"

definition mark_hours :: "progress \<Rightarrow> progress" where
  "mark_hours s = s\<lparr>num_hours_records := Failed\<rparr>"

definition mark_base_peak :: "progress \<Rightarrow> progress" where
  "mark_base_peak s = s\<lparr>base_peak_sucess := Failed\<rparr>"

text \<open>
  Lines 163 to 195: the request and the time of the last update.  A failed request leaves
  \<open>soup\<close> as it was; the length of \<open>last_update\<close> is taken outside any \<open>try\<close>.
\<close>

definition fetch_stage :: "lib \<Rightarrow> settings \<Rightarrow> combination \<Rightarrow> progress \<Rightarrow> error option \<times> progress" where
  "fetch_stage l cfg c s =
     (case clean_auction_name (kind cfg) (auction_name c) of
        Inl e \<Rightarrow> (Some e, s)
      | Inr auction_name_clean \<Rightarrow>
         (let url = url_table cfg c auction_name_clean;
              s = s\<lparr>wld := emit (Request url) (wld s)\<rparr>;
              s = (case extract_soup l url of
                     Inl e \<Rightarrow> mark_both s
                   | Inr page \<Rightarrow> s\<lparr>vars := (vars s)\<lparr>v_soup := Some page\<rparr>\<rparr>);
              s = (case v_soup (vars s) of
                     None \<Rightarrow> mark_both s
                   | Some page \<Rightarrow>
                      (case extract_last_update l page of
                         Inl e \<Rightarrow> mark_both s
                       | Inr t \<Rightarrow> s\<lparr>vars := (vars s)\<lparr>v_last_update := Some t\<rparr>\<rparr>))
          in case v_last_update (vars s) of
               None \<Rightarrow> (Some UnboundLocalError, s)
             | Some last_update \<Rightarrow>
                 if py_len last_update = 0 then (None, mark_both s)
                 else if py_len last_update < 10 then (None, mark_both s)
                 else (None, s)))"

text \<open>The metadata in front of every assembled row.\<close>

definition metadata :: "settings \<Rightarrow> combination \<Rightarrow> string \<Rightarrow> cell list" where
  "metadata cfg c last_update =
     [Str (clean_market_area (kind cfg) (market_area c)), date_cell (trading_date c),
      date_cell (delivery_date c), Str (modality cfg), Str (sub_modality cfg),
      Str (auction_name c), Str last_update]"

definition columns_hourly :: "string list" where
  "columns_hourly =
     [''MarketArea'', ''TradingDate'', ''DeliveryDate'', ''TradingModality'', ''MarketSegment'',
      ''AuctionName'', ''LastUpdate'', ''Hours'', ''BuyVolume(MWh)'', ''SellVolume(MWh)'',
      ''Volume(MWh)'', ''Price('' @ [CHR 0xE2, CHR 0x82, CHR 0xAC] @ ''/MWh)'']"

definition columns_base_peak :: "string list" where
  "columns_base_peak =
     [''MarketArea'', ''TradingDate'', ''DeliveryDate'', ''TradingModality'', ''MarketSegment'',
      ''AuctionName'', ''LastUpdate'',
      ''Baseload('' @ [CHR 0xE2, CHR 0x82, CHR 0xAC] @ ''/MWh)'',
      ''Peakload('' @ [CHR 0xE2, CHR 0x82, CHR 0xAC] @ ''/MWh)'']"

text \<open>Lines 199 to 212: the hour labels and the checks on them.\<close>

definition hours_try :: "progress \<Rightarrow> progress" where
  "hours_try s =
     (case v_soup (vars s) of
        None \<Rightarrow> mark_hours s
      | Some page \<Rightarrow>
         (case extract_hours page of
            Inl e \<Rightarrow> mark_hours s
          | Inr hs \<Rightarrow> s\<lparr>vars := (vars s)\<lparr>v_hours := Some hs\<rparr>\<rparr>))"

definition hours_checks :: "progress \<Rightarrow> error option \<times> progress" where
  "hours_checks s =
     (case v_hours (vars s) of
        None \<Rightarrow> (Some UnboundLocalError, s)
      | Some hs \<Rightarrow>
          if length hs = 0 \<and> num_hours_records s \<noteq> Failed then (None, mark_hours s)
          else
            (case hs of
               [] \<Rightarrow> (Some IndexError, s)
             | first_hour # _ \<Rightarrow>
                 if py_len first_hour < 2 \<and> num_hours_records s \<noteq> Failed then (None, mark_hours s)
                 else (None, s)))"

text \<open>Lines 214 to 235: the numeric rows and the checks on them.\<close>

definition hourly_data_try :: "lib \<Rightarrow> progress \<Rightarrow> progress" where
  "hourly_data_try l s =
     (case v_soup (vars s) of
        None \<Rightarrow> mark_hours s
      | Some page \<Rightarrow>
         (case extract_volume_and_price_data l page of
            Inl e \<Rightarrow> mark_hours s
          | Inr d \<Rightarrow> s\<lparr>vars := (vars s)\<lparr>v_hourly_data := Some d\<rparr>\<rparr>))"

definition hourly_data_checks :: "progress \<Rightarrow> error option \<times> progress" where
  "hourly_data_checks s =
     (case v_hourly_data (vars s) of
        None \<Rightarrow> (Some UnboundLocalError, s)
      | Some d \<Rightarrow>
          if length d = 0 \<and> num_hours_records s \<noteq> Failed then (None, mark_hours s)
          else
            (case d of
               [] \<Rightarrow> (Some IndexError, s)
             | first_row # _ \<Rightarrow>
                 if length first_row = 0 \<and> num_hours_records s \<noteq> Failed then (None, mark_hours s)
                 else if length (last d) = 0 \<and> num_hours_records s \<noteq> Failed then (None, mark_hours s)
                 else if (length first_row \<noteq> 4 \<and> num_hours_records s \<noteq> Failed)
                       \<or> (length (last d) \<noteq> 4 \<and> num_hours_records s \<noteq> Failed) then (None, mark_hours s)
                 else (None, s)))"

text \<open>
  Lines 237 to 279: the hourly table is assembled, checked and appended to the hourly
  archive, which is written back as a whole.  The table is bound on line 259, before
  the cleaning of line 261 can raise.
\<close>

definition hourly_frame_try :: "lib \<Rightarrow> settings \<Rightarrow> combination \<Rightarrow> progress \<Rightarrow> progress" where
  "hourly_frame_try l cfg c s =
     (case (v_last_update (vars s), v_hours (vars s), v_hourly_data (vars s)) of
        (Some last_update, Some hs, Some d) \<Rightarrow>
          (case assemble_rows (metadata cfg c last_update) hs 0 d of
             Inl e \<Rightarrow> mark_hours s
           | Inr hourly_data_list \<Rightarrow>
              (case data_frame hourly_data_list columns_hourly of
                 Inl e \<Rightarrow> mark_hours s
               | Inr df \<Rightarrow>
                  (let s = s\<lparr>vars := (vars s)\<lparr>v_hourly_data_df := Some df\<rparr>\<rparr> in
                   case clean_df l df of
                     Inl e \<Rightarrow> mark_hours s
                   | Inr df \<Rightarrow> s\<lparr>vars := (vars s)\<lparr>v_hourly_data_df := Some df\<rparr>\<rparr>)))
      | _ \<Rightarrow> mark_hours s)"

definition hourly_append :: "settings \<Rightarrow> progress \<Rightarrow> error option \<times> progress" where
  "hourly_append cfg s =
     (case v_hourly_data_df (vars s) of
        None \<Rightarrow> (Some UnboundLocalError, s)
      | Some hourly_data_df \<Rightarrow>
         (let s = (if (length (rows hourly_data_df) = 0 \<and> num_hours_records s \<noteq> Failed)
                      \<or> (is_empty hourly_data_df \<and> num_hours_records s \<noteq> Failed)
                   then mark_hours s else s)
          in if plausibility_checks hourly_data_df \<and> num_hours_records s \<noteq> Failed then
               (let archive = concat_frames (archive_hourly_data_df s) hourly_data_df
                in (None, s\<lparr>archive_hourly_data_df := archive,
                             wld := (wld s)\<lparr>tables := (tables (wld s))(archive_hourly_data_filepath cfg \<mapsto> archive)\<rparr>,
                             num_hours_records := Records (length (rows hourly_data_df))\<rparr>))
             else (None, mark_hours s)))"

definition hours_stage ::
  "lib \<Rightarrow> settings \<Rightarrow> combination \<Rightarrow> bool \<Rightarrow> progress \<Rightarrow> error option \<times> progress" where
  "hours_stage l cfg c archive_check_hours s =
     (if archive_check_hours = False \<and> num_hours_records s \<noteq> Failed then
        and_then (and_then (hours_checks (hours_try s))
                    (\<lambda>s. hourly_data_checks (hourly_data_try l s)))
          (\<lambda>s. if num_hours_records s \<noteq> Failed
                then hourly_append cfg (hourly_frame_try l cfg c s)
                else (None, s))
      else (None, s))"

text \<open>Lines 281 to 323: the same for the base and peak values.\<close>

definition base_peak_try :: "lib \<Rightarrow> progress \<Rightarrow> progress" where
  "base_peak_try l s =
     (case v_soup (vars s) of
        None \<Rightarrow> mark_base_peak s
      | Some page \<Rightarrow>
         (case extract_baseload_peakload l page of
            Inl e \<Rightarrow> mark_base_peak s
          | Inr bp \<Rightarrow> s\<lparr>vars := (vars s)\<lparr>v_base_peak := Some bp\<rparr>\<rparr>))"

definition base_peak_checks :: "progress \<Rightarrow> error option \<times> progress" where
  "base_peak_checks s =
     (case v_base_peak (vars s) of
        None \<Rightarrow> (Some UnboundLocalError, s)
      | Some (baseload, peakload) \<Rightarrow>
          if (baseload = NA \<and> base_peak_sucess s \<noteq> Failed)
             \<or> (peakload = NA \<and> base_peak_sucess s \<noteq> Failed)
          then (None, mark_base_peak s)
          else (None, s))"

definition base_peak_frame_try :: "lib \<Rightarrow> settings \<Rightarrow> combination \<Rightarrow> progress \<Rightarrow> progress" where
  "base_peak_frame_try l cfg c s =
     (case (v_last_update (vars s), v_base_peak (vars s)) of
        (Some last_update, Some (baseload, peakload)) \<Rightarrow>
          (case data_frame [metadata cfg c last_update @ [baseload, peakload]] columns_base_peak of
             Inl e \<Rightarrow> mark_base_peak s
           | Inr df \<Rightarrow>
              (let s = s\<lparr>vars := (vars s)\<lparr>v_base_peak_data_df := Some df\<rparr>\<rparr> in
               case clean_df l df of
                 Inl e \<Rightarrow> mark_base_peak s
               | Inr df \<Rightarrow> s\<lparr>vars := (vars s)\<lparr>v_base_peak_data_df := Some df\<rparr>\<rparr>))
      | _ \<Rightarrow> mark_base_peak s)"

definition base_peak_append :: "settings \<Rightarrow> progress \<Rightarrow> error option \<times> progress" where
  "base_peak_append cfg s =
     (case v_base_peak_data_df (vars s) of
        None \<Rightarrow> (Some UnboundLocalError, s)
      | Some base_peak_data_df \<Rightarrow>
         (let s = (if (length (rows base_peak_data_df) = 0 \<and> base_peak_sucess s \<noteq> Failed)
                      \<or> (is_empty base_peak_data_df \<and> base_peak_sucess s \<noteq> Failed)
                   then mark_base_peak s else s)
          in if plausibility_checks base_peak_data_df \<and> base_peak_sucess s \<noteq> Failed then
               (let archive = concat_frames (archive_basepeak_data_df s) base_peak_data_df
                in (None, s\<lparr>archive_basepeak_data_df := archive,
                             wld := (wld s)\<lparr>tables := (tables (wld s))(archive_base_peak_data_filepath cfg \<mapsto> archive)\<rparr>,
                             base_peak_sucess := Succeeded\<rparr>))
             else (None, mark_base_peak s)))"

definition base_peak_stage ::
  "lib \<Rightarrow> settings \<Rightarrow> combination \<Rightarrow> bool \<Rightarrow> progress \<Rightarrow> error option \<times> progress" where
  "base_peak_stage l cfg c archive_check_base_peak s =
     (if archive_check_base_peak = False \<and> base_peak_sucess s \<noteq> Failed then
        and_then (base_peak_checks (base_peak_try l s))
          (\<lambda>s. if base_peak_sucess s \<noteq> Failed
                then base_peak_append cfg (base_peak_frame_try l cfg c s)
                else (None, s))
      else (None, s))"

text \<open>Lines 325 to 378: one line for the tracking file.\<close>

definition track_stage ::
  "lib \<Rightarrow> settings \<Rightarrow> combination \<Rightarrow> bool \<Rightarrow> bool \<Rightarrow> progress \<Rightarrow> error option \<times> progress" where
  "track_stage l cfg c archive_check_hours archive_check_base_peak s =
     (if archive_check_hours = False \<or> archive_check_base_peak = False then
        (let tracking_data =
               [clean_market_area (kind cfg) (market_area c), date_str (trading_date c),
                date_str (delivery_date c), modality cfg, sub_modality cfg, auction_name c,
                utc_now l, str_outcome (num_hours_records s), str_outcome (base_peak_sucess s)]
         in case write_tracking_inline (wld s) (tracking_file_filepath cfg) tracking_data of
              (r, w) \<Rightarrow> (r, s\<lparr>wld := w\<rparr>))
      else (None, s))"

text \<open>Line 381: the pause, at the end of the loop body.\<close>

definition pace :: "progress \<Rightarrow> error option \<times> progress" where
  "pace s = (None, s\<lparr>wld := emit Sleep (wld s)\<rparr>)"

text \<open>
  The body of the loops of \<open>download_data\<close> for one combination, from the variables and
  the world that the combinations before have left.
\<close>

definition download_data_body ::
  "lib \<Rightarrow> settings \<Rightarrow> combination \<Rightarrow> bool \<Rightarrow> bool \<Rightarrow> progress \<Rightarrow> error option \<times> progress" where
  "download_data_body l cfg c archive_check_hours archive_check_base_peak s =
     and_then (and_then (and_then (and_then
       (if archive_check_hours = True \<and> archive_check_base_peak = True then (None, s)
        else fetch_stage l cfg c s)
       (hours_stage l cfg c archive_check_hours))
       (base_peak_stage l cfg c archive_check_base_peak))
       (track_stage l cfg c archive_check_hours archive_check_base_peak))
       pace"

definition download_data_step ::
  "lib \<Rightarrow> settings \<Rightarrow> combination \<Rightarrow> locals \<times> world \<Rightarrow> error option \<times> locals \<times> world" where
  "download_data_step l cfg c = (\<lambda>(vs, w).
     (case archive_checks l cfg c w of
        Inl e \<Rightarrow> (Some e, vs, w)
      | Inr (hourly_df, basepeak_df, archive_check_hours, archive_check_base_peak) \<Rightarrow>
          (case download_data_body l cfg c archive_check_hours archive_check_base_peak
                  \<lparr>num_hours_records = Unset, base_peak_sucess = Unset, vars = vs,
                   archive_hourly_data_df = hourly_df, archive_basepeak_data_df = basepeak_df,
                   wld = w\<rparr> of
             (r, s) \<Rightarrow> (r, vars s, wld s))))"

text \<open>
  The three loops: days in the given order, market areas in the order of the dictionary,
  auctions in the order of each list.  An exception that nothing catches ends the run.
\<close>

definition combinations_of ::
  "((nat \<times> nat \<times> nat) \<times> (nat \<times> nat \<times> nat)) list \<Rightarrow> (string \<times> string list) list \<Rightarrow> combination list" where
  "combinations_of days market_areas =
     concat (map (\<lambda>(t, d).
       concat (map (\<lambda>(area, auctions).
         map (\<lambda>a. \<lparr>trading_date = t, delivery_date = d, market_area = area, auction_name = a\<rparr>) auctions)
         market_areas)) days)"

fun download_data_loop ::
  "lib \<Rightarrow> settings \<Rightarrow> combination list \<Rightarrow> locals \<times> world \<Rightarrow> error option \<times> locals \<times> world" where
  "download_data_loop l cfg [] st = (None, st)"
| "download_data_loop l cfg (c # cs) st =
     (case download_data_step l cfg c st of
        (Some e, st) \<Rightarrow> (Some e, st)
      | (None, st) \<Rightarrow> download_data_loop l cfg cs st)"

definition download_data ::
  "lib \<Rightarrow> settings \<Rightarrow> ((nat \<times> nat \<times> nat) \<times> (nat \<times> nat \<times> nat)) list \<Rightarrow> (string \<times> string list) list
     \<Rightarrow> world \<Rightarrow> error option \<times> world" where
  "download_data l cfg relevant_days market_areas w =
     (case check_names cfg of
        Some e \<Rightarrow> (Some e, w)
      | None \<Rightarrow>
         (case download_data_loop l cfg (combinations_of relevant_days market_areas) (no_locals, w) of
            (r, vs, w) \<Rightarrow> (r, w)))"

section \<open>Combination driver of power_data_downloader_architecture.py\<close>

text \<open>
  The parameters of \<open>download\<close> apart from the days and the market areas.
\<close>

record download_settings =
  type_name :: string
  tracking_path :: string
  trading_modality :: string
  submodality :: string
  folder_path :: string

text \<open>
  One combination of \<open>download\<close>: the value is an auction name, or for continuous
  trading a product length in minutes.
\<close>

record target =
  t_trading_date :: "nat \<times> nat \<times> nat"
  t_delivery_date :: "nat \<times> nat \<times> nat"
  t_market_area :: string
  t_value :: cell

text \<open>\<open>str(value)\<close> for the two kinds of value that the callers pass.\<close>

fun str_value :: "cell \<Rightarrow> string" where
  "str_value (Str s) = s"
| "str_value (Num n) = (if n < 0 then ''-'' @ digits (nat (- n)) else digits (nat n))"
| "str_value (Day y m d) = date_str (y, m, d)"
| "str_value NA = ''None''"

text \<open>
  What \<open>download\<close> takes from outside: the two page fetchers, pandas' CSV reader and
  date parser, the clock, and \<open>process_page\<close>, which stands for lines 176 to 597: from
  a page that was fetched it extracts, validates and archives the tables of the
  combination and answers with the final value of \<open>success_indicator\<close>, or ends with an
  exception that nothing catches.  Those lines read no variable that an earlier
  combination has left, and they neither pause nor touch the tracking file.
\<close>

record site =
  fetch_page :: "string \<Rightarrow> error + node"
  fetch_page_waiting :: "string \<Rightarrow> error + node"
  process_page :: "download_settings \<Rightarrow> target \<Rightarrow> node \<Rightarrow> (string \<rightharpoonup> frame)
                     \<Rightarrow> (error + outcome) \<times> (string \<rightharpoonup> frame)"
  read_csv :: "string list list \<Rightarrow> frame option"
  parse_date :: "cell \<Rightarrow> cell option"
  access_time :: string

text \<open>
  \<open>import_csv\<close>: \<open>None\<close> when the file is missing or pandas cannot read it, else the
  table without the columns whose label contains "Unnamed".
\<close>

definition import_csv :: "site \<Rightarrow> world \<Rightarrow> string \<Rightarrow> frame option" where
  "import_csv st w file_path =
     (case csv_files w file_path of
        None \<Rightarrow> None
      | Some content \<Rightarrow>
         (case read_csv st content of
            None \<Rightarrow> None
          | Some df \<Rightarrow> Some (drop_columns df (filter (contains ''Unnamed'') (columns df)))))"

definition key_columns :: "string \<Rightarrow> string list" where
  "key_columns ty =
     (if ty = ''continuous''
      then [''MarketArea'', ''DeliveryDate'', ''TradingModality'', ''Product(min)'']
      else [''MarketArea'', ''TradingDate'', ''DeliveryDate'', ''TradingModality'',
            ''SubModality'', ''AuctionName''])"

text \<open>
  Lines 58 to 68: the skip set is loaded once, before the loops; \<open>None\<close> when there is
  no tracking file.
\<close>

definition load_existing :: "site \<Rightarrow> download_settings \<Rightarrow> world \<Rightarrow> error + frame option" where
  "load_existing st cfg w =
     (if csv_files w (tracking_path cfg) \<noteq> None then
        (case import_exsting_combinations_file (parse_date st)
                (import_csv st w (tracking_path cfg)) (key_columns (type_name cfg)) of
           Inl e \<Rightarrow> Inl e
         | Inr exsting_combinations \<Rightarrow>
             if type_name cfg = ''continuous'' then Inr (Some exsting_combinations)
             else
               (case to_datetime_date (parse_date st) exsting_combinations ''TradingDate'' of
                  Inl e \<Rightarrow> Inl e
                | Inr exsting_combinations \<Rightarrow> Inr (Some exsting_combinations)))
      else Inr None)"

text \<open>Lines 100 to 129: market area and value as the query wants them.\<close>

definition clean_area :: "string \<Rightarrow> string \<Rightarrow> string" where
  "clean_area ty area =
     (if (ty = ''dayahead'' \<or> ty = ''aggregated_curves_dayahead'') \<and> contains ''GB'' area
      then ''GB'' else area)"

definition clean_value :: "string \<Rightarrow> cell \<Rightarrow> error + string option" where
  "clean_value ty v =
     (if ty = ''dayahead'' \<or> ty = ''aggregated_curves_dayahead'' then
        (if v = Str ''SDAC'' then Inr (Some ''MRC'')
         else if v = Str ''GB DAA 1 (60')'' then Inr (Some ''GB'')
         else if v = Str ''GB DAA 2 (30')'' then Inr (Some ''30-call-GB'')
         else Inr (Some (str_value v)))
      else if ty = ''intraday'' \<or> ty = ''aggregated_curves_intraday'' then
        (if v = Str ''SIDC IDA1'' then Inr (Some ''IDA1'')
         else if v = Str ''SIDC IDA2'' then Inr (Some ''IDA2'')
         else if v = Str ''SIDC IDA3'' then Inr (Some ''IDA3'')
         else
           (case v of
              Str s \<Rightarrow>
                if contains ''CH'' s then Inr (Some s)
                else if contains ''GB'' s then Inr (Some s)
                else Inr (Some '' '')
            | _ \<Rightarrow> Inl TypeError))
      else Inr None)"

definition key_of :: "download_settings \<Rightarrow> target \<Rightarrow> cell list" where
  "key_of cfg t =
     (if type_name cfg = ''continuous''
      then [Str (clean_area (type_name cfg) (t_market_area t)), date_cell (t_delivery_date t),
            Str (trading_modality cfg), t_value t]
      else [Str (clean_area (type_name cfg) (t_market_area t)), date_cell (t_trading_date t),
            date_cell (t_delivery_date t), Str (trading_modality cfg), Str (submodality cfg),
            t_value t])"

text \<open>Lines 137 to 140: the skip decision.\<close>

definition skip_check :: "frame option \<Rightarrow> cell list \<Rightarrow> error + bool" where
  "skip_check exsting_combinations combination =
     (case exsting_combinations of
        Some df \<Rightarrow> check_existing_combinations df combination
      | None \<Rightarrow> Inr False)"

text \<open>
  Lines 149 to 154: the query.  For a type that none of the three branches knows, \<open>url\<close>
  stays without a value (\<open>None\<close>), and nothing is raised here.  A branch that reads
  \<open>value_clean\<close> raises when the cleaning has given it no value.
\<close>

definition url_of :: "download_settings \<Rightarrow> target \<Rightarrow> string option \<Rightarrow> error + string option" where
  "url_of cfg t value_clean =
     (let ty = type_name cfg; area = clean_area ty (t_market_area t) in
      if ty = ''dayahead'' \<or> ty = ''intraday'' then
        (case value_clean of
           None \<Rightarrow> Inl UnboundLocalError
         | Some vc \<Rightarrow>
             Inr (Some (''https://www.epexspot.com/en/market-results?market_area='' @ area
                  @ ''&auction='' @ vc
                  @ ''&trading_date='' @ date_str (t_trading_date t)
                  @ ''&delivery_date='' @ date_str (t_delivery_date t)
                  @ ''&underlying_year=&modality=Auction&sub_modality='' @ submodality cfg
                  @ ''&technology=&data_mode=table&period=&production_period='')))
      else if ty = ''continuous'' then
        Inr (Some (''https://www.epexspot.com/en/market-results?market_area='' @ area
             @ ''&auction=&trading_date=&delivery_date='' @ date_str (t_delivery_date t)
             @ ''&underlying_year=&modality=Continuous&sub_modality=&technology=&data_mode=table&period=&production_period=&product=''
             @ str_value (t_value t)))
      else if contains ''aggregated_curves'' ty then
        (case value_clean of
           None \<Rightarrow> Inl UnboundLocalError
         | Some vc \<Rightarrow>
             Inr (Some (''https://www.epexspot.com/en/market-results?market_area='' @ area
                  @ ''&auction='' @ vc
                  @ ''&trading_date='' @ date_str (t_trading_date t)
                  @ ''&delivery_date='' @ date_str (t_delivery_date t)
                  @ ''&underlying_year=&modality=Auction&sub_modality='' @ submodality cfg
                  @ ''&technology=&data_mode=aggregated&period=&production_period='')))
      else Inr None)"

text \<open>Lines 602 to 610: the ledger entry and the header for a new ledger.\<close>

definition tracking_row :: "site \<Rightarrow> download_settings \<Rightarrow> target \<Rightarrow> outcome \<Rightarrow> error + string list \<times> string list" where
  "tracking_row st cfg t success_indicator =
     (let ty = type_name cfg; area = clean_area ty (t_market_area t) in
      if contains ''dayahead'' ty \<or> contains ''intraday'' ty then
        Inr ([area, date_str (t_trading_date t), date_str (t_delivery_date t), trading_modality cfg,
              submodality cfg, str_value (t_value t), access_time st, str_outcome success_indicator],
             [''MarketArea'', ''TradingDate'', ''DeliveryDate'', ''TradingModality'', ''SubModality'',
              ''AuctionName'', ''WebsiteAccessTimeUTC'', ''SuccessIndicator''])
      else if contains ''continuous'' ty then
        Inr ([area, date_str (t_delivery_date t), trading_modality cfg, str_value (t_value t),
              access_time st, str_outcome success_indicator],
             [''MarketArea'', ''DeliveryDate'', ''TradingModality'', ''Product(min)'',
              ''WebsiteAccessTimeUTC'', ''SuccessIndicator''])
      else if contains ''aggregated_curves'' ty then
        Inr ([area, date_str (t_trading_date t), date_str (t_delivery_date t), trading_modality cfg,
              submodality cfg, str_value (t_value t), access_time st, str_outcome success_indicator],
             [''MarketArea'', ''TradingDate'', ''DeliveryDate'', ''TradingModality'', ''SubModality'',
              ''AuctionName'', ''WebsiteAccessTimeUTC'', ''SuccessIndicator''])
      else Inl UnboundLocalError)"

text \<open>
  Lines 251 to 275, inside the processing of a day-ahead or intraday page: the rows of
  the hourly table are assembled while \<open>success_indicator\<close> is not "Error"; an
  exception in the loop is caught, sets \<open>hours_data_list\<close> to \<open>None\<close> and the
  indicator to "Error".  The result is the indicator and the list, if one was made.
\<close>

definition hours_data_list_try ::
  "outcome \<Rightarrow> cell list \<Rightarrow> string list \<Rightarrow> cell list list \<Rightarrow> outcome \<times> cell list list option" where
  "hours_data_list_try success_indicator meta hours dayahead_intraday_data =
     (if success_indicator \<noteq> Failed then
        (case assemble_rows meta hours 0 dayahead_intraday_data of
           Inl e \<Rightarrow> (Failed, None)
         | Inr hours_data_list \<Rightarrow> (success_indicator, Some hours_data_list))
      else (success_indicator, None))"

text \<open>
  Lines 159 to 173 and 176 to 597 for a type whose page is fetched: the request, then the
  processing of the page when the request has not failed.  The result is the final
  \<open>success_indicator\<close>.  A \<open>url\<close> without a value would be read here; the branches of
  the query and of the request are the same, so that does not happen.
\<close>

definition fetch_and_process ::
  "site \<Rightarrow> download_settings \<Rightarrow> target \<Rightarrow> (string \<Rightarrow> error + node) \<Rightarrow> string option \<Rightarrow> world
     \<Rightarrow> (error + outcome) \<times> world" where
  "fetch_and_process st cfg t fetch url w =
     (case url of
        None \<Rightarrow> (Inl UnboundLocalError, w)
      | Some u \<Rightarrow>
         (let w = emit (Request u) w in
          case fetch u of
            Inl e \<Rightarrow> (Inr Failed, w)
          | Inr soup \<Rightarrow>
             (case process_page st cfg t soup (tables w) of
                (r, tbs) \<Rightarrow> (r, w\<lparr>tables := tbs\<rparr>))))"

text \<open>
  Lines 145 to 597.  For a type that neither branch of the request knows, no page is
  requested and \<open>soup\<close> has no value; reading it for the last update raises inside the
  \<open>try\<close> of line 177, which sets the indicator to "Error", and nothing else is done.
\<close>

definition attempt ::
  "site \<Rightarrow> download_settings \<Rightarrow> target \<Rightarrow> string option \<Rightarrow> world \<Rightarrow> (error + outcome) \<times> world" where
  "attempt st cfg t url w =
     (let ty = type_name cfg in
      if ty = ''dayahead'' \<or> ty = ''intraday'' then
        fetch_and_process st cfg t (fetch_page st) url w
      else if contains ''aggregated_curves'' ty \<or> ty = ''continuous'' then
        fetch_and_process st cfg t (fetch_page_waiting st) url w
      else (Inr Failed, w))"

text \<open>
  The body of the loops of \<open>download\<close> for one combination: the count of errors and the
  world go in and come out.  The pause is the last statement of the branch that
  attempts the combination.
\<close>

definition download_step ::
  "site \<Rightarrow> download_settings \<Rightarrow> frame option \<Rightarrow> target \<Rightarrow> nat \<times> world \<Rightarrow> error option \<times> nat \<times> world" where
  "download_step st cfg exsting_combinations t = (\<lambda>(total_error_count, w).
     (case clean_value (type_name cfg) (t_value t) of
        Inl e \<Rightarrow> (Some e, total_error_count, w)
      | Inr value_clean \<Rightarrow>
     (case skip_check exsting_combinations (key_of cfg t) of
        Inl e \<Rightarrow> (Some e, total_error_count, w)
      | Inr archive_check \<Rightarrow>
          if archive_check = True then (None, total_error_count, w)
          else
            (case url_of cfg t value_clean of
               Inl e \<Rightarrow> (Some e, total_error_count, w)
             | Inr url \<Rightarrow>
            (case attempt st cfg t url w of
               (Inl e, w) \<Rightarrow> (Some e, total_error_count, w)
             | (Inr success_indicator, w) \<Rightarrow>
                (let total_error_count =
                       (if success_indicator = Failed then total_error_count + 1 else total_error_count)
                 in case tracking_row st cfg t success_indicator of
                      Inl e \<Rightarrow> (Some e, total_error_count, w)
                    | Inr (tracking_data, header_row) \<Rightarrow>
                       (case update_tracking_file w (tracking_path cfg) tracking_data header_row of
                          (Some e, w) \<Rightarrow> (Some e, total_error_count, w)
                        | (None, w) \<Rightarrow> (None, total_error_count, emit Sleep w))))))))"

text \<open>
  The loops: the days from the last of the list to the first, market areas in the order
  of the dictionary, values in the order of each list.
\<close>

definition targets_of ::
  "((nat \<times> nat \<times> nat) \<times> (nat \<times> nat \<times> nat)) list \<Rightarrow> (string \<times> cell list) list \<Rightarrow> target list" where
  "targets_of date_combinations market_areas =
     concat (map (\<lambda>(td, dd).
       concat (map (\<lambda>(area, vals).
         map (\<lambda>v. \<lparr>t_trading_date = td, t_delivery_date = dd, t_market_area = area, t_value = v\<rparr>) vals)
         market_areas)) (rev date_combinations))"

fun download_loop ::
  "site \<Rightarrow> download_settings \<Rightarrow> frame option \<Rightarrow> target list \<Rightarrow> nat \<times> world \<Rightarrow> error option \<times> nat \<times> world" where
  "download_loop st cfg ex [] s = (None, s)"
| "download_loop st cfg ex (t # ts) s =
     (case download_step st cfg ex t s of
        (Some e, s) \<Rightarrow> (Some e, s)
      | (None, s) \<Rightarrow> download_loop st cfg ex ts s)"

definition download ::
  "site \<Rightarrow> download_settings \<Rightarrow> ((nat \<times> nat \<times> nat) \<times> (nat \<times> nat \<times> nat)) list \<Rightarrow> (string \<times> cell list) list
     \<Rightarrow> world \<Rightarrow> error option \<times> nat \<times> world" where
  "download st cfg date_combinations market_areas w =
     (case load_existing st cfg w of
        Inl e \<Rightarrow> (Some e, 0, w)
      | Inr exsting_combinations \<Rightarrow>
          download_loop st cfg exsting_combinations (targets_of date_combinations market_areas) (0, w))"

section \<open>What a run has done\<close>

text \<open>The pages requested and the number of pauses, read off the log.\<close>

fun request_urls :: "event list \<Rightarrow> string list" where
  "request_urls [] = []"
| "request_urls (Request url # evs) = url # request_urls evs"
| "request_urls (ev # evs) = request_urls evs"

definition pauses :: "event list \<Rightarrow> nat" where
  "pauses evs = length (filter (\<lambda>ev. ev = Sleep) evs)"

section \<open>An example run of \<open>download_data\<close>\<close>

text \<open>
  Day-ahead settings, a page source that answers every request with the same fixed
  values, and one combination.
\<close>

definition settings_example :: settings where
  "settings_example =
     \<lparr>kind = ''Dayahead'', modality = ''Auction'', sub_modality = ''DayAhead'',
      tracking_file_filepath = ''epex_auction_dayahead_tracking.csv'',
      archive_hourly_data_filepath = ''epex_auction_dayahead_hourly_data_archive.xlsx'',
      archive_base_peak_data_filepath = ''epex_auction_dayahead_basepeak_data_archive.xlsx''\<rparr>"

definition lib_example :: lib where
  "lib_example =
     \<lparr>extract_soup = (\<lambda>url. Inr two_hours_page),
      extract_last_update = (\<lambda>soup. Inr ''13 January 2025 (10:33:43 CET/CEST)''),
      extract_volume_and_price_data =
        (\<lambda>soup. Inr [[Num 10, Num 20, Num 30, Num 40], [Num 11, Num 21, Num 31, Num 41]]),
      extract_baseload_peakload = (\<lambda>soup. Inr (Num 50, Num 60)),
      clean_df = Inr,
      to_date = Some,
      utc_now = ''2025-01-13T10:40:00+00:00''\<rparr>"

definition combination_example :: combination where
  "combination_example =
     \<lparr>trading_date = (2025, 1, 12), delivery_date = (2025, 1, 13),
      market_area = ''FR'', auction_name = ''SDAC''\<rparr>"

definition hourly_archive_example :: frame where
  "hourly_archive_example =
     \<lparr>columns = columns_hourly,
      rows = [[Str ''FR'', Day 2025 1 12, Day 2025 1 13, Str ''Auction'', Str ''DayAhead'', Str ''SDAC'',
               Str ''13 January 2025 (10:33:43 CET/CEST)'', Str ''00 - 01'',
               Num 10, Num 20, Num 30, Num 40]]\<rparr>"

definition base_peak_archive_example :: frame where
  "base_peak_archive_example =
     \<lparr>columns = columns_base_peak,
      rows = [[Str ''FR'', Day 2025 1 12, Day 2025 1 13, Str ''Auction'', Str ''DayAhead'', Str ''SDAC'',
               Str ''13 January 2025 (10:33:43 CET/CEST)'', Num 50, Num 60]]\<rparr>"

text \<open>A world with the hourly archive only, and one with both archives.\<close>

definition world_hourly_only :: world where
  "world_hourly_only =
     \<lparr>csv_files = Map.empty,
      tables = [''epex_auction_dayahead_hourly_data_archive.xlsx'' \<mapsto> hourly_archive_example],
      log = []\<rparr>"

definition world_both_archives :: world where
  "world_both_archives =
     \<lparr>csv_files = Map.empty,
      tables = [''epex_auction_dayahead_hourly_data_archive.xlsx'' \<mapsto> hourly_archive_example,
                ''epex_auction_dayahead_basepeak_data_archive.xlsx'' \<mapsto> base_peak_archive_example],
      log = []\<rparr>"

section \<open>The ledger as the driver reads it\<close>

text \<open>
  A row with the cell of one column parsed as a date, and the key under which
  \<open>download\<close> looks a row of the tracking table up: the cells of the row in the key
  columns, the trading date parsed where the key has one.
\<close>

definition with_date :: "(cell \<Rightarrow> cell option) \<Rightarrow> nat \<Rightarrow> cell list \<Rightarrow> cell list" where
  "with_date parse j r = (case parse (r ! j) of None \<Rightarrow> r | Some d \<Rightarrow> r[j := d])"

definition ledger_key :: "site \<Rightarrow> download_settings \<Rightarrow> string list \<Rightarrow> cell list \<Rightarrow> cell list" where
  "ledger_key st cfg cols r =
     (let k = project cols (key_columns (type_name cfg)) r in
      if type_name cfg = ''continuous'' then k
      else
        (case column_index \<lparr>columns = filter (\<lambda>c. c \<in> set (key_columns (type_name cfg))) cols, rows = []\<rparr>
                ''TradingDate'' of
           Inl e \<Rightarrow> k
         | Inr j \<Rightarrow> with_date (parse_date st) j k))"

section \<open>An example run of \<open>download\<close>\<close>

text \<open>
  A tracking file with one failed and one successful attempt, a reader that takes
  every field as text, a date parser that knows the two days in the file, and a page
  source without results.
\<close>

definition site_example :: site where
  "site_example =
     \<lparr>fetch_page = (\<lambda>url. Inr page_without_container),
      fetch_page_waiting = (\<lambda>url. Inr page_without_container),
      process_page = (\<lambda>cfg t soup tbs. (Inr Failed, tbs)),
      read_csv = (\<lambda>content. case content of
                     [] \<Rightarrow> None
                   | header # body \<Rightarrow> Some \<lparr>columns = header, rows = map (map Str) body\<rparr>),
      parse_date = (\<lambda>c. if c = Str ''2025-01-12'' then Some (Day 2025 1 12)
                         else if c = Str ''2025-01-13'' then Some (Day 2025 1 13)
                         else Some c),
      access_time = ''2025-01-14T08:00:00+00:00''\<rparr>"

definition download_settings_example :: download_settings where
  "download_settings_example =
     \<lparr>type_name = ''dayahead'', tracking_path = ''epex_dayahead_tracking.csv'',
      trading_modality = ''Auction'', submodality = ''DayAhead'', folder_path = ''epex_data''\<rparr>"

definition ledger_example :: "string list list" where
  "ledger_example =
     [[''MarketArea'', ''TradingDate'', ''DeliveryDate'', ''TradingModality'', ''SubModality'',
       ''AuctionName'', ''WebsiteAccessTimeUTC'', ''SuccessIndicator''],
      [''FR'', ''2025-01-12'', ''2025-01-13'', ''Auction'', ''DayAhead'', ''SDAC'',
       ''2025-01-13T10:40:00+00:00'', ''Error''],
      [''BE'', ''2025-01-12'', ''2025-01-13'', ''Auction'', ''DayAhead'', ''SDAC'',
       ''2025-01-13T10:39:00+00:00'', ''Success'']]"

definition world_with_ledger :: world where
  "world_with_ledger =
     \<lparr>csv_files = [''epex_dayahead_tracking.csv'' \<mapsto> ledger_example],
      tables = Map.empty,
      log = []\<rparr>"

definition ledger_table_example :: frame where
  "ledger_table_example = \<lparr>columns = hd ledger_example, rows = map (map Str) (tl ledger_example)\<rparr>"

definition skip_set_example :: frame where
  "skip_set_example =
     \<lparr>columns = [''MarketArea'', ''TradingDate'', ''DeliveryDate'', ''TradingModality'',
                 ''SubModality'', ''AuctionName''],
      rows = [[Str ''BE'', Day 2025 1 12, Day 2025 1 13, Str ''Auction'', Str ''DayAhead'', Str ''SDAC'']]\<rparr>"

definition target_failed_before :: target where
  "target_failed_before =
     \<lparr>t_trading_date = (2025, 1, 12), t_delivery_date = (2025, 1, 13),
      t_market_area = ''FR'', t_value = Str ''SDAC''\<rparr>"

definition target_archived :: target where
  "target_archived =
     \<lparr>t_trading_date = (2025, 1, 12), t_delivery_date = (2025, 1, 13),
      t_market_area = ''BE'', t_value = Str ''SDAC''\<rparr>"

definition ledger_dated_example :: frame where
  "ledger_dated_example =
     \<lparr>columns = hd ledger_example,
      rows = [[Str ''FR'', Str ''2025-01-12'', Day 2025 1 13, Str ''Auction'', Str ''DayAhead'',
               Str ''SDAC'', Str ''2025-01-13T10:40:00+00:00'', Str ''Error''],
              [Str ''BE'', Str ''2025-01-12'', Day 2025 1 13, Str ''Auction'', Str ''DayAhead'',
               Str ''SDAC'', Str ''2025-01-13T10:39:00+00:00'', Str ''Success'']]\<rparr>"

section \<open>Properties of the plausibility validator\<close>

lemma isna_all_length: "length (isna_all df) = length (columns df)"
  by (simp add: isna_all_def)

lemma all_nan_iff:
  "list_all (\<lambda>b. b) (isna_all df) \<longleftrightarrow> (\<forall>j < length (columns df). column_all_na df j)"
  by (auto simp: isna_all_def list_all_iff)

lemma number_all_nans_pos:
  "0 < length (map fst (filter (\<lambda>(col_name, v). v = True) (zip (columns df) (isna_all df))))
     \<longleftrightarrow> (\<exists>j < length (columns df). column_all_na df j)"
proof -
  have "0 < length (filter (\<lambda>(col_name, v). v = True) (zip (columns df) (isna_all df)))
      \<longleftrightarrow> (\<exists>p \<in> set (zip (columns df) (isna_all df)). snd p)"
    by (auto simp: filter_empty_conv split_beta)
  also have "\<dots> \<longleftrightarrow> (\<exists>b \<in> set (map snd (zip (columns df) (isna_all df))). b)"
    by (simp only: set_map bex_simps)
  also have "\<dots> \<longleftrightarrow> (\<exists>b \<in> set (isna_all df). b)"
    by (simp only: map_snd_zip isna_all_length)
  also have "\<dots> \<longleftrightarrow> (\<exists>j < length (columns df). column_all_na df j)"
    by (auto simp: isna_all_def)
  finally show ?thesis by simp
qed

lemma plausibility_checks_columns:
  "plausibility_checks df \<longleftrightarrow>
     (\<forall>j < length (columns df). \<not> column_all_na df j) \<and> columns df \<noteq> []"
  unfolding plausibility_checks_def Let_def all_nan_iff number_all_nans_pos
  by auto

lemma wf_frame_cell:
  "wf_frame df \<Longrightarrow> r \<in> set (rows df) \<Longrightarrow>
     (\<forall>c \<in> set r. isna c) \<longleftrightarrow> (\<forall>j < length (columns df). isna (r ! j))"
proof -
  assume "wf_frame df" and "r \<in> set (rows df)"
  then have "length r = length (columns df)"
    by (simp add: wf_frame_def list_all_iff)
  then show ?thesis
    by (simp add: all_set_conv_all_nth)
qed

text \<open>
  C5.  The plausibility check of a table answers False exactly when the table has no
  rows, or every cell is missing, or some column is missing in all rows.  The table with
  columns A, B and rows [1, None], [2, None] is rejected, the one with rows [1, 2],
  [3, 4] is accepted, and a table without rows is rejected.
\<close>

theorem plausibility_checks_false_iff:
  assumes "wf_frame df"
  shows "(plausibility_checks df = False \<longleftrightarrow>
             rows df = []
           \<or> (\<forall>r \<in> set (rows df). \<forall>c \<in> set r. isna c)
           \<or> (\<exists>j < length (columns df). \<forall>r \<in> set (rows df). isna (r ! j)))
       \<and> plausibility_checks \<lparr>columns = [''A'', ''B''], rows = [[Num 1, NA], [Num 2, NA]]\<rparr> = False
       \<and> plausibility_checks \<lparr>columns = [''A'', ''B''], rows = [[Num 1, Num 2], [Num 3, Num 4]]\<rparr> = True
       \<and> plausibility_checks \<lparr>columns = [''A'', ''B''], rows = []\<rparr> = False"
proof -
  have every: "(\<forall>r \<in> set (rows df). \<forall>c \<in> set r. isna c)
      \<longleftrightarrow> (\<forall>j < length (columns df). column_all_na df j)"
    using wf_frame_cell [OF assms] by (auto simp: column_all_na_def list_all_iff)
  have some: "(\<exists>j < length (columns df). \<forall>r \<in> set (rows df). isna (r ! j))
      \<longleftrightarrow> (\<exists>j < length (columns df). column_all_na df j)"
    by (simp add: column_all_na_def list_all_iff)
  have norows: "rows df = [] \<Longrightarrow> column_all_na df j" for j
    by (simp add: column_all_na_def)
  have general: "plausibility_checks df = False \<longleftrightarrow>
             rows df = []
           \<or> (\<forall>r \<in> set (rows df). \<forall>c \<in> set r. isna c)
           \<or> (\<exists>j < length (columns df). \<forall>r \<in> set (rows df). isna (r ! j))"
    unfolding every some plausibility_checks_columns
    using norows by auto
  have ex1: "plausibility_checks \<lparr>columns = [''A'', ''B''], rows = [[Num 1, NA], [Num 2, NA]]\<rparr> = False"
    by (simp add: plausibility_checks_def isna_all_def column_all_na_def isna_def upt_rec)
  have ex2: "plausibility_checks \<lparr>columns = [''A'', ''B''], rows = [[Num 1, Num 2], [Num 3, Num 4]]\<rparr> = True"
    by (simp add: plausibility_checks_def isna_all_def column_all_na_def isna_def upt_rec)
  have ex3: "plausibility_checks \<lparr>columns = [''A'', ''B''], rows = []\<rparr> = False"
    by (simp add: plausibility_checks_def isna_all_def column_all_na_def isna_def upt_rec)
  from general ex1 ex2 ex3 show ?thesis by blast
qed

theorem plausibility_checks_false_iff_witness:
  "wf_frame \<lparr>columns = [''A'', ''B''], rows = [[Num 1, Num 2], [NA, Num 4]]\<rparr>
   \<and> plausibility_checks \<lparr>columns = [''A'', ''B''], rows = [[Num 1, Num 2], [NA, Num 4]]\<rparr> = True"
proof -
  let ?df = "\<lparr>columns = [''A'', ''B''], rows = [[Num 1, Num 2], [NA, Num 4]]\<rparr>"
  have wf: "wf_frame ?df"
    by (simp add: wf_frame_def)
  have "\<not> (rows ?df = []
           \<or> (\<forall>r \<in> set (rows ?df). \<forall>c \<in> set r. isna c)
           \<or> (\<exists>j < length (columns ?df). \<forall>r \<in> set (rows ?df). isna (r ! j)))"
    by (auto simp: isna_def nth_Cons split: nat.splits)
  with plausibility_checks_false_iff [OF wf] have "plausibility_checks ?df \<noteq> False"
    by blast
  with wf show ?thesis by simp
qed

section \<open>Properties of the existence check\<close>

lemma drop_row_project:
  "drop_row cols (filter (\<lambda>c. c \<notin> set m) cols) r = project cols m r"
proof -
  have "filter (\<lambda>(c, v). c \<notin> set (filter (\<lambda>c. c \<notin> set m) cols)) (zip cols r)
      = filter (\<lambda>(c, v). c \<in> set m) (zip cols r)"
    by (rule filter_cong) (auto dest: set_zip_leftD)
  then show ?thesis
    by (simp add: drop_row_def project_def)
qed

lemma filter_filter_not:
  "filter (\<lambda>c. c \<notin> set (filter (\<lambda>c. c \<notin> set m) cols)) cols = filter (\<lambda>c. c \<in> set m) cols"
  by (rule filter_cong) auto

lemma length_project:
  "length r = length cols \<Longrightarrow>
     length (project cols m r) = length (filter (\<lambda>c. c \<in> set m) cols)"
  unfolding project_def
  by (induction r cols rule: list_induct2) auto

lemma project_all:
  "length r = length cols \<Longrightarrow> project cols cols r = r"
proof -
  assume len: "length r = length cols"
  have "filter (\<lambda>(c, v). c \<in> set cols) (zip cols r) = zip cols r"
    by (rule filter_True) (auto dest: set_zip_leftD)
  with len show ?thesis
    by (simp add: project_def)
qed

lemma set_keep_first: "set (keep_first xs) = set xs"
  by (simp add: keep_first_def)

lemma distinct_keep_first: "distinct (keep_first xs)"
  by (simp add: keep_first_def)

lemma set_rows_drop_duplicates: "set (rows (drop_duplicates df)) = set (rows df)"
  by (simp add: drop_duplicates_def set_keep_first)

lemma columns_drop_duplicates: "columns (drop_duplicates df) = columns df"
  by (simp add: drop_duplicates_def)

lemma all_zip_list_all2:
  "length r = length key \<Longrightarrow>
     list_all (\<lambda>b. b) (map (\<lambda>(a, b). cell_eq a b) (zip r key)) = list_all2 cell_eq r key"
  by (induction r key rule: list_induct2) auto

lemma eq_list_true_iff:
  assumes "\<forall>r \<in> set (rows df). length r = length (columns df)"
  shows "(case eq_list df key of Inl e \<Rightarrow> Inl e | Inr m \<Rightarrow> Inr (all_axis1_any m)) = Inr True
     \<longleftrightarrow> (\<exists>r \<in> set (rows df). list_all2 cell_eq r key)"
proof (cases "length (columns df) = length key")
  case True
  then have "\<And>r. r \<in> set (rows df) \<Longrightarrow> length r = length key"
    using assms by simp
  then show ?thesis
    using True by (auto simp: eq_list_def all_axis1_any_def list_ex_iff all_zip_list_all2)
next
  case False
  then have "\<And>r. r \<in> set (rows df) \<Longrightarrow> \<not> list_all2 cell_eq r key"
    using assms by (auto dest: list_all2_lengthD)
  then show ?thesis
    using False by (auto simp: eq_list_def)
qed

lemma check_existing_combinations_rows:
  assumes "wf_frame df"
  shows "check_existing_combinations df key = Inr True
     \<longleftrightarrow> (\<exists>r \<in> set (rows df). list_all2 cell_eq r key)"
  unfolding check_existing_combinations_def
  using assms by (intro eq_list_true_iff) (simp add: wf_frame_def list_all_iff)

lemma check_archive_spec:
  assumes "wf_frame df"
  shows "check_archive df key m = Inr True \<longleftrightarrow> exists_spec df key m"
proof -
  let ?p = "drop_duplicates (drop_columns df (filter (\<lambda>c. c \<notin> set m) (columns df)))"
  have rws: "set (rows ?p) = project (columns df) m ` set (rows df)"
    by (simp add: set_rows_drop_duplicates drop_columns_def drop_row_project)
  have cls: "columns ?p = filter (\<lambda>c. c \<in> set m) (columns df)"
    by (simp only: columns_drop_duplicates drop_columns_def filter_filter_not frame.simps)
  have "\<forall>r \<in> set (rows ?p). length r = length (columns ?p)"
    unfolding rws cls using assms
    by (auto simp: wf_frame_def list_all_iff length_project)
  then have "(case eq_list ?p key of Inl e \<Rightarrow> Inl e | Inr m \<Rightarrow> Inr (all_axis1_any m)) = Inr True
     \<longleftrightarrow> (\<exists>r \<in> set (rows ?p). list_all2 cell_eq r key)"
    by (rule eq_list_true_iff)
  then show ?thesis
    unfolding rws by (simp add: check_archive_def exists_spec_def list_ex_iff)
qed

lemma check_existing_combinations_spec:
  assumes "wf_frame df"
  shows "check_existing_combinations df key = Inr True \<longleftrightarrow> exists_spec df key (columns df)"
proof -
  have "map (project (columns df) (columns df)) (rows df) = rows df"
    using assms by (simp add: wf_frame_def list_all_iff project_all map_idI)
  then show ?thesis
    by (simp add: check_existing_combinations_rows [OF assms] exists_spec_def list_ex_iff)
qed

lemma wf_archive_example: "wf_frame archive_example"
  by (simp add: wf_frame_def archive_example_def)

text \<open>
  C2.  The existence check answers True exactly when, once the archive is projected onto
  the match columns and duplicate rows are removed, some row is equal to the key in
  every projected column; \<open>check_existing_combinations\<close> is the same check on a table
  that is already projected.  On the example archive projected on A, B the key
  ("DE", 2024-05-01) is found and the key ("BE", 2024-05-01) is not.
\<close>

theorem check_archive_exists:
  assumes "wf_frame archive_df"
  shows "(check_archive archive_df combination columns_to_check = Inr True
            \<longleftrightarrow> exists_spec archive_df combination columns_to_check)
       \<and> (check_existing_combinations archive_df combination = Inr True
            \<longleftrightarrow> exists_spec archive_df combination (columns archive_df))
       \<and> check_archive archive_example [Str ''DE'', Day 2024 5 1] [''A'', ''B''] = Inr True
       \<and> check_archive archive_example [Str ''BE'', Day 2024 5 1] [''A'', ''B''] = Inr False"
proof -
  have ex_true: "check_archive archive_example [Str ''DE'', Day 2024 5 1] [''A'', ''B''] = Inr True"
    by (simp add: archive_example_def check_archive_def drop_columns_def drop_row_def
        drop_duplicates_def is_empty_def keep_first_def eq_list_def all_axis1_any_def)
  have ex_false: "check_archive archive_example [Str ''BE'', Day 2024 5 1] [''A'', ''B''] = Inr False"
    by (simp add: archive_example_def check_archive_def drop_columns_def drop_row_def
        drop_duplicates_def is_empty_def keep_first_def eq_list_def all_axis1_any_def)
  from check_archive_spec [OF assms] check_existing_combinations_spec [OF assms] ex_true ex_false
  show ?thesis by blast
qed

theorem check_archive_exists_witness:
  "wf_frame archive_example
   \<and> exists_spec archive_example [Str ''FR'', Day 2024 5 1] [''B'', ''A'']
   \<and> check_archive archive_example [Str ''FR'', Day 2024 5 1] [''B'', ''A''] = Inr True"
proof -
  have sp: "exists_spec archive_example [Str ''FR'', Day 2024 5 1] [''B'', ''A'']"
    by (simp add: exists_spec_def archive_example_def project_def)
  from check_archive_exists [OF wf_archive_example, of "[Str ''FR'', Day 2024 5 1]" "[''B'', ''A'']"]
  have "check_archive archive_example [Str ''FR'', Day 2024 5 1] [''B'', ''A''] = Inr True
          \<longleftrightarrow> exists_spec archive_example [Str ''FR'', Day 2024 5 1] [''B'', ''A'']"
    by (rule conjunct1)
  with sp wf_archive_example show ?thesis by simp
qed

section \<open>Properties of the tracking ledger\<close>

lemma csv_files_write_csv: "csv_files (write_csv p content w) = (csv_files w)(p \<mapsto> content)"
  by (simp add: write_csv_def emit_def)

lemma csv_files_emit: "csv_files (emit ev w) = csv_files w"
  by (simp add: emit_def)

text \<open>
  C10.  When the entry row and the header row differ in length, \<open>update_tracking_file\<close>
  ends with an AssertionError and has opened no file for reading or writing: the world,
  its log included, is as before.  This holds also when the file exists, where the
  header row would not be written.
\<close>

theorem update_tracking_file_assertion:
  assumes "length tracking_data \<noteq> length header_row"
  shows "update_tracking_file w path tracking_data header_row = (Some AssertionError, w)"
  using assms by (simp add: update_tracking_file_def)

theorem update_tracking_file_assertion_witness:
  "length [''DE'', ''Error''] \<noteq> length [''MarketArea'']
   \<and> csv_files tracking_example ''tracking.csv'' \<noteq> None
   \<and> update_tracking_file tracking_example ''tracking.csv'' [''DE'', ''Error''] [''MarketArea'']
       = (Some AssertionError, tracking_example)"
proof -
  have len: "length [''DE'', ''Error''] \<noteq> length [''MarketArea'']"
    by simp
  have "csv_files tracking_example ''tracking.csv'' \<noteq> None"
    by (simp add: tracking_example_def)
  with len update_tracking_file_assertion [OF len, of tracking_example "''tracking.csv''"]
  show ?thesis by simp
qed

text \<open>
  C4 as stated fails: the header row given for a new file does have an effect when the
  file exists.  With an entry of two fields and a header row of one, the call ends with
  an AssertionError and the existing file keeps its old rows; with a header row of two
  fields the same entry is inserted.
\<close>

theorem update_tracking_file_counterexample:
  "csv_files tracking_example ''tracking.csv''
      = Some [[''MarketArea'', ''SuccessIndicator''], [''FR'', ''Success'']]
   \<and> fst (update_tracking_file tracking_example ''tracking.csv'' [''DE'', ''Error''] [''MarketArea''])
      = Some AssertionError
   \<and> csv_files (snd (update_tracking_file tracking_example ''tracking.csv'' [''DE'', ''Error''] [''MarketArea'']))
        ''tracking.csv''
      = Some [[''MarketArea'', ''SuccessIndicator''], [''FR'', ''Success'']]
   \<and> csv_files (snd (update_tracking_file tracking_example ''tracking.csv'' [''DE'', ''Error''] [''A'', ''B'']))
        ''tracking.csv''
      = Some [[''MarketArea'', ''SuccessIndicator''], [''DE'', ''Error''], [''FR'', ''Success'']]"
  by (simp add: update_tracking_file_def tracking_example_def write_csv_def emit_def)

text \<open>
  C4, amended.  For every call whose entry row and header row have the same length: if
  the tracking file exists and has at least its header line, the file afterwards has
  that first line unchanged, the entry as the first data row, and the former data rows
  after it in their order, whatever the header row argument is; if the file did not
  exist, it consists of the given header row and the entry.  The bookkeeping that
  \<open>download_data\<close> writes in line does the same with its own fixed header and no
  condition on lengths.
\<close>

theorem update_tracking_file_record:
  assumes "length tracking_data = length header_row"
  shows "(csv_files w p = Some (header # data_rows) \<longrightarrow>
            fst (update_tracking_file w p tracking_data header_row) = None
          \<and> csv_files (snd (update_tracking_file w p tracking_data header_row))
              = (csv_files w)(p \<mapsto> header # tracking_data # data_rows))
       \<and> (csv_files w p = None \<longrightarrow>
            fst (update_tracking_file w p tracking_data header_row) = None
          \<and> csv_files (snd (update_tracking_file w p tracking_data header_row))
              = (csv_files w)(p \<mapsto> [header_row, tracking_data]))
       \<and> (csv_files w p = Some (header # data_rows) \<longrightarrow>
            fst (write_tracking_inline w p tracking_data) = None
          \<and> csv_files (snd (write_tracking_inline w p tracking_data))
              = (csv_files w)(p \<mapsto> header # tracking_data # data_rows))
       \<and> (csv_files w p = None \<longrightarrow>
            fst (write_tracking_inline w p tracking_data) = None
          \<and> csv_files (snd (write_tracking_inline w p tracking_data))
              = (csv_files w)(p \<mapsto> [tracking_header_download_data, tracking_data]))"
  using assms
  by (simp add: update_tracking_file_def write_tracking_inline_def csv_files_write_csv csv_files_emit)

theorem update_tracking_file_record_witness:
  "length [''DE'', ''Error''] = length [''A'', ''B'']
   \<and> csv_files (snd (update_tracking_file tracking_example ''tracking.csv'' [''DE'', ''Error''] [''A'', ''B'']))
        ''tracking.csv''
      = Some [[''MarketArea'', ''SuccessIndicator''], [''DE'', ''Error''], [''FR'', ''Success'']]
   \<and> csv_files (snd (update_tracking_file tracking_example ''new.csv'' [''DE'', ''Error''] [''A'', ''B'']))
        ''new.csv''
      = Some [[''A'', ''B''], [''DE'', ''Error'']]"
proof -
  have len: "length [''DE'', ''Error''] = length [''A'', ''B'']"
    by simp
  have old: "csv_files tracking_example ''tracking.csv''
      = Some ([''MarketArea'', ''SuccessIndicator''] # [[''FR'', ''Success'']])"
    by (simp add: tracking_example_def)
  have new: "csv_files tracking_example ''new.csv'' = None"
    by (simp add: tracking_example_def)
  from update_tracking_file_record [OF len, of tracking_example "''tracking.csv''"
      "[''MarketArea'', ''SuccessIndicator'']" "[[''FR'', ''Success'']]"] old
  have a: "csv_files (snd (update_tracking_file tracking_example ''tracking.csv'' [''DE'', ''Error''] [''A'', ''B'']))
      = (csv_files tracking_example)(''tracking.csv'' \<mapsto>
           [''MarketArea'', ''SuccessIndicator''] # [''DE'', ''Error''] # [[''FR'', ''Success'']])"
    by blast
  from update_tracking_file_record [OF len, of tracking_example "''new.csv''"] new
  have b: "csv_files (snd (update_tracking_file tracking_example ''new.csv'' [''DE'', ''Error''] [''A'', ''B'']))
      = (csv_files tracking_example)(''new.csv'' \<mapsto> [[''A'', ''B''], [''DE'', ''Error'']])"
    by blast
  from len a b show ?thesis by simp
qed

section \<open>Properties of the row assembler\<close>

lemma assemble_rows_enough:
  "index + length data \<le> length hours \<Longrightarrow>
     assemble_rows meta hours index data
       = Inr (map (\<lambda>(hour, row). meta @ [Str hour] @ row) (zip (drop index hours) data))"
proof (induction data arbitrary: index)
  case Nil
  then show ?case by simp
next
  case (Cons row rest)
  then have lt: "index < length hours" by simp
  then have "drop index hours = hours ! index # drop (Suc index) hours"
    by (simp add: Cons_nth_drop_Suc)
  with Cons lt show ?case by simp
qed

lemma assemble_rows_short:
  "index \<le> length hours \<Longrightarrow> length hours < index + length data \<Longrightarrow>
     assemble_rows meta hours index data = Inl IndexError"
proof (induction data arbitrary: index)
  case Nil
  then show ?case by simp
next
  case (Cons row rest)
  show ?case
  proof (cases "index < length hours")
    case True
    with Cons.prems have "assemble_rows meta hours (Suc index) rest = Inl IndexError"
      by (intro Cons.IH) simp_all
    with True show ?thesis by simp
  next
    case False
    then show ?thesis by simp
  qed
qed

text \<open>
  C6 as stated fails in one direction: with two hour labels and three numeric rows the
  assembly does not produce two rows; it raises IndexError at the third row.
\<close>

theorem assemble_rows_counterexample:
  "assemble_rows [Str ''DE''] [''00 - 01'', ''01 - 02''] 0 [[Num 1], [Num 2], [Num 3]]
     = Inl IndexError"
  by simp

text \<open>
  C6, amended.  When there are at least as many hour labels as numeric rows, the
  assembly pairs them by position and produces one row for each numeric row, the
  surplus labels being dropped without an error (three labels and two numeric rows
  give exactly two rows).  When there are fewer hour labels than numeric rows,
  reading the missing label raises IndexError and no rows are produced; the driver
  catches the exception and marks the hourly outcome of the combination as Error,
  leaving no new hourly table.
\<close>

theorem assemble_rows_truncation:
  "(length data \<le> length hours \<longrightarrow>
      assemble_rows meta hours 0 data
        = Inr (map (\<lambda>(hour, row). meta @ [Str hour] @ row) (zip hours data)))
   \<and> (length hours < length data \<longrightarrow> assemble_rows meta hours 0 data = Inl IndexError)
   \<and> (\<exists>r1 r2. assemble_rows [Str ''DE''] [''00 - 01'', ''01 - 02'', ''02 - 03''] 0 [[Num 1], [Num 2]]
                 = Inr [r1, r2])
   \<and> (length hours < length data \<and> v_last_update (vars s) = Some last_update
        \<and> v_hours (vars s) = Some hours \<and> v_hourly_data (vars s) = Some data \<longrightarrow>
      num_hours_records (hourly_frame_try l cfg c s) = Failed
      \<and> v_hourly_data_df (vars (hourly_frame_try l cfg c s)) = v_hourly_data_df (vars s))
   \<and> (length hours < length data \<longrightarrow>
      hours_data_list_try success_indicator meta hours data = (Failed, None))"
proof -
  have a: "length data \<le> length hours \<Longrightarrow>
      assemble_rows meta hours 0 data
        = Inr (map (\<lambda>(hour, row). meta @ [Str hour] @ row) (zip hours data))"
    using assemble_rows_enough [of 0 data hours meta] by simp
  have b: "length hours < length data \<Longrightarrow> assemble_rows meta hours 0 data = Inl IndexError"
    using assemble_rows_short [of 0 hours data meta] by simp
  have c: "\<exists>r1 r2. assemble_rows [Str ''DE''] [''00 - 01'', ''01 - 02'', ''02 - 03''] 0 [[Num 1], [Num 2]]
                 = Inr [r1, r2]"
    by simp
  have d: "num_hours_records (hourly_frame_try l cfg c s) = Failed
      \<and> v_hourly_data_df (vars (hourly_frame_try l cfg c s)) = v_hourly_data_df (vars s)"
    if "length hours < length data" and "v_last_update (vars s) = Some last_update"
      and "v_hours (vars s) = Some hours" and "v_hourly_data (vars s) = Some data"
    using that assemble_rows_short [of 0 hours data "metadata cfg c last_update"]
    by (simp add: hourly_frame_try_def mark_hours_def)
  have e: "length hours < length data \<Longrightarrow>
      hours_data_list_try success_indicator meta hours data = (Failed, None)"
    using b by (simp add: hours_data_list_try_def)
  from a b c d e show ?thesis by blast
qed

theorem assemble_rows_truncation_witness:
  "length [[Num 1], [Num 2]] \<le> length [''00 - 01'', ''01 - 02'', ''02 - 03'']
   \<and> assemble_rows [Str ''DE''] [''00 - 01'', ''01 - 02'', ''02 - 03''] 0 [[Num 1], [Num 2]]
       = Inr [[Str ''DE'', Str ''00 - 01'', Num 1], [Str ''DE'', Str ''01 - 02'', Num 2]]
   \<and> length [''00 - 01''] < length [[Num 1], [Num 2]]
   \<and> assemble_rows [Str ''DE''] [''00 - 01''] 0 [[Num 1], [Num 2]] = Inl IndexError"
proof -
  have le: "length [[Num 1], [Num 2]] \<le> length [''00 - 01'', ''01 - 02'', ''02 - 03'']"
    by simp
  have lt: "length [''00 - 01''] < length [[Num 1], [Num 2]]"
    by simp
  from assemble_rows_truncation [of "[[Num 1], [Num 2]]" "[''00 - 01'', ''01 - 02'', ''02 - 03'']" "[Str ''DE'']"] le
  have a: "assemble_rows [Str ''DE''] [''00 - 01'', ''01 - 02'', ''02 - 03''] 0 [[Num 1], [Num 2]]
        = Inr (map (\<lambda>(hour, row). [Str ''DE''] @ [Str hour] @ row)
                 (zip [''00 - 01'', ''01 - 02'', ''02 - 03''] [[Num 1], [Num 2]]))"
    by blast
  from assemble_rows_truncation [of "[[Num 1], [Num 2]]" "[''00 - 01'']" "[Str ''DE'']"] lt
  have b: "assemble_rows [Str ''DE''] [''00 - 01''] 0 [[Num 1], [Num 2]] = Inl IndexError"
    by blast
  from le lt a b show ?thesis by simp
qed

section \<open>Properties of the document extractor\<close>

lemma find_all_Nil_iff:
  "find_all_ctx nd name c = [] \<longleftrightarrow> (\<forall>k \<in> set (descendants nd). \<not> matches name c k)"
  by (auto simp: find_all_ctx_def descendants_def filter_empty_conv)

lemma find_tag_None_iff:
  "find_tag nd name c = None \<longleftrightarrow> (\<forall>k \<in> set (descendants nd). \<not> matches name c k)"
proof -
  have "find_tag nd name c = None \<longleftrightarrow> find_all_ctx nd name c = []"
    by (cases "find_all_ctx nd name c") (simp_all add: find_tag_def find_all_def)
  then show ?thesis
    by (simp only: find_all_Nil_iff)
qed

text \<open>
  C7 as stated fails for the continuous variant: on a page without the hour list
  container it does not fail, it returns the empty sequence.
\<close>

theorem extract_hours_continous_counterexample:
  "find_tag page_without_container ''div'' (Some ''fixed-column js-table-times'') = None
   \<and> extract_hours_continous page_without_container = Inr []"
  by (simp add: page_without_container_def extract_hours_continous_def find_tag_def find_all_def
      find_all_ctx_def)

text \<open>
  C7, amended.  On a document without the hour list container the non-continuous
  extraction raises, and the continuous extraction returns the empty sequence without an
  error.  When the container exists but holds no hour block, the continuous extraction
  returns the empty sequence as well; when the container exists but holds no list
  element, the non-continuous extraction raises.
\<close>

theorem extract_hours_container:
  "((\<forall>k \<in> set (descendants soup). \<not> matches ''div'' (Some ''fixed-column js-table-times'') k) \<longrightarrow>
       extract_hours soup = Inl AttributeError \<and> extract_hours_continous soup = Inr [])
   \<and> (find_tag soup ''div'' (Some ''fixed-column js-table-times'') = Some hours_div
        \<and> (\<forall>k \<in> set (descendants hours_div). \<not> matches ''li'' (Some ''child'') k) \<longrightarrow>
       extract_hours_continous soup = Inr [])
   \<and> (find_tag soup ''div'' (Some ''fixed-column js-table-times'') = Some hours_div
        \<and> (\<forall>k \<in> set (descendants hours_div). \<not> matches ''ul'' None k) \<longrightarrow>
       extract_hours soup = Inl AttributeError)"
proof -
  have a: "find_tag soup ''div'' (Some ''fixed-column js-table-times'') = None \<Longrightarrow>
       extract_hours soup = Inl AttributeError \<and> extract_hours_continous soup = Inr []"
    by (simp add: extract_hours_def extract_hours_continous_def)
  have b: "find_tag soup ''div'' (Some ''fixed-column js-table-times'') = Some hours_div \<Longrightarrow>
       find_all_ctx hours_div ''li'' (Some ''child'') = [] \<Longrightarrow> extract_hours_continous soup = Inr []"
    by (simp add: extract_hours_continous_def)
  have c: "find_tag soup ''div'' (Some ''fixed-column js-table-times'') = Some hours_div \<Longrightarrow>
       find_tag hours_div ''ul'' None = None \<Longrightarrow> extract_hours soup = Inl AttributeError"
    by (simp add: extract_hours_def)
  from a b c show ?thesis
    unfolding find_tag_None_iff find_all_Nil_iff by blast
qed

theorem extract_hours_container_witness:
  "find_tag page_without_container ''div'' (Some ''fixed-column js-table-times'') = None
   \<and> extract_hours page_without_container = Inl AttributeError
   \<and> extract_hours_continous page_without_container = Inr []
   \<and> find_tag page_with_empty_container ''div'' (Some ''fixed-column js-table-times'')
       = Some (Tag ''div'' [''fixed-column'', ''js-table-times''] [])
   \<and> extract_hours page_with_empty_container = Inl AttributeError
   \<and> extract_hours_continous page_with_empty_container = Inr []"
proof -
  let ?div = "Tag ''div'' [''fixed-column'', ''js-table-times''] []"
  have none: "\<forall>k \<in> set (descendants page_without_container).
       \<not> matches ''div'' (Some ''fixed-column js-table-times'') k"
    by (simp add: page_without_container_def descendants_def)
  have some: "find_tag page_with_empty_container ''div'' (Some ''fixed-column js-table-times'') = Some ?div"
    by (simp add: page_with_empty_container_def find_tag_def find_all_def find_all_ctx_def
        matches_class_def)
  have empty: "\<forall>k \<in> set (descendants ?div). \<not> matches name c k" for name c
    by (simp add: descendants_def)
  from extract_hours_container [of page_without_container] none
  have a: "extract_hours page_without_container = Inl AttributeError
      \<and> extract_hours_continous page_without_container = Inr []"
    by blast
  from extract_hours_container [of page_with_empty_container ?div] some empty
  have b: "extract_hours_continous page_with_empty_container = Inr []"
    and c: "extract_hours page_with_empty_container = Inl AttributeError"
    by blast+
  from none have "find_tag page_without_container ''div'' (Some ''fixed-column js-table-times'') = None"
    by (simp only: find_tag_None_iff)
  with some a b c show ?thesis by blast
qed

lemma join_classes_no_space:
  "join_classes cls = wanted \<Longrightarrow> CHR '' '' \<notin> set wanted \<Longrightarrow> wanted \<notin> set cls \<Longrightarrow> cls = []"
proof (cases cls)
  case Nil
  then show ?thesis by simp
next
  case (Cons c cs)
  assume j: "join_classes cls = wanted" and sp: "CHR '' '' \<notin> set wanted" and nin: "wanted \<notin> set cls"
  show ?thesis
  proof (cases cs)
    case Nil
    with Cons j nin show ?thesis by simp
  next
    case (Cons d ds)
    with \<open>cls = c # cs\<close> j have "CHR '' '' \<in> set wanted" by auto
    with sp show ?thesis by simp
  qed
qed

lemma not_child: "''child'' \<notin> set cls \<Longrightarrow> \<not> matches_class cls ''child''"
  unfolding matches_class_def
  using join_classes_no_space [of cls "''child''"] by auto

lemma find_all_ctx_children:
  "find_all_ctx (Tag n cls ks) name c = filter (\<lambda>(k, following). matches name c k) (below ks)"
  by (simp add: find_all_ctx_def)

lemma hour_filter_quiet:
  "\<forall>k \<in> set xs. no_hour_block k \<Longrightarrow> hour_filter (xs @ ys) = hour_filter ys"
proof (induction xs)
  case Nil
  then show ?case by simp
next
  case (Cons x xs)
  then have x: "no_hour_block x" and ih: "hour_filter (xs @ ys) = hour_filter ys"
    by simp_all
  show ?case
  proof (cases x)
    case (Tag n cls ks)
    with x have "\<not> matches ''li'' (Some ''child'') (Tag n cls ks)" and "hour_filter ks = []"
      by (simp_all add: no_hour_block_def find_all_ctx_children)
    with Tag ih show ?thesis
      by simp
  next
    case (NavigableString s)
    with ih show ?thesis
      by simp
  qed
qed

lemma text_no_hour_block: "is_text k \<Longrightarrow> no_hour_block k"
  by (cases k) (simp_all add: no_hour_block_def find_all_ctx_def)

lemma following_no_hour_block: "following_item k \<Longrightarrow> no_hour_block k"
  by (cases k) (simp_all add: no_hour_block_def following_item_def not_child)

lemma hour_item_child: "hour_item k \<Longrightarrow> ''child'' \<in> set (get_class k) \<and> \<not> is_text k"
  using not_child by (cases k) (auto simp: hour_item_def)

lemma a_text_label: "find_tag k ''a'' None \<noteq> None \<Longrightarrow> a_text k = Inr (label_of k)"
  by (auto simp: a_text_def label_of_def split: option.splits)

lemma filter_eq_appendD:
  "filter Q xs = ys @ zs \<Longrightarrow> \<exists>us vs. xs = us @ vs \<and> filter Q us = ys \<and> filter Q vs = zs"
proof (induction ys arbitrary: xs)
  case Nil
  then show ?case
    by (intro exI [of _ "[]"] exI [of _ xs]) simp
next
  case (Cons y ys)
  from Cons.prems obtain us vs where xs: "xs = us @ y # vs" and us: "\<forall>u \<in> set us. \<not> Q u"
    and y: "Q y" and vs: "ys @ zs = filter Q vs"
    by (auto simp: filter_eq_Cons_iff)
  from Cons.IH [of vs] vs obtain us' vs' where "vs = us' @ vs'" "filter Q us' = ys" "filter Q vs' = zs"
    by auto
  with xs us y show ?case
    by (intro exI [of _ "us @ y # us'"] exI [of _ vs']) simp
qed

lemma sub_intervals_texts:
  "\<forall>k \<in> set xs. is_text k \<Longrightarrow> sub_intervals (xs @ rest) = sub_intervals rest"
proof (induction xs)
  case Nil
  then show ?case by simp
next
  case (Cons x xs)
  then show ?case by (cases x) simp_all
qed

lemma sub_intervals_following:
  assumes "\<forall>k \<in> set xs. is_text k \<or> following_item k" and "sub_intervals rest = Inr []"
  shows "sub_intervals (xs @ rest) = Inr (map label_of (filter is_interval (filter (\<lambda>k. \<not> is_text k) xs)))"
  using assms(1)
proof (induction xs)
  case Nil
  then show ?case by (simp add: assms(2))
next
  case (Cons x xs)
  then have ih: "sub_intervals (xs @ rest)
      = Inr (map label_of (filter is_interval (filter (\<lambda>k. \<not> is_text k) xs)))"
    by simp
  show ?case
  proof (cases x)
    case (NavigableString s)
    with ih show ?thesis by simp
  next
    case (Tag n cls ks)
    with Cons.prems have f: "following_item (Tag n cls ks)"
      by auto
    then have nc: "''child'' \<notin> set cls"
      and link: "is_interval (Tag n cls ks) \<Longrightarrow> a_text (Tag n cls ks) = Inr (label_of (Tag n cls ks))"
      by (simp_all add: following_item_def a_text_label)
    show ?thesis
    proof (cases "is_interval (Tag n cls ks)")
      case True
      with Tag nc ih link show ?thesis
        by (auto simp: is_interval_def)
    next
      case False
      with Tag nc ih show ?thesis
        by (simp add: is_interval_def)
    qed
  qed
qed

lemma hour_blocks_items:
  assumes "\<forall>(h, subs) \<in> set blocks. hour_item h \<and> (\<forall>k \<in> set subs. following_item k)"
    and "filter (\<lambda>k. \<not> is_text k) items = concat (map (\<lambda>(h, subs). h # subs) blocks)"
  shows "hour_blocks (hour_filter items) = Inr (interleaved_labels blocks) \<and> sub_intervals items = Inr []"
  using assms
proof (induction blocks arbitrary: items)
  case Nil
  then have texts: "\<forall>k \<in> set items. is_text k"
    by (simp add: filter_empty_conv)
  then have "\<forall>k \<in> set items. no_hour_block k"
    by (simp add: text_no_hour_block)
  from hour_filter_quiet [OF this, of "[]"] sub_intervals_texts [OF texts, of "[]"]
  show ?case
    by (simp add: interleaved_labels_def)
next
  case (Cons b blocks)
  obtain h subs where b: "b = (h, subs)"
    by (cases b)
  from Cons.prems(1) b have h: "hour_item h" and subs: "\<forall>k \<in> set subs. following_item k"
    and rest: "\<forall>(h, subs) \<in> set blocks. hour_item h \<and> (\<forall>k \<in> set subs. following_item k)"
    by auto
  from Cons.prems(2) b obtain us vs where items: "items = us @ h # vs"
    and us: "\<forall>u \<in> set us. is_text u"
    and vs: "filter (\<lambda>k. \<not> is_text k) vs = subs @ concat (map (\<lambda>(h, subs). h # subs) blocks)"
    by (auto simp: filter_eq_Cons_iff)
  from filter_eq_appendD [OF vs] obtain vs1 vs2 where split: "vs = vs1 @ vs2"
    and vs1: "filter (\<lambda>k. \<not> is_text k) vs1 = subs"
    and vs2: "filter (\<lambda>k. \<not> is_text k) vs2 = concat (map (\<lambda>(h, subs). h # subs) blocks)"
    by blast
  from Cons.IH [OF rest vs2]
  have ih: "hour_blocks (hour_filter vs2) = Inr (interleaved_labels blocks)"
    and start: "sub_intervals vs2 = Inr []"
    by simp_all
  have follow: "\<forall>k \<in> set vs1. is_text k \<or> following_item k"
  proof
    fix k assume "k \<in> set vs1"
    show "is_text k \<or> following_item k"
    proof (cases "is_text k")
      case True
      then show ?thesis by simp
    next
      case False
      with \<open>k \<in> set vs1\<close> have "k \<in> set (filter (\<lambda>k. \<not> is_text k) vs1)"
        by simp
      with vs1 subs show ?thesis
        by simp
    qed
  qed
  then have quiet1: "\<forall>k \<in> set vs1. no_hour_block k"
    using text_no_hour_block following_no_hour_block by blast
  from us have quiet0: "\<forall>k \<in> set us. no_hour_block k"
    using text_no_hour_block by blast
  obtain n cls ks where tag: "h = Tag n cls ks"
    using hour_item_child [OF h] by (cases h) auto
  from h tag have m: "matches ''li'' (Some ''child'') (Tag n cls ks)" and inner: "hour_filter ks = []"
    and child: "''child'' \<in> set cls"
    using hour_item_child [OF h] by (simp_all add: hour_item_def find_all_ctx_children)
  from h have link: "a_text h = Inr (label_of h)"
    by (simp add: hour_item_def a_text_label)
  have "hour_filter items = hour_filter (h # vs)"
    unfolding items by (rule hour_filter_quiet [OF quiet0])
  also have "\<dots> = (h, vs) # hour_filter vs"
    using m inner by (simp add: tag)
  also have "hour_filter vs = hour_filter vs2"
    unfolding split by (rule hour_filter_quiet [OF quiet1])
  finally have blocks_eq: "hour_filter items = (h, vs) # hour_filter vs2" .
  have walk: "sub_intervals vs = Inr (map label_of (filter is_interval subs))"
    unfolding split using sub_intervals_following [OF follow start] vs1 by simp
  have a: "hour_blocks (hour_filter items) = Inr (interleaved_labels (b # blocks))"
    unfolding blocks_eq using link walk ih by (simp add: interleaved_labels_def b)
  have "sub_intervals items = sub_intervals (h # vs)"
    unfolding items by (rule sub_intervals_texts [OF us])
  also have "\<dots> = Inr []"
    using child by (simp add: tag)
  finally show ?case
    using a by simp
qed


lemma hour_filter_list:
  assumes "\<forall>(h, subs) \<in> set blocks. hour_item h \<and> (\<forall>k \<in> set subs. following_item k)"
    and "\<forall>k \<in> set lead. no_hour_block k"
    and "filter (\<lambda>k. \<not> is_text k) items = lead @ concat (map (\<lambda>(h, subs). h # subs) blocks)"
  shows "hour_blocks (hour_filter items) = Inr (interleaved_labels blocks)"
proof -
  from filter_eq_appendD [OF assms(3)] obtain us vs where items: "items = us @ vs"
    and us: "filter (\<lambda>k. \<not> is_text k) us = lead"
    and vs: "filter (\<lambda>k. \<not> is_text k) vs = concat (map (\<lambda>(h, subs). h # subs) blocks)"
    by blast
  have "\<forall>k \<in> set us. no_hour_block k"
  proof
    fix k assume k: "k \<in> set us"
    show "no_hour_block k"
    proof (cases "is_text k")
      case True
      then show ?thesis by (rule text_no_hour_block)
    next
      case False
      with k have "k \<in> set (filter (\<lambda>k. \<not> is_text k) us)"
        by simp
      with us assms(2) show ?thesis
        by simp
    qed
  qed
  then have "hour_filter items = hour_filter vs"
    unfolding items by (rule hour_filter_quiet)
  with hour_blocks_items [OF assms(1) vs] show ?thesis
    by simp
qed

lemma find_all_ctx_container:
  assumes "\<forall>k \<in> set (pre @ post). no_hour_block k"
    and "\<not> matches ''li'' (Some ''child'') (Tag ln lcls items)"
  shows "find_all_ctx (Tag dn dcls (pre @ [Tag ln lcls items] @ post)) ''li'' (Some ''child'')
           = hour_filter items"
proof -
  from assms(1) have pre: "\<forall>k \<in> set pre. no_hour_block k" and post: "\<forall>k \<in> set post. no_hour_block k"
    by simp_all
  have "find_all_ctx (Tag dn dcls (pre @ [Tag ln lcls items] @ post)) ''li'' (Some ''child'')
      = hour_filter (pre @ Tag ln lcls items # post)"
    by (simp add: find_all_ctx_def)
  also have "\<dots> = hour_filter (Tag ln lcls items # post)"
    by (rule hour_filter_quiet [OF pre])
  also have "\<dots> = hour_filter items @ hour_filter post"
    using assms(2) by simp
  also have "hour_filter post = []"
    using hour_filter_quiet [OF post, of "[]"] by simp
  finally show ?thesis
    by simp
qed

text \<open>
  C8.  Take a document whose hour list container holds the list of items itself, or
  holds one element with that list and besides it only nodes that neither are nor hold
  an hour block.  Let the elements of the list, whatever text lies before, between and
  after them, be leading elements that neither are nor hold an hour block, and then the
  hour blocks: each an item of class \<open>child\<close> with a link, followed by the elements that
  belong to it.  On such a document the continuous hour extraction returns, block after
  block in document order, the label of the hour block and then the labels of its
  half-hour and smaller sub-intervals in document order; the half-hour labels are there
  when the block has half-hour items, and elements of neither kind contribute nothing.
  On the page of the docstring, the block "00 - 01" with its four quarter hours followed
  by the block "01 - 02" with its four, the extraction returns the ten labels in that
  order.
\<close>

theorem extract_hours_continous_interleaves:
  assumes "find_tag soup ''div'' (Some ''fixed-column js-table-times'') = Some (Tag dn dcls ks)"
    and "ks = items
         \<or> (\<exists>pre ln lcls post.
                ks = pre @ [Tag ln lcls items] @ post
              \<and> (\<forall>k \<in> set (pre @ post). no_hour_block k)
              \<and> \<not> matches ''li'' (Some ''child'') (Tag ln lcls items))"
    and "filter (\<lambda>k. \<not> is_text k) items = lead @ concat (map (\<lambda>(h, subs). h # subs) blocks)"
    and "\<forall>k \<in> set lead. no_hour_block k"
    and "\<forall>(h, subs) \<in> set blocks. hour_item h \<and> (\<forall>k \<in> set subs. following_item k)"
  shows "extract_hours_continous soup = Inr (interleaved_labels blocks)
       \<and> extract_hours_continous docstring_page =
           Inr [''00 - 01'', ''00:00 - 00:15'', ''00:15 - 00:30'', ''00:30 - 00:45'', ''00:45 - 01:00'',
                ''01 - 02'', ''01:00 - 01:15'', ''01:15 - 01:30'', ''01:30 - 01:45'', ''01:45 - 02:00'']"
proof
  have "find_all_ctx (Tag dn dcls ks) ''li'' (Some ''child'') = hour_filter items"
    using assms(2) find_all_ctx_container [of _ _ _ _ items dn dcls]
    by (auto simp: find_all_ctx_children)
  then show "extract_hours_continous soup = Inr (interleaved_labels blocks)"
    using hour_filter_list [OF assms(5) assms(4) assms(3)]
    by (simp add: extract_hours_continous_def assms(1))
  show "extract_hours_continous docstring_page =
           Inr [''00 - 01'', ''00:00 - 00:15'', ''00:15 - 00:30'', ''00:30 - 00:45'', ''00:45 - 01:00'',
                ''01 - 02'', ''01:00 - 01:15'', ''01:15 - 01:30'', ''01:30 - 01:45'', ''01:45 - 02:00'']"
    by code_simp
qed

lemma docstring_page_container:
  "find_tag docstring_page ''div'' (Some ''fixed-column js-table-times'')
     = Some (Tag ''div'' [''fixed-column'', ''js-table-times'']
               ([line_break 8] @ [Tag ''ul'' [] docstring_items] @ [line_break 4]))"
  by code_simp

lemma docstring_page_shape:
  "(\<forall>k \<in> set ([line_break 8] @ [line_break 4]). no_hour_block k)
   \<and> \<not> matches ''li'' (Some ''child'') (Tag ''ul'' [] docstring_items)
   \<and> filter (\<lambda>k. \<not> is_text k) docstring_items = [] @ concat (map (\<lambda>(h, subs). h # subs) docstring_blocks)
   \<and> (\<forall>(h, subs) \<in> set docstring_blocks. hour_item h \<and> (\<forall>k \<in> set subs. following_item k))"
  by code_simp

lemma half_hours_page_container:
  "find_tag half_hours_page ''div'' (Some ''fixed-column js-table-times'')
     = Some (Tag ''div'' [''fixed-column'', ''js-table-times'']
               ([] @ [Tag ''ul'' [] half_hours_items] @ [Tag ''p'' [] [NavigableString ''CET'']]))"
  by code_simp

lemma half_hours_page_shape:
  "(\<forall>k \<in> set ([] @ [Tag ''p'' [] [NavigableString ''CET'']]). no_hour_block k)
   \<and> \<not> matches ''li'' (Some ''child'') (Tag ''ul'' [] half_hours_items)
   \<and> filter (\<lambda>k. \<not> is_text k) half_hours_items
       = [Tag ''li'' [''title''] [NavigableString ''Hours'']]
         @ concat (map (\<lambda>(h, subs). h # subs) half_hours_blocks)
   \<and> (\<forall>k \<in> set [Tag ''li'' [''title''] [NavigableString ''Hours'']]. no_hour_block k)
   \<and> (\<forall>(h, subs) \<in> set half_hours_blocks. hour_item h \<and> (\<forall>k \<in> set subs. following_item k))"
  by code_simp

lemma bare_page_container:
  "find_tag bare_page ''div'' (Some ''fixed-column js-table-times'')
     = Some (Tag ''div'' [''fixed-column'', ''js-table-times''] bare_items)"
  by code_simp

lemma bare_page_shape:
  "filter (\<lambda>k. \<not> is_text k) bare_items = [] @ concat (map (\<lambda>(h, subs). h # subs) bare_blocks)
   \<and> (\<forall>(h, subs) \<in> set bare_blocks. hour_item h \<and> (\<forall>k \<in> set subs. following_item k))"
  by code_simp

lemma labels_examples:
  "interleaved_labels docstring_blocks =
     [''00 - 01'', ''00:00 - 00:15'', ''00:15 - 00:30'', ''00:30 - 00:45'', ''00:45 - 01:00'',
      ''01 - 02'', ''01:00 - 01:15'', ''01:15 - 01:30'', ''01:30 - 01:45'', ''01:45 - 02:00'']
   \<and> interleaved_labels half_hours_blocks =
     [''00 - 01'', ''00:00 - 00:30'', ''00:00 - 00:15'', ''00:15 - 00:30'', ''00:30 - 01:00'',
      ''00:30 - 00:45'', ''00:45 - 01:00'', ''01 - 02'', ''01:00 - 01:30'', ''01:30 - 02:00'']
   \<and> interleaved_labels bare_blocks = [''23 - 24'', ''23:00 - 23:30'', ''23:30 - 24:00'']"
  by code_simp

theorem extract_hours_continous_interleaves_witness:
  "extract_hours_continous docstring_page = Inr (interleaved_labels docstring_blocks)
   \<and> interleaved_labels docstring_blocks =
     [''00 - 01'', ''00:00 - 00:15'', ''00:15 - 00:30'', ''00:30 - 00:45'', ''00:45 - 01:00'',
      ''01 - 02'', ''01:00 - 01:15'', ''01:15 - 01:30'', ''01:30 - 01:45'', ''01:45 - 02:00'']
   \<and> extract_hours_continous half_hours_page = Inr (interleaved_labels half_hours_blocks)
   \<and> interleaved_labels half_hours_blocks =
     [''00 - 01'', ''00:00 - 00:30'', ''00:00 - 00:15'', ''00:15 - 00:30'', ''00:30 - 01:00'',
      ''00:30 - 00:45'', ''00:45 - 01:00'', ''01 - 02'', ''01:00 - 01:30'', ''01:30 - 02:00'']
   \<and> extract_hours_continous bare_page = Inr (interleaved_labels bare_blocks)
   \<and> interleaved_labels bare_blocks = [''23 - 24'', ''23:00 - 23:30'', ''23:30 - 24:00'']"
proof -
  from docstring_page_shape have
    a2: "[line_break 8] @ [Tag ''ul'' [] docstring_items] @ [line_break 4] = docstring_items
         \<or> (\<exists>pre ln lcls post.
                [line_break 8] @ [Tag ''ul'' [] docstring_items] @ [line_break 4]
                  = pre @ [Tag ln lcls docstring_items] @ post
              \<and> (\<forall>k \<in> set (pre @ post). no_hour_block k)
              \<and> \<not> matches ''li'' (Some ''child'') (Tag ln lcls docstring_items))"
    and a3: "filter (\<lambda>k. \<not> is_text k) docstring_items
               = [] @ concat (map (\<lambda>(h, subs). h # subs) docstring_blocks)"
    and a5: "\<forall>(h, subs) \<in> set docstring_blocks. hour_item h \<and> (\<forall>k \<in> set subs. following_item k)"
    by blast+
  have a4: "\<forall>k \<in> set []. no_hour_block k"
    by simp
  from half_hours_page_shape have
    b2: "[] @ [Tag ''ul'' [] half_hours_items] @ [Tag ''p'' [] [NavigableString ''CET'']] = half_hours_items
         \<or> (\<exists>pre ln lcls post.
                [] @ [Tag ''ul'' [] half_hours_items] @ [Tag ''p'' [] [NavigableString ''CET'']]
                  = pre @ [Tag ln lcls half_hours_items] @ post
              \<and> (\<forall>k \<in> set (pre @ post). no_hour_block k)
              \<and> \<not> matches ''li'' (Some ''child'') (Tag ln lcls half_hours_items))"
    and b3: "filter (\<lambda>k. \<not> is_text k) half_hours_items
               = [Tag ''li'' [''title''] [NavigableString ''Hours'']]
                 @ concat (map (\<lambda>(h, subs). h # subs) half_hours_blocks)"
    and b4: "\<forall>k \<in> set [Tag ''li'' [''title''] [NavigableString ''Hours'']]. no_hour_block k"
    and b5: "\<forall>(h, subs) \<in> set half_hours_blocks. hour_item h \<and> (\<forall>k \<in> set subs. following_item k)"
    by blast+
  from bare_page_shape have
    c3: "filter (\<lambda>k. \<not> is_text k) bare_items = [] @ concat (map (\<lambda>(h, subs). h # subs) bare_blocks)"
    and c5: "\<forall>(h, subs) \<in> set bare_blocks. hour_item h \<and> (\<forall>k \<in> set subs. following_item k)"
    by blast+
  have c2: "bare_items = bare_items
         \<or> (\<exists>pre ln lcls post.
                bare_items = pre @ [Tag ln lcls bare_items] @ post
              \<and> (\<forall>k \<in> set (pre @ post). no_hour_block k)
              \<and> \<not> matches ''li'' (Some ''child'') (Tag ln lcls bare_items))"
    by simp
  from extract_hours_continous_interleaves [OF docstring_page_container a2 a3 a4 a5]
  have a: "extract_hours_continous docstring_page = Inr (interleaved_labels docstring_blocks)"
    by simp
  from extract_hours_continous_interleaves [OF half_hours_page_container b2 b3 b4 b5]
  have b: "extract_hours_continous half_hours_page = Inr (interleaved_labels half_hours_blocks)"
    by simp
  from extract_hours_continous_interleaves [OF bare_page_container c2 c3 a4 c5]
  have c: "extract_hours_continous bare_page = Inr (interleaved_labels bare_blocks)"
    by simp
  from a b c labels_examples show ?thesis
    by simp
qed

section \<open>Properties of the driver with two archives\<close>

lemma and_then_preserves:
  assumes "q (snd r) = x" and "\<And>s. q (snd (f s)) = q s"
  shows "q (snd (and_then r f)) = x"
  using assms by (cases r) (auto simp: and_then_def split: option.splits)

lemma request_urls_append: "request_urls (xs @ ys) = request_urls xs @ request_urls ys"
  by (induction xs rule: request_urls.induct) auto

lemma pauses_append: "pauses (xs @ ys) = pauses xs + pauses ys"
  by (simp add: pauses_def)

lemma wld_marks [simp]:
  "wld (mark_hours s) = wld s" "wld (mark_base_peak s) = wld s" "wld (mark_both s) = wld s"
  by (simp_all add: mark_hours_def mark_base_peak_def mark_both_def)

lemma wld_hours_try: "wld (hours_try s) = wld s"
  by (simp add: hours_try_def split: option.splits sum.splits)

lemma wld_hours_checks: "wld (snd (hours_checks s)) = wld s"
  by (simp add: hours_checks_def split: option.splits list.splits)

lemma wld_hourly_data_try: "wld (hourly_data_try l s) = wld s"
  by (simp add: hourly_data_try_def split: option.splits sum.splits)

lemma wld_hourly_data_checks: "wld (snd (hourly_data_checks s)) = wld s"
  by (simp add: hourly_data_checks_def split: option.splits list.splits)

lemma wld_hourly_frame_try: "wld (hourly_frame_try l cfg c s) = wld s"
  by (simp add: hourly_frame_try_def Let_def split: option.splits sum.splits)

lemma log_hourly_append: "log (wld (snd (hourly_append cfg s))) = log (wld s)"
  by (simp add: hourly_append_def Let_def split: option.splits)

lemma tables_hourly_append:
  "p \<noteq> archive_hourly_data_filepath cfg \<Longrightarrow>
     tables (wld (snd (hourly_append cfg s))) p = tables (wld s) p"
  by (simp add: hourly_append_def Let_def split: option.splits)

lemma csv_hourly_append: "csv_files (wld (snd (hourly_append cfg s))) = csv_files (wld s)"
  by (simp add: hourly_append_def Let_def split: option.splits)

lemma hours_stage_skip: "hours_stage l cfg c True s = (None, s)"
  by (simp add: hours_stage_def)

lemma hours_stage_keeps:
  assumes "\<And>s. q (wld (snd (hourly_append cfg s))) = q (wld s)"
  shows "q (wld (snd (hours_stage l cfg c h s))) = q (wld s)"
proof (cases "h = False \<and> num_hours_records s \<noteq> Failed")
  case True
  have 1: "q (wld (snd (hours_checks (hours_try s)))) = q (wld s)"
    by (simp add: wld_hours_checks wld_hours_try)
  have 2: "q (wld (snd (hourly_data_checks (hourly_data_try l s')))) = q (wld s')" for s'
    by (simp add: wld_hourly_data_checks wld_hourly_data_try)
  have 3: "q (wld (snd (if num_hours_records s' \<noteq> Failed
                then hourly_append cfg (hourly_frame_try l cfg c s') else (None, s')))) = q (wld s')" for s'
    by (simp add: assms wld_hourly_frame_try)
  have "q (wld (snd (and_then (and_then (hours_checks (hours_try s))
                    (\<lambda>s. hourly_data_checks (hourly_data_try l s)))
          (\<lambda>s. if num_hours_records s \<noteq> Failed
                then hourly_append cfg (hourly_frame_try l cfg c s)
                else (None, s))))) = q (wld s)"
    by (rule and_then_preserves [where q = "\<lambda>s. q (wld s)"],
        rule and_then_preserves [where q = "\<lambda>s. q (wld s)"], rule 1, rule 2, rule 3)
  with True show ?thesis
    by (simp add: hours_stage_def)
next
  case False
  then show ?thesis by (auto simp: hours_stage_def)
qed

lemma wld_base_peak_try: "wld (base_peak_try l s) = wld s"
  by (simp add: base_peak_try_def split: option.splits sum.splits)

lemma wld_base_peak_checks: "wld (snd (base_peak_checks s)) = wld s"
  by (simp add: base_peak_checks_def split: option.splits prod.splits)

lemma wld_base_peak_frame_try: "wld (base_peak_frame_try l cfg c s) = wld s"
  by (simp add: base_peak_frame_try_def Let_def split: option.splits sum.splits prod.splits)

lemma log_base_peak_append: "log (wld (snd (base_peak_append cfg s))) = log (wld s)"
  by (simp add: base_peak_append_def Let_def split: option.splits)

lemma tables_base_peak_append:
  "p \<noteq> archive_base_peak_data_filepath cfg \<Longrightarrow>
     tables (wld (snd (base_peak_append cfg s))) p = tables (wld s) p"
  by (simp add: base_peak_append_def Let_def split: option.splits)

lemma base_peak_stage_skip: "base_peak_stage l cfg c True s = (None, s)"
  by (simp add: base_peak_stage_def)

lemma base_peak_stage_keeps:
  assumes "\<And>s. q (wld (snd (base_peak_append cfg s))) = q (wld s)"
  shows "q (wld (snd (base_peak_stage l cfg c b s))) = q (wld s)"
proof (cases "b = False \<and> base_peak_sucess s \<noteq> Failed")
  case True
  have 1: "q (wld (snd (base_peak_checks (base_peak_try l s)))) = q (wld s)"
    by (simp add: wld_base_peak_checks wld_base_peak_try)
  have 2: "q (wld (snd (if base_peak_sucess s' \<noteq> Failed
                then base_peak_append cfg (base_peak_frame_try l cfg c s') else (None, s')))) = q (wld s')" for s'
    by (simp add: assms wld_base_peak_frame_try)
  have "q (wld (snd (and_then (base_peak_checks (base_peak_try l s))
          (\<lambda>s. if base_peak_sucess s \<noteq> Failed
                then base_peak_append cfg (base_peak_frame_try l cfg c s)
                else (None, s))))) = q (wld s)"
    by (rule and_then_preserves [where q = "\<lambda>s. q (wld s)"], rule 1, rule 2)
  with True show ?thesis
    by (simp add: base_peak_stage_def)
next
  case False
  then show ?thesis by (auto simp: base_peak_stage_def)
qed

lemma tables_fetch_stage: "tables (wld (snd (fetch_stage l cfg c s))) = tables (wld s)"
  by (simp add: fetch_stage_def Let_def emit_def mark_both_def split: sum.splits option.splits)

lemma log_fetch_stage:
  "clean_auction_name (kind cfg) (auction_name c) = Inr a \<Longrightarrow>
     log (wld (snd (fetch_stage l cfg c s))) = log (wld s) @ [Request (url_table cfg c a)]"
  by (simp add: fetch_stage_def Let_def emit_def mark_both_def split: sum.splits option.splits)

lemma tables_write_tracking_inline:
  "tables (snd (write_tracking_inline w p d)) = tables w"
  by (simp add: write_tracking_inline_def write_csv_def emit_def Let_def split: option.splits list.splits)

lemma request_urls_write_tracking_inline:
  "request_urls (log (snd (write_tracking_inline w p d))) = request_urls (log w)"
  by (simp add: write_tracking_inline_def write_csv_def emit_def Let_def request_urls_append
      split: option.splits list.splits)

lemma pauses_write_tracking_inline:
  "pauses (log (snd (write_tracking_inline w p d))) = pauses (log w)"
  by (simp add: write_tracking_inline_def write_csv_def emit_def Let_def pauses_def
      split: option.splits list.splits)

lemma track_stage_keeps:
  assumes "\<And>w p d. q (snd (write_tracking_inline w p d)) = q w"
  shows "q (wld (snd (track_stage l cfg c h b s))) = q (wld s)"
  by (simp add: track_stage_def Let_def assms split: prod.splits)
     (metis assms snd_conv)

lemma body_after_first:
  assumes hs: "\<And>s. q (wld (snd (hours_stage l cfg c h s))) = q (wld s)"
    and bs: "\<And>s. q (wld (snd (base_peak_stage l cfg c b s))) = q (wld s)"
    and ts: "\<And>s. q (wld (snd (track_stage l cfg c h b s))) = q (wld s)"
    and ps: "\<And>w. q (emit Sleep w) = q w"
  shows "q (wld (snd (download_data_body l cfg c h b s)))
           = q (wld (snd (if h = True \<and> b = True then (None, s) else fetch_stage l cfg c s)))"
  unfolding download_data_body_def
  by (rule and_then_preserves [where q = "\<lambda>s. q (wld s)"],
      rule and_then_preserves [where q = "\<lambda>s. q (wld s)"],
      rule and_then_preserves [where q = "\<lambda>s. q (wld s)"],
      rule and_then_preserves [where q = "\<lambda>s. q (wld s)"],
      rule refl, rule hs, rule bs, rule ts, simp add: pace_def ps)

lemma tables_emit: "tables (emit ev w) = tables w"
  by (simp add: emit_def)

lemma body_hourly_untouched:
  assumes "h" and "b \<or> archive_base_peak_data_filepath cfg \<noteq> archive_hourly_data_filepath cfg"
  shows "tables (wld (snd (download_data_body l cfg c h b s))) (archive_hourly_data_filepath cfg)
           = tables (wld s) (archive_hourly_data_filepath cfg)"
proof -
  let ?q = "\<lambda>w. tables w (archive_hourly_data_filepath cfg)"
  have hs: "?q (wld (snd (hours_stage l cfg c h s))) = ?q (wld s)" for s
    using \<open>h\<close> by (simp add: hours_stage_skip)
  have bs: "?q (wld (snd (base_peak_stage l cfg c b s))) = ?q (wld s)" for s
  proof (cases b)
    case True
    then show ?thesis by (simp add: base_peak_stage_skip)
  next
    case False
    with assms(2) have ne: "archive_hourly_data_filepath cfg \<noteq> archive_base_peak_data_filepath cfg"
      by auto
    show ?thesis
      by (rule base_peak_stage_keeps [where q = ?q]) (simp add: tables_base_peak_append [OF ne])
  qed
  have ts: "?q (wld (snd (track_stage l cfg c h b s))) = ?q (wld s)" for s
    by (rule track_stage_keeps [where q = ?q]) (simp add: tables_write_tracking_inline)
  have "?q (wld (snd (download_data_body l cfg c h b s)))
           = ?q (wld (snd (if h = True \<and> b = True then (None, s) else fetch_stage l cfg c s)))"
    by (rule body_after_first [where q = ?q]) (simp_all add: hs bs ts tables_emit)
  then show ?thesis
    by (simp add: tables_fetch_stage)
qed

lemma body_base_peak_untouched:
  assumes "b" and "h \<or> archive_hourly_data_filepath cfg \<noteq> archive_base_peak_data_filepath cfg"
  shows "tables (wld (snd (download_data_body l cfg c h b s))) (archive_base_peak_data_filepath cfg)
           = tables (wld s) (archive_base_peak_data_filepath cfg)"
proof -
  let ?q = "\<lambda>w. tables w (archive_base_peak_data_filepath cfg)"
  have bs: "?q (wld (snd (base_peak_stage l cfg c b s))) = ?q (wld s)" for s
    using \<open>b\<close> by (simp add: base_peak_stage_skip)
  have hs: "?q (wld (snd (hours_stage l cfg c h s))) = ?q (wld s)" for s
  proof (cases h)
    case True
    then show ?thesis by (simp add: hours_stage_skip)
  next
    case False
    with assms(2) have ne: "archive_base_peak_data_filepath cfg \<noteq> archive_hourly_data_filepath cfg"
      by auto
    show ?thesis
      by (rule hours_stage_keeps [where q = ?q]) (simp add: tables_hourly_append [OF ne])
  qed
  have ts: "?q (wld (snd (track_stage l cfg c h b s))) = ?q (wld s)" for s
    by (rule track_stage_keeps [where q = ?q]) (simp add: tables_write_tracking_inline)
  have "?q (wld (snd (download_data_body l cfg c h b s)))
           = ?q (wld (snd (if h = True \<and> b = True then (None, s) else fetch_stage l cfg c s)))"
    by (rule body_after_first [where q = ?q]) (simp_all add: hs bs ts tables_emit)
  then show ?thesis
    by (simp add: tables_fetch_stage)
qed

lemma body_requests:
  "request_urls (log (wld (snd (download_data_body l cfg c h b s))))
     = request_urls (log (wld (snd (if h = True \<and> b = True then (None, s) else fetch_stage l cfg c s))))"
proof -
  let ?q = "\<lambda>w. request_urls (log w)"
  have hs: "?q (wld (snd (hours_stage l cfg c h s))) = ?q (wld s)" for s
    by (rule hours_stage_keeps [where q = ?q]) (simp add: log_hourly_append)
  have bs: "?q (wld (snd (base_peak_stage l cfg c b s))) = ?q (wld s)" for s
    by (rule base_peak_stage_keeps [where q = ?q]) (simp add: log_base_peak_append)
  have ts: "?q (wld (snd (track_stage l cfg c h b s))) = ?q (wld s)" for s
    by (rule track_stage_keeps [where q = ?q]) (simp add: request_urls_write_tracking_inline)
  show ?thesis
    by (rule body_after_first [where q = ?q]) (simp_all add: hs bs ts emit_def request_urls_append)
qed

lemma filter_all_length:
  "length (filter P xs) = length xs \<Longrightarrow> x \<in> set xs \<Longrightarrow> P x"
proof -
  assume len: "length (filter P xs) = length xs" and x: "x \<in> set xs"
  have "length (filter P xs) + length (filter (\<lambda>x. \<not> P x) xs) = length xs"
    by (rule sum_length_filter_compl)
  with len have "filter (\<lambda>x. \<not> P x) xs = []" by simp
  with x show "P x" by (simp add: filter_empty_conv)
qed

lemma check_names_kind:
  assumes "check_names cfg = None"
  shows "contains ''head'' (kind cfg) \<or> contains ''traday'' (kind cfg)"
proof -
  let ?xs = "[kind cfg, tracking_file_filepath cfg,
              archive_hourly_data_filepath cfg, archive_base_peak_data_filepath cfg]"
  from assms have "length ?xs = length (filter (contains ''head'') ?xs)
      \<or> length ?xs = length (filter (contains ''traday'') ?xs)"
    unfolding check_names_def Let_def by (metis option.distinct(1))
  then show ?thesis
    using filter_all_length [of "contains ''head''" ?xs "kind cfg"]
      filter_all_length [of "contains ''traday''" ?xs "kind cfg"]
    by (metis list.set_intros(1))
qed

lemma clean_auction_name_ok:
  assumes "check_names cfg = None"
  shows "\<exists>a. clean_auction_name (kind cfg) auction = Inr a"
  using check_names_kind [OF assms] by (auto simp: clean_auction_name_def)

lemma archive_checks_same_path:
  assumes "archive_checks l cfg c w = Inr (hourly_df, basepeak_df, h, b)"
    and "archive_hourly_data_filepath cfg = archive_base_peak_data_filepath cfg"
  shows "h = b"
  using assms by (auto simp: archive_checks_def split: sum.splits if_splits)

text \<open>
  C1.  In the driver with the two sibling archives, a combination is worked on without
  any page request exactly when both the hourly and the base/peak existence checks
  answer True.  When at least one of them answers False, the page is requested once,
  for the whole combination; whatever the request and the extraction then give, the
  hourly archive is as it was when the hourly check answered True, and the base/peak
  archive is as it was when the base/peak check answered True: a table that its
  archive already holds is not appended again because the sibling was missing.
\<close>

theorem download_data_step_archives:
  assumes names: "check_names cfg = None"
    and checks: "archive_checks l cfg c w = Inr (hourly_df, basepeak_df, archive_check_hours, archive_check_base_peak)"
    and step: "download_data_step l cfg c (vs, w) = (r, vs', w')"
  shows "(request_urls (log w') = request_urls (log w) \<longleftrightarrow> archive_check_hours \<and> archive_check_base_peak)
       \<and> (\<not> (archive_check_hours \<and> archive_check_base_peak) \<longrightarrow>
            (\<exists>url. request_urls (log w') = request_urls (log w) @ [url]))
       \<and> (archive_check_hours \<longrightarrow>
            tables w' (archive_hourly_data_filepath cfg) = tables w (archive_hourly_data_filepath cfg))
       \<and> (archive_check_base_peak \<longrightarrow>
            tables w' (archive_base_peak_data_filepath cfg) = tables w (archive_base_peak_data_filepath cfg))"
proof -
  let ?h = archive_check_hours and ?b = archive_check_base_peak
  let ?s = "\<lparr>num_hours_records = Unset, base_peak_sucess = Unset, vars = vs,
             archive_hourly_data_df = hourly_df, archive_basepeak_data_df = basepeak_df, wld = w\<rparr>"
  from checks step have w': "w' = wld (snd (download_data_body l cfg c ?h ?b ?s))"
    by (auto simp: download_data_step_def split: prod.splits)
  obtain a where a: "clean_auction_name (kind cfg) (auction_name c) = Inr a"
    using clean_auction_name_ok [OF names] by blast
  have req: "request_urls (log w')
      = (if ?h \<and> ?b then request_urls (log w) else request_urls (log w) @ [url_table cfg c a])"
    unfolding w' body_requests
    by (simp add: log_fetch_stage [OF a] request_urls_append)
  have same: "archive_hourly_data_filepath cfg = archive_base_peak_data_filepath cfg \<Longrightarrow> ?h = ?b"
    using archive_checks_same_path [OF checks] by simp
  have hourly: "?h \<Longrightarrow> tables w' (archive_hourly_data_filepath cfg) = tables w (archive_hourly_data_filepath cfg)"
  proof -
    assume h: ?h
    with same have "?b \<or> archive_base_peak_data_filepath cfg \<noteq> archive_hourly_data_filepath cfg"
      by auto
    from body_hourly_untouched [OF h this] show ?thesis
      by (simp add: w')
  qed
  have base_peak: "?b \<Longrightarrow> tables w' (archive_base_peak_data_filepath cfg) = tables w (archive_base_peak_data_filepath cfg)"
  proof -
    assume b: ?b
    with same have "?h \<or> archive_hourly_data_filepath cfg \<noteq> archive_base_peak_data_filepath cfg"
      by auto
    from body_base_peak_untouched [OF b this] show ?thesis
      by (simp add: w')
  qed
  from req hourly base_peak show ?thesis
    by auto
qed

lemma archive_checks_example:
  "map_sum id (\<lambda>(a, b, h, bb). (h, bb))
     (archive_checks lib_example settings_example combination_example world_hourly_only) = Inr (True, False)"
  by code_simp

theorem download_data_step_archives_witness:
  "check_names settings_example = None
   \<and> request_urls (log (snd (snd (download_data_step lib_example settings_example combination_example
                                     (no_locals, world_hourly_only))))) \<noteq> []
   \<and> tables (snd (snd (download_data_step lib_example settings_example combination_example
                          (no_locals, world_hourly_only))))
        (archive_hourly_data_filepath settings_example)
      = Some hourly_archive_example"
proof -
  have names: "check_names settings_example = None"
    by code_simp
  obtain hourly_df basepeak_df where checks:
    "archive_checks lib_example settings_example combination_example world_hourly_only
       = Inr (hourly_df, basepeak_df, True, False)"
    using archive_checks_example
    by (cases "archive_checks lib_example settings_example combination_example world_hourly_only")
       auto
  obtain r vs' w' where step:
    "download_data_step lib_example settings_example combination_example (no_locals, world_hourly_only)
       = (r, vs', w')"
    by (metis prod_cases3)
  from download_data_step_archives [OF names checks step]
  have "\<exists>url. request_urls (log w') = request_urls (log world_hourly_only) @ [url]"
    and "tables w' (archive_hourly_data_filepath settings_example)
          = tables world_hourly_only (archive_hourly_data_filepath settings_example)"
    by auto
  moreover have "tables world_hourly_only (archive_hourly_data_filepath settings_example)
      = Some hourly_archive_example"
    by (simp add: world_hourly_only_def settings_example_def)
  ultimately show ?thesis
    using names step by auto
qed

lemma and_then_None:
  "fst (and_then r f) = None \<Longrightarrow> fst r = None \<and> and_then r f = f (snd r)"
  by (cases r) (auto simp: and_then_def split: option.splits)

lemma and_then_Some:
  "fst (and_then r f) = Some e \<Longrightarrow> (\<And>s. fst (f s) = None) \<Longrightarrow> and_then r f = r"
  by (cases r) (auto simp: and_then_def split: option.splits)

lemma body_before_pace:
  assumes fs: "\<And>s. q (wld (snd (fetch_stage l cfg c s))) = q (wld s)"
    and hs: "\<And>s. q (wld (snd (hours_stage l cfg c h s))) = q (wld s)"
    and bs: "\<And>s. q (wld (snd (base_peak_stage l cfg c b s))) = q (wld s)"
    and ts: "\<And>s. q (wld (snd (track_stage l cfg c h b s))) = q (wld s)"
  shows "q (wld (snd (and_then (and_then (and_then
       (if h = True \<and> b = True then (None, s) else fetch_stage l cfg c s)
       (hours_stage l cfg c h))
       (base_peak_stage l cfg c b))
       (track_stage l cfg c h b)))) = q (wld s)"
  by (rule and_then_preserves [where q = "\<lambda>s. q (wld s)"],
      rule and_then_preserves [where q = "\<lambda>s. q (wld s)"],
      rule and_then_preserves [where q = "\<lambda>s. q (wld s)"],
      simp add: fs, rule hs, rule bs, rule ts)

lemma pauses_fetch_stage: "pauses (log (wld (snd (fetch_stage l cfg c s)))) = pauses (log (wld s))"
  by (simp add: fetch_stage_def Let_def emit_def mark_both_def pauses_def split: sum.splits option.splits)

lemma body_pauses:
  "pauses (log (wld (snd (download_data_body l cfg c h b s))))
     = pauses (log (wld s)) + (if fst (download_data_body l cfg c h b s) = None then 1 else 0)"
proof -
  let ?q = "\<lambda>w. pauses (log w)"
  let ?X = "and_then (and_then (and_then
       (if h = True \<and> b = True then (None, s) else fetch_stage l cfg c s)
       (hours_stage l cfg c h))
       (base_peak_stage l cfg c b))
       (track_stage l cfg c h b)"
  have hs: "?q (wld (snd (hours_stage l cfg c h s))) = ?q (wld s)" for s
    by (rule hours_stage_keeps [where q = ?q]) (simp add: log_hourly_append)
  have bs: "?q (wld (snd (base_peak_stage l cfg c b s))) = ?q (wld s)" for s
    by (rule base_peak_stage_keeps [where q = ?q]) (simp add: log_base_peak_append)
  have ts: "?q (wld (snd (track_stage l cfg c h b s))) = ?q (wld s)" for s
    by (rule track_stage_keeps [where q = ?q]) (simp add: pauses_write_tracking_inline)
  have X: "?q (wld (snd ?X)) = ?q (wld s)"
    by (rule body_before_pace [where q = ?q]) (simp_all add: pauses_fetch_stage hs bs ts)
  have body: "download_data_body l cfg c h b s = and_then ?X pace"
    by (simp add: download_data_body_def)
  show ?thesis
  proof (cases "fst (download_data_body l cfg c h b s)")
    case None
    with body have "download_data_body l cfg c h b s = pace (snd ?X)"
      using and_then_None [of ?X pace] by simp
    with None X show ?thesis
      by (simp add: pace_def emit_def pauses_def)
  next
    case (Some e)
    with body have "download_data_body l cfg c h b s = ?X"
      using and_then_Some [of ?X pace e] by (simp add: pace_def)
    with Some X show ?thesis by simp
  qed
qed

lemma download_data_step_pauses:
  assumes "archive_checks l cfg c w = Inr (hourly_df, basepeak_df, h, b)"
    and "download_data_step l cfg c (vs, w) = (r, vs', w')"
  shows "pauses (log w') = pauses (log w) + (if r = None then 1 else 0)"
proof -
  let ?s = "\<lparr>num_hours_records = Unset, base_peak_sucess = Unset, vars = vs,
             archive_hourly_data_df = hourly_df, archive_basepeak_data_df = basepeak_df, wld = w\<rparr>"
  from assms have "w' = wld (snd (download_data_body l cfg c h b ?s))"
    and "r = fst (download_data_body l cfg c h b ?s)"
    by (auto simp: download_data_step_def split: prod.splits)
  then show ?thesis
    using body_pauses [of l cfg c h b ?s] by simp
qed

lemma download_step_skip:
  assumes "skip_check ex (key_of cfg t) = Inr True"
  shows "snd (snd (download_step st cfg ex t (n, w))) = w"
  using assms by (simp add: download_step_def split: sum.splits)

lemma log_update_tracking_file:
  "update_tracking_file w p d hr = (None, w') \<Longrightarrow>
     \<exists>evs. log w' = log w @ evs \<and> pauses evs = 0 \<and> request_urls evs = []"
  by (auto simp: update_tracking_file_def write_csv_def emit_def Let_def pauses_def
      split: if_splits option.splits list.splits)

lemma log_fetch_and_process:
  "fetch_and_process st cfg t fetch (Some u) w = (r, w') \<Longrightarrow> log w' = log w @ [Request u]"
  by (auto simp: fetch_and_process_def Let_def emit_def split: sum.splits prod.splits)

lemma log_attempt_request:
  assumes "url_of cfg t vc = Inr (Some u)" and "attempt st cfg t (Some u) w = (r, w')"
  shows "log w' = log w @ [Request u]"
proof -
  from assms(1) have "type_name cfg = ''dayahead'' \<or> type_name cfg = ''intraday''
      \<or> contains ''aggregated_curves'' (type_name cfg) \<or> type_name cfg = ''continuous''"
    by (auto simp: url_of_def Let_def split: if_splits option.splits)
  with assms(2) show ?thesis
    by (auto simp: attempt_def Let_def split: if_splits dest: log_fetch_and_process)
qed

lemma log_attempt_none:
  "attempt st cfg t None w = (Inr r, w') \<Longrightarrow> log w' = log w"
  by (auto simp: attempt_def fetch_and_process_def Let_def split: if_splits)

lemma log_attempt_any:
  "attempt st cfg t url w = (r, w') \<Longrightarrow> \<exists>evs. log w' = log w @ evs \<and> pauses evs = 0"
  by (auto simp: attempt_def fetch_and_process_def Let_def emit_def pauses_def
      split: sum.splits prod.splits option.splits if_splits)

lemma download_step_attempted:
  assumes skip: "skip_check ex (key_of cfg t) = Inr False"
    and step: "download_step st cfg ex t (n, w) = (None, n', w')"
  shows "\<exists>evs. log w' = log w @ evs @ [Sleep] \<and> pauses evs = 0
           \<and> (\<forall>vc u. clean_value (type_name cfg) (t_value t) = Inr vc \<and> url_of cfg t vc = Inr (Some u)
                 \<longrightarrow> request_urls evs = [u])
           \<and> (\<forall>vc. clean_value (type_name cfg) (t_value t) = Inr vc \<and> url_of cfg t vc = Inr None
                 \<longrightarrow> request_urls evs = [])"
proof -
  from skip step obtain vc url where vc: "clean_value (type_name cfg) (t_value t) = Inr vc"
    and url: "url_of cfg t vc = Inr url"
    by (auto simp: download_step_def split: sum.splits)
  from skip step vc url obtain si w1 where att: "attempt st cfg t url w = (Inr si, w1)"
    by (auto simp: download_step_def split: sum.splits prod.splits)
  from skip step vc url att obtain d hr where row: "tracking_row st cfg t si = Inr (d, hr)"
    by (auto simp: download_step_def Let_def split: sum.splits prod.splits)
  from skip step vc url att row obtain w2 where upd: "update_tracking_file w1 (tracking_path cfg) d hr = (None, w2)"
    and w': "w' = emit Sleep w2"
    by (auto simp: download_step_def Let_def split: sum.splits prod.splits option.splits)
  from log_attempt_any [OF att] obtain evs1 where
    evs1: "log w1 = log w @ evs1" "pauses evs1 = 0"
    by blast
  from log_update_tracking_file [OF upd] obtain evs2 where
    evs2: "log w2 = log w1 @ evs2" "pauses evs2 = 0" "request_urls evs2 = []"
    by blast
  have a: "log w' = log w @ (evs1 @ evs2) @ [Sleep]"
    using evs1 evs2 w' by (simp add: emit_def)
  have b: "pauses (evs1 @ evs2) = 0"
    using evs1 evs2 by (simp add: pauses_append)
  have c: "request_urls (evs1 @ evs2) = [u]"
    if "clean_value (type_name cfg) (t_value t) = Inr vc'" and "url_of cfg t vc' = Inr (Some u)" for vc' u
  proof -
    from that vc url have u: "url = Some u" "url_of cfg t vc = Inr (Some u)"
      by auto
    from log_attempt_request [OF u(2)] att u(1) evs1 have "evs1 = [Request u]"
      by auto
    with evs2 show ?thesis
      by (simp add: request_urls_append)
  qed
  have d: "request_urls (evs1 @ evs2) = []"
    if "clean_value (type_name cfg) (t_value t) = Inr vc'" and "url_of cfg t vc' = Inr None" for vc'
  proof -
    from that vc url have "url = None"
      by auto
    with log_attempt_none att evs1 have "evs1 = []"
      by fastforce
    with evs2 show ?thesis
      by simp
  qed
  show ?thesis
  proof (intro exI [of _ "evs1 @ evs2"] conjI allI impI)
    show "log w' = log w @ (evs1 @ evs2) @ [Sleep]"
      by (rule a)
    show "pauses (evs1 @ evs2) = 0"
      by (rule b)
    show "request_urls (evs1 @ evs2) = [u]"
      if "clean_value (type_name cfg) (t_value t) = Inr vc' \<and> url_of cfg t vc' = Inr (Some u)" for vc' u
      using that c by blast
    show "request_urls (evs1 @ evs2) = []"
      if "clean_value (type_name cfg) (t_value t) = Inr vc' \<and> url_of cfg t vc' = Inr None" for vc'
      using that d by blast
  qed
qed

section \<open>Properties of the driver with the tracking ledger\<close>

lemma column_index_columns:
  "columns df = columns df' \<Longrightarrow> column_index df name = column_index df' name"
  by (simp add: column_index_def)

lemma convert_all_with_date:
  "convert_all parse j rs = Inr rs' \<Longrightarrow> rs' = map (with_date parse j) rs"
  by (induction rs arbitrary: rs') (auto simp: with_date_def split: option.splits sum.splits)

lemma to_datetime_date_rows:
  assumes "to_datetime_date parse df name = Inr df'"
  shows "columns df' = columns df
       \<and> (\<exists>j. column_index df name = Inr j \<and> rows df' = map (with_date parse j) (rows df))"
  using assms
  by (auto simp: to_datetime_date_def dest: convert_all_with_date split: sum.splits)

lemma length_with_date: "length (with_date parse j r) = length r"
  by (simp add: with_date_def split: option.splits)

lemma import_existing_rows:
  assumes "import_exsting_combinations_file parse (Some df) cols = Inr skip_set"
  shows "\<exists>dated si.
           to_datetime_date parse df ''DeliveryDate'' = Inr dated
         \<and> column_index df ''SuccessIndicator'' = Inr si
         \<and> columns skip_set = filter (\<lambda>c. c \<in> set cols) (columns df)
         \<and> set (rows skip_set)
             = project (columns df) cols ` {r \<in> set (rows dated). r ! si \<noteq> Str ''Error''}
         \<and> (columns skip_set \<noteq> [] \<longrightarrow> distinct (rows skip_set))"
proof -
  from assms obtain dated where dated: "to_datetime_date parse df ''DeliveryDate'' = Inr dated"
    by (auto simp: import_exsting_combinations_file_def split: sum.splits)
  then have cols_dated: "columns dated = columns df"
    using to_datetime_date_rows by blast
  from assms dated obtain si where si': "column_index dated ''SuccessIndicator'' = Inr si"
    by (auto simp: import_exsting_combinations_file_def split: sum.splits)
  then have si: "column_index df ''SuccessIndicator'' = Inr si"
    using column_index_columns [OF cols_dated] by simp
  let ?kept = "filter (\<lambda>r. r ! si \<noteq> Str ''Error'') (rows dated)"
  let ?p = "drop_columns (dated\<lparr>rows := ?kept\<rparr>) (filter (\<lambda>c. c \<notin> set cols) (columns df))"
  from assms dated si' have S: "skip_set = drop_duplicates ?p"
    by (simp add: import_exsting_combinations_file_def Let_def cols_dated)
  have c: "columns skip_set = filter (\<lambda>c. c \<in> set cols) (columns df)"
    unfolding S by (simp add: columns_drop_duplicates drop_columns_def cols_dated)
      (rule filter_cong, auto)
  have r: "set (rows skip_set)
             = project (columns df) cols ` {r \<in> set (rows dated). r ! si \<noteq> Str ''Error''}"
    unfolding S by (simp add: set_rows_drop_duplicates drop_columns_def cols_dated drop_row_project)
  have d: "columns skip_set \<noteq> [] \<Longrightarrow> distinct (rows skip_set)"
  proof -
    assume ne: "columns skip_set \<noteq> []"
    then have "columns ?p \<noteq> []" by (simp add: S columns_drop_duplicates)
    then show ?thesis
      unfolding S by (cases "rows ?p = []") (simp_all add: drop_duplicates_def is_empty_def distinct_keep_first)
  qed
  from dated si c r d show ?thesis by blast
qed

lemma log_update_tracking_file_any:
  "\<exists>evs. log (snd (update_tracking_file w p d hr)) = log w @ evs \<and> request_urls evs = []"
  by (auto simp: update_tracking_file_def write_csv_def emit_def Let_def
      split: if_splits option.splits list.splits)

lemma download_step_requests:
  assumes skip: "skip_check ex (key_of cfg t) = Inr False"
    and vc: "clean_value (type_name cfg) (t_value t) = Inr vc"
    and url: "url_of cfg t vc = Inr (Some url)"
  shows "request_urls (log (snd (snd (download_step st cfg ex t (n, w))))) = request_urls (log w) @ [url]"
proof -
  obtain res w1 where att: "attempt st cfg t (Some url) w = (res, w1)"
    by (cases "attempt st cfg t (Some url) w")
  from log_attempt_request [OF url att] have w1: "request_urls (log w1) = request_urls (log w) @ [url]"
    by (simp add: request_urls_append)
  show ?thesis
  proof (cases res)
    case (Inl e)
    with skip vc url att w1 show ?thesis
      by (simp add: download_step_def)
  next
    case (Inr si)
    show ?thesis
    proof (cases "tracking_row st cfg t si")
      case (Inl e)
      with skip vc url att w1 \<open>res = Inr si\<close> show ?thesis
        by (simp add: download_step_def Let_def)
    next
      case (Inr row)
      obtain d hr where row: "row = (d, hr)" by (cases row)
      obtain evs where evs: "log (snd (update_tracking_file w1 (tracking_path cfg) d hr)) = log w1 @ evs"
        "request_urls evs = []"
        using log_update_tracking_file_any by blast
      obtain r2 w2 where upd: "update_tracking_file w1 (tracking_path cfg) d hr = (r2, w2)"
        by (cases "update_tracking_file w1 (tracking_path cfg) d hr")
      with evs w1 have w2: "request_urls (log w2) = request_urls (log w) @ [url]"
        by (simp add: request_urls_append)
      from skip vc url att \<open>res = Inr si\<close> Inr row upd w2 show ?thesis
        by (cases r2) (simp_all add: download_step_def Let_def emit_def request_urls_append)
    qed
  qed
qed

lemma check_existing_combinations_False:
  "check_existing_combinations df key \<noteq> Inr True \<Longrightarrow> length (columns df) = length key \<Longrightarrow>
     check_existing_combinations df key = Inr False"
  by (simp add: check_existing_combinations_def eq_list_def)

lemma load_existing_cases:
  assumes imp: "import_csv st w (tracking_path cfg) = Some tf"
    and load: "load_existing st cfg w = Inr (Some ex)"
  shows "\<exists>skip_set.
           import_exsting_combinations_file (parse_date st) (Some tf) (key_columns (type_name cfg)) = Inr skip_set
         \<and> (if type_name cfg = ''continuous'' then ex = skip_set
             else to_datetime_date (parse_date st) skip_set ''TradingDate'' = Inr ex)"
proof -
  from imp have "csv_files w (tracking_path cfg) \<noteq> None"
    by (auto simp: import_csv_def split: option.splits)
  with load imp show ?thesis
    by (auto simp: load_existing_def split: sum.splits if_splits)
qed

lemma load_existing_rows:
  assumes imp: "import_csv st w (tracking_path cfg) = Some tf"
    and load: "load_existing st cfg w = Inr (Some ex)"
    and dated: "to_datetime_date (parse_date st) tf ''DeliveryDate'' = Inr dated"
    and si: "column_index tf ''SuccessIndicator'' = Inr si"
  shows "columns ex = filter (\<lambda>c. c \<in> set (key_columns (type_name cfg))) (columns tf)
       \<and> set (rows ex) = ledger_key st cfg (columns tf) ` {r \<in> set (rows dated). r ! si \<noteq> Str ''Error''}"
proof -
  let ?cols = "key_columns (type_name cfg)"
  from load_existing_cases [OF imp load] obtain skip_set where
    S: "import_exsting_combinations_file (parse_date st) (Some tf) ?cols = Inr skip_set"
    and ex: "if type_name cfg = ''continuous'' then ex = skip_set
             else to_datetime_date (parse_date st) skip_set ''TradingDate'' = Inr ex"
    by blast
  from import_existing_rows [OF S] dated si have
    c: "columns skip_set = filter (\<lambda>c. c \<in> set ?cols) (columns tf)"
    and r: "set (rows skip_set) = project (columns tf) ?cols ` {r \<in> set (rows dated). r ! si \<noteq> Str ''Error''}"
    by auto
  show ?thesis
  proof (cases "type_name cfg = ''continuous''")
    case True
    with ex c r show ?thesis
      by (simp add: ledger_key_def)
  next
    case False
    with ex have conv: "to_datetime_date (parse_date st) skip_set ''TradingDate'' = Inr ex"
      by simp
    from to_datetime_date_rows [OF conv] obtain j where
      cex: "columns ex = columns skip_set"
      and j: "column_index skip_set ''TradingDate'' = Inr j"
      and rex: "rows ex = map (with_date (parse_date st) j) (rows skip_set)"
      by blast
    have "column_index \<lparr>columns = filter (\<lambda>c. c \<in> set ?cols) (columns tf), rows = []\<rparr> ''TradingDate'' = Inr j"
      using j column_index_columns [of skip_set "\<lparr>columns = filter (\<lambda>c. c \<in> set ?cols) (columns tf), rows = []\<rparr>"] c
      by simp
    then have key: "ledger_key st cfg (columns tf) x = with_date (parse_date st) j (project (columns tf) ?cols x)" for x
      using False by (simp add: ledger_key_def)
    have "set (rows ex) = with_date (parse_date st) j ` set (rows skip_set)"
      by (simp add: rex)
    also have "\<dots> = ledger_key st cfg (columns tf) ` {r \<in> set (rows dated). r ! si \<noteq> Str ''Error''}"
      unfolding r by (simp add: image_image key)
    finally show ?thesis
      using cex c by simp
  qed
qed

lemma length_ledger_key:
  "length (ledger_key st cfg cols r) = length (project cols (key_columns (type_name cfg)) r)"
  by (simp add: ledger_key_def Let_def length_with_date split: sum.splits)

lemma wf_load_existing:
  assumes imp: "import_csv st w (tracking_path cfg) = Some tf"
    and wf: "wf_frame tf"
    and load: "load_existing st cfg w = Inr (Some ex)"
    and dated: "to_datetime_date (parse_date st) tf ''DeliveryDate'' = Inr dated"
    and si: "column_index tf ''SuccessIndicator'' = Inr si"
  shows "wf_frame ex"
proof -
  from to_datetime_date_rows [OF dated] obtain j where
    "rows dated = map (with_date (parse_date st) j) (rows tf)"
    by blast
  with wf have len: "r \<in> set (rows dated) \<Longrightarrow> length r = length (columns tf)" for r
    by (auto simp: wf_frame_def list_all_iff length_with_date)
  from load_existing_rows [OF imp load dated si] len show ?thesis
    by (auto simp: wf_frame_def list_all_iff length_ledger_key length_project)
qed

text \<open>
  C3.  Loading the skip set keeps exactly the rows of the tracking table whose
  SuccessIndicator is not "Error", projects them onto the key columns and removes
  duplicate rows.  Hence a combination whose ledger entries all have the outcome Error
  is not in the skip set that the driver loads, the driver does not skip it, and it
  requests the page of the combination again.
\<close>

theorem existing_combinations_skip_set:
  "(import_exsting_combinations_file parse (Some df) cols = Inr skip_set \<longrightarrow>
      (\<exists>dated si.
           to_datetime_date parse df ''DeliveryDate'' = Inr dated
         \<and> column_index df ''SuccessIndicator'' = Inr si
         \<and> columns skip_set = filter (\<lambda>c. c \<in> set cols) (columns df)
         \<and> set (rows skip_set)
             = project (columns df) cols ` {r \<in> set (rows dated). r ! si \<noteq> Str ''Error''}
         \<and> (columns skip_set \<noteq> [] \<longrightarrow> distinct (rows skip_set))))
   \<and> (import_csv st w (tracking_path cfg) = Some tf \<and> wf_frame tf
        \<and> load_existing st cfg w = Inr (Some ex)
        \<and> to_datetime_date (parse_date st) tf ''DeliveryDate'' = Inr dated
        \<and> column_index tf ''SuccessIndicator'' = Inr si
        \<and> (\<forall>r \<in> set (rows dated).
              list_all2 cell_eq (ledger_key st cfg (columns tf) r) (key_of cfg t) \<longrightarrow> r ! si = Str ''Error'')
      \<longrightarrow> skip_check (Some ex) (key_of cfg t) \<noteq> Inr True
          \<and> (length (columns ex) = length (key_of cfg t)
               \<and> clean_value (type_name cfg) (t_value t) = Inr vc \<and> url_of cfg t vc = Inr (Some url) \<longrightarrow>
             request_urls (log (snd (snd (download_step st cfg (Some ex) t (n, w)))))
               = request_urls (log w) @ [url]))"
proof -
  have a: "import_exsting_combinations_file parse (Some df) cols = Inr skip_set \<Longrightarrow>
      (\<exists>dated si.
           to_datetime_date parse df ''DeliveryDate'' = Inr dated
         \<and> column_index df ''SuccessIndicator'' = Inr si
         \<and> columns skip_set = filter (\<lambda>c. c \<in> set cols) (columns df)
         \<and> set (rows skip_set)
             = project (columns df) cols ` {r \<in> set (rows dated). r ! si \<noteq> Str ''Error''}
         \<and> (columns skip_set \<noteq> [] \<longrightarrow> distinct (rows skip_set)))"
    by (rule import_existing_rows)
  have b: "skip_check (Some ex) (key_of cfg t) \<noteq> Inr True
          \<and> (length (columns ex) = length (key_of cfg t)
               \<and> clean_value (type_name cfg) (t_value t) = Inr vc \<and> url_of cfg t vc = Inr (Some url) \<longrightarrow>
             request_urls (log (snd (snd (download_step st cfg (Some ex) t (n, w)))))
               = request_urls (log w) @ [url])"
    if imp: "import_csv st w (tracking_path cfg) = Some tf" and wf: "wf_frame tf"
      and load: "load_existing st cfg w = Inr (Some ex)"
      and dated: "to_datetime_date (parse_date st) tf ''DeliveryDate'' = Inr dated"
      and si: "column_index tf ''SuccessIndicator'' = Inr si"
      and only: "\<forall>r \<in> set (rows dated).
              list_all2 cell_eq (ledger_key st cfg (columns tf) r) (key_of cfg t) \<longrightarrow> r ! si = Str ''Error''"
  proof -
    have wfex: "wf_frame ex"
      by (rule wf_load_existing [OF imp wf load dated si])
    from load_existing_rows [OF imp load dated si] only
    have "\<not> (\<exists>x \<in> set (rows ex). list_all2 cell_eq x (key_of cfg t))"
      by auto
    then have ne: "check_existing_combinations ex (key_of cfg t) \<noteq> Inr True"
      by (simp add: check_existing_combinations_rows [OF wfex])
    then have 1: "skip_check (Some ex) (key_of cfg t) \<noteq> Inr True"
      by (simp add: skip_check_def)
    have 2: "request_urls (log (snd (snd (download_step st cfg (Some ex) t (n, w)))))
               = request_urls (log w) @ [url]"
      if "length (columns ex) = length (key_of cfg t)"
        and "clean_value (type_name cfg) (t_value t) = Inr vc" and "url_of cfg t vc = Inr (Some url)"
    proof -
      from check_existing_combinations_False [OF ne that(1)]
      have "skip_check (Some ex) (key_of cfg t) = Inr False"
        by (simp add: skip_check_def)
      from download_step_requests [OF this that(2) that(3)] show ?thesis .
    qed
    from 1 2 show ?thesis by blast
  qed
  from a b show ?thesis by blast
qed

lemma load_existing_example:
  "load_existing site_example download_settings_example world_with_ledger = Inr (Some skip_set_example)"
  by code_simp

lemma import_csv_example:
  "import_csv site_example world_with_ledger (tracking_path download_settings_example)
     = Some ledger_table_example"
  by code_simp

lemma dated_example:
  "to_datetime_date (parse_date site_example) ledger_table_example ''DeliveryDate''
     = Inr ledger_dated_example"
  by code_simp

lemma si_example: "column_index ledger_table_example ''SuccessIndicator'' = Inr 7"
  by code_simp

lemma only_error_example:
  "\<forall>r \<in> set (rows ledger_dated_example).
     list_all2 cell_eq (ledger_key site_example download_settings_example (columns ledger_table_example) r)
       (key_of download_settings_example target_failed_before) \<longrightarrow> r ! 7 = Str ''Error''"
  by code_simp

lemma wf_ledger_table_example: "wf_frame ledger_table_example"
  by code_simp

lemma url_example:
  "clean_value (type_name download_settings_example) (t_value target_failed_before) = Inr (Some ''MRC'')
   \<and> url_of download_settings_example target_failed_before (Some ''MRC'')
       = Inr (Some ''https://www.epexspot.com/en/market-results?market_area=FR&auction=MRC&trading_date=2025-01-12&delivery_date=2025-01-13&underlying_year=&modality=Auction&sub_modality=DayAhead&technology=&data_mode=table&period=&production_period='')
   \<and> length (columns skip_set_example) = length (key_of download_settings_example target_failed_before)"
  by code_simp

theorem existing_combinations_skip_set_witness:
  "load_existing site_example download_settings_example world_with_ledger = Inr (Some skip_set_example)
   \<and> skip_check (Some skip_set_example) (key_of download_settings_example target_failed_before) \<noteq> Inr True
   \<and> request_urls (log (snd (snd (download_step site_example download_settings_example
                                     (Some skip_set_example) target_failed_before (0, world_with_ledger)))))
       = [''https://www.epexspot.com/en/market-results?market_area=FR&auction=MRC&trading_date=2025-01-12&delivery_date=2025-01-13&underlying_year=&modality=Auction&sub_modality=DayAhead&technology=&data_mode=table&period=&production_period='']"
proof -
  have empty: "request_urls (log world_with_ledger) = []"
    by (simp add: world_with_ledger_def)
  from existing_combinations_skip_set [of _ _ _ _ site_example world_with_ledger download_settings_example
      ledger_table_example skip_set_example ledger_dated_example 7 target_failed_before "Some ''MRC''" _ 0]
    import_csv_example wf_ledger_table_example load_existing_example dated_example si_example
    only_error_example url_example
  have "skip_check (Some skip_set_example) (key_of download_settings_example target_failed_before) \<noteq> Inr True"
    and "request_urls (log (snd (snd (download_step site_example download_settings_example
                                     (Some skip_set_example) target_failed_before (0, world_with_ledger)))))
       = request_urls (log world_with_ledger) @ [''https://www.epexspot.com/en/market-results?market_area=FR&auction=MRC&trading_date=2025-01-12&delivery_date=2025-01-13&underlying_year=&modality=Auction&sub_modality=DayAhead&technology=&data_mode=table&period=&production_period='']"
    by blast+
  with load_existing_example empty show ?thesis by simp
qed

section \<open>Pacing\<close>

lemma and_then_rel:
  assumes "R x (snd r)" and "\<And>s. R s (snd (f s))" and "\<And>a b c. R a b \<Longrightarrow> R b c \<Longrightarrow> R a c"
  shows "R x (snd (and_then r f))"
proof (cases r)
  case (Pair e s)
  show ?thesis
  proof (cases e)
    case None
    with Pair assms(1) assms(2) [of s] assms(3) show ?thesis
      by (auto simp: and_then_def)
  next
    case (Some a)
    with Pair assms(1) show ?thesis
      by (simp add: and_then_def)
  qed
qed

lemma and_then_fst_None:
  "fst (and_then r f) = None \<Longrightarrow> fst r = None"
  by (cases r) (auto simp: and_then_def split: option.splits)

lemma log_grows_fetch_stage:
  "\<exists>evs. log (wld (snd (fetch_stage l cfg c s))) = log (wld s) @ evs"
  by (simp add: fetch_stage_def Let_def emit_def mark_both_def split: sum.splits option.splits)

lemma log_grows_track_stage:
  "\<exists>evs. log (wld (snd (track_stage l cfg c h b s))) = log (wld s) @ evs"
  by (simp add: track_stage_def write_tracking_inline_def write_csv_def emit_def Let_def
      split: prod.splits option.splits list.splits)

lemma body_log_grows:
  "\<exists>evs. log (wld (snd (and_then (and_then (and_then
       (if h = True \<and> b = True then (None, s) else fetch_stage l cfg c s)
       (hours_stage l cfg c h))
       (base_peak_stage l cfg c b))
       (track_stage l cfg c h b)))) = log (wld s) @ evs"
proof -
  let ?R = "\<lambda>s s'. \<exists>evs. log (wld s') = log (wld s) @ evs"
  have tr: "?R a b \<Longrightarrow> ?R b c \<Longrightarrow> ?R a c" for a b c :: progress
    by auto
  have first: "?R s (snd (if h = True \<and> b = True then (None, s) else fetch_stage l cfg c s))"
    using log_grows_fetch_stage [of l cfg c s] by simp
  have hs: "?R s (snd (hours_stage l cfg c h s))" for s
    using hours_stage_keeps [where q = log, of cfg l c h s] by (simp add: log_hourly_append)
  have bs: "?R s (snd (base_peak_stage l cfg c b s))" for s
    using base_peak_stage_keeps [where q = log, of cfg l c b s] by (simp add: log_base_peak_append)
  have ts: "?R s (snd (track_stage l cfg c h b s))" for s
    by (rule log_grows_track_stage)
  show ?thesis
    by (rule and_then_rel [where R = ?R], rule and_then_rel [where R = ?R],
        rule and_then_rel [where R = ?R], rule first, rule hs, rule tr, assumption, assumption,
        rule bs, rule tr, assumption, assumption, rule ts, rule tr, assumption, assumption)
qed

lemma body_before_pace_pauses:
  "pauses (log (wld (snd (and_then (and_then (and_then
       (if h = True \<and> b = True then (None, s) else fetch_stage l cfg c s)
       (hours_stage l cfg c h))
       (base_peak_stage l cfg c b))
       (track_stage l cfg c h b))))) = pauses (log (wld s))"
proof -
  let ?q = "\<lambda>w. pauses (log w)"
  have hs: "?q (wld (snd (hours_stage l cfg c h s))) = ?q (wld s)" for s
    by (rule hours_stage_keeps [where q = ?q]) (simp add: log_hourly_append)
  have bs: "?q (wld (snd (base_peak_stage l cfg c b s))) = ?q (wld s)" for s
    by (rule base_peak_stage_keeps [where q = ?q]) (simp add: log_base_peak_append)
  have ts: "?q (wld (snd (track_stage l cfg c h b s))) = ?q (wld s)" for s
    by (rule track_stage_keeps [where q = ?q]) (simp add: pauses_write_tracking_inline)
  show ?thesis
    by (rule body_before_pace [where q = ?q]) (simp_all add: pauses_fetch_stage hs bs ts)
qed

lemma body_skipped:
  "and_then (and_then (and_then
       (if True = True \<and> True = True then (None, s) else fetch_stage l cfg c s)
       (hours_stage l cfg c True))
       (base_peak_stage l cfg c True))
       (track_stage l cfg c True True) = (None, s)"
  by (simp add: and_then_def hours_stage_skip base_peak_stage_skip track_stage_def)

lemma download_data_body_log:
  assumes "fst (download_data_body l cfg c h b s) = None"
  shows "\<exists>evs. log (wld (snd (download_data_body l cfg c h b s))) = log (wld s) @ evs @ [Sleep]
           \<and> pauses evs = 0
           \<and> (h \<and> b \<longrightarrow> evs = [])
           \<and> (\<not> (h \<and> b) \<longrightarrow>
                 (\<exists>a. clean_auction_name (kind cfg) (auction_name c) = Inr a
                    \<and> request_urls evs = [url_table cfg c a]))"
proof -
  let ?X = "and_then (and_then (and_then
       (if h = True \<and> b = True then (None, s) else fetch_stage l cfg c s)
       (hours_stage l cfg c h))
       (base_peak_stage l cfg c b))
       (track_stage l cfg c h b)"
  have body: "download_data_body l cfg c h b s = and_then ?X pace"
    by (simp add: download_data_body_def)
  with assms have end_pace: "download_data_body l cfg c h b s = pace (snd ?X)"
    using and_then_None [of ?X pace] by simp
  from body_log_grows [of h b s l cfg c] obtain evs where evs: "log (wld (snd ?X)) = log (wld s) @ evs"
    by blast
  have a: "log (wld (snd (download_data_body l cfg c h b s))) = log (wld s) @ evs @ [Sleep]"
    using end_pace evs by (simp add: pace_def emit_def)
  have b: "pauses evs = 0"
    using body_before_pace_pauses [of h b s l cfg c] evs by (simp add: pauses_append)
  have c: "evs = []" if "h \<and> b"
    using that evs body_skipped [of s l cfg c] by simp
  have d: "\<exists>a. clean_auction_name (kind cfg) (auction_name c) = Inr a
                \<and> request_urls evs = [url_table cfg c a]" if nb: "\<not> (h \<and> b)"
  proof -
    from assms body have "fst ?X = None"
      using and_then_None [of ?X pace] by simp
    then have "fst (if h = True \<and> b = True then (None, s) else fetch_stage l cfg c s) = None"
      by (blast dest: and_then_fst_None)
    with nb have "fst (fetch_stage l cfg c s) = None"
      by (cases "h \<and> b") simp_all
    then obtain an where an: "clean_auction_name (kind cfg) (auction_name c) = Inr an"
      by (auto simp: fetch_stage_def split: sum.splits)
    have "request_urls (log (wld (snd (download_data_body l cfg c h b s))))
        = request_urls (log (wld s)) @ [url_table cfg c an]"
      unfolding body_requests using nb
      by (simp add: log_fetch_stage [OF an] request_urls_append)
    with a have "request_urls evs = [url_table cfg c an]"
      by (simp add: request_urls_append)
    with an show ?thesis by blast
  qed
  show ?thesis
  proof (intro exI [of _ evs] conjI impI)
    show "log (wld (snd (download_data_body l cfg c h b s))) = log (wld s) @ evs @ [Sleep]"
      by (rule a)
    show "pauses evs = 0"
      by (rule b)
    show "evs = []" if "h \<and> b"
      using that by (rule c)
    show "\<exists>a. clean_auction_name (kind cfg) (auction_name c) = Inr a
                \<and> request_urls evs = [url_table cfg c a]" if "\<not> (h \<and> b)"
      using that by (rule d)
  qed
qed

lemma download_data_step_log:
  assumes "archive_checks l cfg c w = Inr (hourly_df, basepeak_df, h, b)"
    and "download_data_step l cfg c (vs, w) = (None, vs', w')"
  shows "\<exists>evs. log w' = log w @ evs @ [Sleep]
           \<and> pauses evs = 0
           \<and> (h \<and> b \<longrightarrow> evs = [])
           \<and> (\<not> (h \<and> b) \<longrightarrow>
                 (\<exists>a. clean_auction_name (kind cfg) (auction_name c) = Inr a
                    \<and> request_urls evs = [url_table cfg c a]))"
proof -
  let ?s = "\<lparr>num_hours_records = Unset, base_peak_sucess = Unset, vars = vs,
             archive_hourly_data_df = hourly_df, archive_basepeak_data_df = basepeak_df, wld = w\<rparr>"
  from assms have "w' = wld (snd (download_data_body l cfg c h b ?s))"
    and "fst (download_data_body l cfg c h b ?s) = None"
    by (auto simp: download_data_step_def split: prod.splits)
  then show ?thesis
    using download_data_body_log [of l cfg c h b ?s] by simp
qed

lemma both_archives_skipped:
  "map_sum id (\<lambda>(hourly_df, basepeak_df, h, b). (h, b))
     (archive_checks lib_example settings_example combination_example world_both_archives)
     = Inr (True, True)
   \<and> fst (download_data_step lib_example settings_example combination_example
             (no_locals, world_both_archives)) = None
   \<and> log (snd (snd (download_data_step lib_example settings_example combination_example
                       (no_locals, world_both_archives)))) = [Sleep]"
  by code_simp

text \<open>
  C9 as stated fails for the driver with two archives: a combination that both archives
  hold is skipped without any request, and the pause is observed after it all the same.
\<close>

theorem download_data_pause_counterexample:
  "map_sum id (\<lambda>(hourly_df, basepeak_df, h, b). (h, b))
     (archive_checks lib_example settings_example combination_example world_both_archives)
     = Inr (True, True)
   \<and> fst (download_data_step lib_example settings_example combination_example
             (no_locals, world_both_archives)) = None
   \<and> log (snd (snd (download_data_step lib_example settings_example combination_example
                       (no_locals, world_both_archives)))) = [Sleep]"
  by (rule both_archives_skipped)

text \<open>
  C9, amended.  In \<open>download\<close> a combination that the skip set holds leaves the world
  as it was: nothing is requested and no pause is observed after it.  A combination that
  is attempted and carried through to its ledger entry, whatever its outcome, adds to the
  log its own events, none of which is a pause, and then one pause, which is the last
  thing that happens; the page of the combination is requested among those events,
  before the pause, when the type is one of those the query is built for, and nothing is
  requested otherwise.  In \<open>download_data\<close> the pause is the last statement of the loop
  body: every combination that is carried through adds to the log its own events, none
  of them a pause, and then one pause as the last event; for a combination that both
  archives hold there is no event before the pause, and for every other one the page of
  the combination is requested before it.
\<close>

theorem pause_after_combination:
  "(skip_check ex (key_of dcfg t) = Inr True \<longrightarrow>
      snd (snd (download_step st dcfg ex t (n, w))) = w)
   \<and> (skip_check ex (key_of dcfg t) = Inr False \<and> download_step st dcfg ex t (n, w) = (None, n', w') \<longrightarrow>
      (\<exists>evs. log w' = log w @ evs @ [Sleep] \<and> pauses evs = 0
         \<and> (\<forall>vc u. clean_value (type_name dcfg) (t_value t) = Inr vc \<and> url_of dcfg t vc = Inr (Some u)
               \<longrightarrow> request_urls evs = [u])
         \<and> (\<forall>vc. clean_value (type_name dcfg) (t_value t) = Inr vc \<and> url_of dcfg t vc = Inr None
               \<longrightarrow> request_urls evs = [])))
   \<and> (archive_checks l cfg c w0 = Inr (hourly_df, basepeak_df, h, b)
        \<and> download_data_step l cfg c (vs, w0) = (None, vs', w0') \<longrightarrow>
      (\<exists>evs. log w0' = log w0 @ evs @ [Sleep] \<and> pauses evs = 0
         \<and> (h \<and> b \<longrightarrow> evs = [])
         \<and> (\<not> (h \<and> b) \<longrightarrow>
               (\<exists>a. clean_auction_name (kind cfg) (auction_name c) = Inr a
                  \<and> request_urls evs = [url_table cfg c a]))))"
proof (intro conjI impI)
  assume "skip_check ex (key_of dcfg t) = Inr True"
  then show "snd (snd (download_step st dcfg ex t (n, w))) = w"
    by (rule download_step_skip)
next
  assume "skip_check ex (key_of dcfg t) = Inr False \<and> download_step st dcfg ex t (n, w) = (None, n', w')"
  then have "skip_check ex (key_of dcfg t) = Inr False" and "download_step st dcfg ex t (n, w) = (None, n', w')"
    by simp_all
  then show "\<exists>evs. log w' = log w @ evs @ [Sleep] \<and> pauses evs = 0
         \<and> (\<forall>vc u. clean_value (type_name dcfg) (t_value t) = Inr vc \<and> url_of dcfg t vc = Inr (Some u)
               \<longrightarrow> request_urls evs = [u])
         \<and> (\<forall>vc. clean_value (type_name dcfg) (t_value t) = Inr vc \<and> url_of dcfg t vc = Inr None
               \<longrightarrow> request_urls evs = [])"
    by (rule download_step_attempted)
next
  assume "archive_checks l cfg c w0 = Inr (hourly_df, basepeak_df, h, b)
        \<and> download_data_step l cfg c (vs, w0) = (None, vs', w0')"
  then have "archive_checks l cfg c w0 = Inr (hourly_df, basepeak_df, h, b)"
    and "download_data_step l cfg c (vs, w0) = (None, vs', w0')"
    by simp_all
  then show "\<exists>evs. log w0' = log w0 @ evs @ [Sleep] \<and> pauses evs = 0
         \<and> (h \<and> b \<longrightarrow> evs = [])
         \<and> (\<not> (h \<and> b) \<longrightarrow>
               (\<exists>a. clean_auction_name (kind cfg) (auction_name c) = Inr a
                  \<and> request_urls evs = [url_table cfg c a]))"
    by (rule download_data_step_log)
qed

lemma skip_check_archived:
  "skip_check (Some skip_set_example) (key_of download_settings_example target_archived) = Inr True"
  by code_simp

lemma skip_check_failed_before:
  "skip_check (Some skip_set_example) (key_of download_settings_example target_failed_before) = Inr False"
  by code_simp

lemma download_step_failed_before:
  "(case download_step site_example download_settings_example (Some skip_set_example)
           target_failed_before (0, world_with_ledger) of (r, n, w) \<Rightarrow> (r, n)) = (None, 1)"
  by code_simp

lemma url_of_failed_before:
  "clean_value (type_name download_settings_example) (t_value target_failed_before) = Inr (Some ''MRC'')
   \<and> url_of download_settings_example target_failed_before (Some ''MRC'')
       = Inr (Some ''https://www.epexspot.com/en/market-results?market_area=FR&auction=MRC&trading_date=2025-01-12&delivery_date=2025-01-13&underlying_year=&modality=Auction&sub_modality=DayAhead&technology=&data_mode=table&period=&production_period='')"
  by code_simp

lemma hourly_only_attempted:
  "map_sum id (\<lambda>(hourly_df, basepeak_df, h, b). (h, b))
     (archive_checks lib_example settings_example combination_example world_hourly_only)
     = Inr (True, False)
   \<and> fst (download_data_step lib_example settings_example combination_example
             (no_locals, world_hourly_only)) = None"
  by code_simp

theorem pause_after_combination_witness:
  "snd (snd (download_step site_example download_settings_example (Some skip_set_example)
               target_archived (0, world_with_ledger))) = world_with_ledger
   \<and> last (log (snd (snd (download_step site_example download_settings_example (Some skip_set_example)
                            target_failed_before (0, world_with_ledger))))) = Sleep
   \<and> pauses (butlast (log (snd (snd (download_step site_example download_settings_example
                            (Some skip_set_example) target_failed_before (0, world_with_ledger)))))) = 0
   \<and> request_urls (butlast (log (snd (snd (download_step site_example download_settings_example
                            (Some skip_set_example) target_failed_before (0, world_with_ledger))))))
       = [''https://www.epexspot.com/en/market-results?market_area=FR&auction=MRC&trading_date=2025-01-12&delivery_date=2025-01-13&underlying_year=&modality=Auction&sub_modality=DayAhead&technology=&data_mode=table&period=&production_period='']
   \<and> log (snd (snd (download_data_step lib_example settings_example combination_example
                      (no_locals, world_both_archives)))) = [Sleep]
   \<and> last (log (snd (snd (download_data_step lib_example settings_example combination_example
                            (no_locals, world_hourly_only))))) = Sleep
   \<and> pauses (butlast (log (snd (snd (download_data_step lib_example settings_example
                            combination_example (no_locals, world_hourly_only)))))) = 0
   \<and> length (request_urls (butlast (log (snd (snd (download_data_step lib_example settings_example
                            combination_example (no_locals, world_hourly_only))))))) = 1"
proof -
  obtain w' where step: "download_step site_example download_settings_example (Some skip_set_example)
           target_failed_before (0, world_with_ledger) = (None, 1, w')"
    using download_step_failed_before
    by (cases "download_step site_example download_settings_example (Some skip_set_example)
           target_failed_before (0, world_with_ledger)") auto
  obtain hourly_df basepeak_df where checks:
    "archive_checks lib_example settings_example combination_example world_both_archives
       = Inr (hourly_df, basepeak_df, True, True)"
    using both_archives_skipped
    by (cases "archive_checks lib_example settings_example combination_example world_both_archives")
       auto
  obtain vs' w0' where step0:
    "download_data_step lib_example settings_example combination_example (no_locals, world_both_archives)
       = (None, vs', w0')"
    using both_archives_skipped
    by (cases "download_data_step lib_example settings_example combination_example (no_locals, world_both_archives)")
       auto
  obtain hourly_df1 basepeak_df1 where checks1:
    "archive_checks lib_example settings_example combination_example world_hourly_only
       = Inr (hourly_df1, basepeak_df1, True, False)"
    using hourly_only_attempted
    by (cases "archive_checks lib_example settings_example combination_example world_hourly_only")
       auto
  obtain vs1 w1 where step1:
    "download_data_step lib_example settings_example combination_example (no_locals, world_hourly_only)
       = (None, vs1, w1)"
    using hourly_only_attempted
    by (cases "download_data_step lib_example settings_example combination_example (no_locals, world_hourly_only)")
       auto
  have empty: "log world_with_ledger = []" "log world_both_archives = []" "log world_hourly_only = []"
    by (simp_all add: world_with_ledger_def world_both_archives_def world_hourly_only_def)
  from pause_after_combination [of "Some skip_set_example" download_settings_example target_archived
      site_example 0 world_with_ledger] skip_check_archived
  have a: "snd (snd (download_step site_example download_settings_example (Some skip_set_example)
               target_archived (0, world_with_ledger))) = world_with_ledger"
    by blast
  from pause_after_combination [of "Some skip_set_example" download_settings_example target_failed_before
      site_example 0 world_with_ledger 1 w'] skip_check_failed_before step url_of_failed_before
  obtain evs where b: "log w' = log world_with_ledger @ evs @ [Sleep]" "pauses evs = 0"
    "request_urls evs = [''https://www.epexspot.com/en/market-results?market_area=FR&auction=MRC&trading_date=2025-01-12&delivery_date=2025-01-13&underlying_year=&modality=Auction&sub_modality=DayAhead&technology=&data_mode=table&period=&production_period='']"
    by blast
  from pause_after_combination [of _ _ _ _ _ _ _ _ lib_example settings_example combination_example
      world_both_archives hourly_df basepeak_df True True no_locals vs' w0'] checks step0
  obtain evs0 where c: "log w0' = log world_both_archives @ evs0 @ [Sleep]" "evs0 = []"
    by blast
  from pause_after_combination [of _ _ _ _ _ _ _ _ lib_example settings_example combination_example
      world_hourly_only hourly_df1 basepeak_df1 True False no_locals vs1 w1] checks1 step1
  obtain evs1 u where d: "log w1 = log world_hourly_only @ evs1 @ [Sleep]" "pauses evs1 = 0"
    "request_urls evs1 = [u]"
    by blast
  from a b c d empty step step0 step1 show ?thesis
    by (simp add: butlast_append)
qed

end
